(* ===== verification/MultiLanes_Prelude.thy ===== *)
theory MultiLanes_Prelude
  imports Main "HOL-Library.Word"
begin

unbundle bit_operations_syntax

text \<open>
  Shared vocabulary of the development: the integer types of the kernel code, its error
  numbers, the request flags of a block request, the calling convention "negative error
  number or 0", and the list, option and word lemmas several components use.
\<close>

section \<open>Types of the kernel interface\<close>

text \<open>
  Sector and block numbers (\<^verbatim>\<open>sector_t\<close>) index a device, whose size bounds them far below
  their 64 bits; they are natural numbers.  Byte counts of one segment are natural numbers
  too.  Values whose width matters (flag words, bitmaps, bytes, the fields that the ioctl
  interface narrows) are machine words in the components that use them.
\<close>

type_synonym sector_t = nat
type_synonym u8 = "8 word"
type_synonym u32 = "32 word"
type_synonym u64 = "64 word"
type_synonym ptr = nat

text \<open>The value of a kernel function that reports failure: 0, or a negated error number.\<close>

type_synonym errcode = int

abbreviation ENOSPC :: errcode where "ENOSPC \<equiv> 28"
abbreviation EPERM :: int where "EPERM \<equiv> 1"
abbreviation ENOENT :: int where "ENOENT \<equiv> 2"
abbreviation EIO :: int where "EIO \<equiv> 5"
abbreviation ENXIO :: int where "ENXIO \<equiv> 6"
abbreviation E2BIG :: int where "E2BIG \<equiv> 7"
abbreviation EBADF :: int where "EBADF \<equiv> 9"
abbreviation ENOMEM :: int where "ENOMEM \<equiv> 12"
abbreviation EACCES :: int where "EACCES \<equiv> 13"
abbreviation EFAULT :: int where "EFAULT \<equiv> 14"
abbreviation EBUSY :: int where "EBUSY \<equiv> 16"
abbreviation EEXIST :: int where "EEXIST \<equiv> 17"
abbreviation ENODEV :: int where "ENODEV \<equiv> 19"
abbreviation EINVAL :: int where "EINVAL \<equiv> 22"
abbreviation EFBIG :: int where "EFBIG \<equiv> 27"
abbreviation ERANGE :: int where "ERANGE \<equiv> 34"
abbreviation ENOSYS :: int where "ENOSYS \<equiv> 38"
abbreviation EOVERFLOW :: int where "EOVERFLOW \<equiv> 75"
abbreviation EOPNOTSUPP :: int where "EOPNOTSUPP \<equiv> 95"
abbreviation ENOIOCTLCMD :: int where "ENOIOCTLCMD \<equiv> 515"

section \<open>Named collections\<close>

named_theorems cache_simps \<open>lookup and update equations of the block cache\<close>
named_theorems bio_simps \<open>sector expansion of block requests\<close>
named_theorems dentry_simps \<open>field equations of the sfs dentry operations\<close>

section \<open>Lists\<close>

lemma filter_butlast_distinct:
  "distinct xs \<Longrightarrow> xs \<noteq> [] \<Longrightarrow> filter P (butlast xs) = filter (\<lambda>x. P x \<and> x \<noteq> last xs) xs"
proof (induction xs)
  case Nil
  then show ?case by simp
next
  case (Cons x xs)
  then show ?case
    by (cases "xs = []") (auto simp: filter_empty_conv)
qed

lemma take_Suc_snoc_butlast: "xs \<noteq> [] \<Longrightarrow> length xs = n \<Longrightarrow> take n (y # xs) = y # butlast xs"
  by (cases n) (simp_all add: butlast_conv_take)

lemma removeAll_filter: "removeAll x (filter P xs) = filter (\<lambda>y. P y \<and> y \<noteq> x) xs"
  by (induction xs) auto

lemma map_upt_shift: "map f [a..<a + n] = map (\<lambda>k. f (a + k)) [0..<n]"
  by (induction n) simp_all

lemma find_map_of:
  "(case find (\<lambda>x. f x = k) xs of None \<Rightarrow> None | Some x \<Rightarrow> Some (g x)) =
   map_of (map (\<lambda>x. (f x, g x)) xs) k"
  by (induction xs) auto

lemma find_cong_set: "(\<And>x. x \<in> set xs \<Longrightarrow> P x = Q x) \<Longrightarrow> find P xs = find Q xs"
  by (induction xs) auto

lemma find_filter: "find P (filter Q xs) = find (\<lambda>x. Q x \<and> P x) xs"
  by (induction xs) auto

section \<open>Words\<close>

lemma and_1_bit: "(w :: 'a::len word) AND 1 \<noteq> 0 \<longleftrightarrow> bit w 0"
  by (simp add: and_one_eq mod_2_eq_odd bit_0)

lemma ucast_and_1: "(ucast (w :: u64) :: u32) AND 1 \<noteq> 0 \<longleftrightarrow> w AND 1 \<noteq> 0"
  unfolding and_1_bit by (simp add: bit_simps)

end
