(* ===== verification/Block_Cache.thy ===== *)
theory Block_Cache
  imports MultiLanes_Prelude
begin

text \<open>
  The block cache of the virtualized device (the end of \<^verbatim>\<open>drivers/block/loop.c\<close>, with the types of
  \<^verbatim>\<open>include/linux/block_cache.h\<close> and the cache fields of \<^verbatim>\<open>struct loop_device\<close>): nodes that map a
  logical block of the device to a block of the host disk, reachable through a hash chain and
  through one list ordered by insertion.  Nodes are shared between the two lists and are unlinked
  by pointer, so the model keeps an explicit store of nodes.

  The main result is a functional refinement: under the invariant \<open>cache_inv\<close> the two linked
  structures are one bounded association list, newest entry first, in which \<open>add_cache\<close>
  prepends and drops the oldest entry and \<open>find_cache_node\<close> is \<open>map_of\<close>.
\<close>

section \<open>State\<close>

record block_cache_node =
  b_blocknr :: sector_t
  blk_local :: sector_t

record cache =
  nodes :: "ptr \<Rightarrow> block_cache_node option"
  next_ptr :: ptr
  block_cache :: "nat \<Rightarrow> ptr list"
  lru_count :: nat
  lru :: "ptr list"

definition CACHE_COUNT :: nat where
  "CACHE_COUNT = 40000"

definition LRU_LENGTH :: nat where
  "LRU_LENGTH = 1000 * 1024"

definition cache_hash_func :: "sector_t \<Rightarrow> nat" where
  "cache_hash_func nr = nr mod CACHE_COUNT"

section \<open>Operations\<close>

text \<open>\<open>local_of c p\<close> and \<open>phys_of c p\<close> read the two fields through a node pointer.\<close>

definition local_of :: "cache \<Rightarrow> ptr \<Rightarrow> sector_t" where
  "local_of c p = (case nodes c p of Some n \<Rightarrow> blk_local n | None \<Rightarrow> 0)"

definition phys_of :: "cache \<Rightarrow> ptr \<Rightarrow> sector_t" where
  "phys_of c p = (case nodes c p of Some n \<Rightarrow> b_blocknr n | None \<Rightarrow> 0)"

text \<open>The list heads that \<^verbatim>\<open>loop_set_fd\<close> initialises before it calls \<^verbatim>\<open>init_cache\<close>.\<close>

definition reset_lru :: "cache \<Rightarrow> cache" where
  "reset_lru c = c\<lparr>lru_count := 0, lru := []\<rparr>"

definition init_cache :: "cache \<Rightarrow> cache" where
  "init_cache c = c\<lparr>block_cache := (\<lambda>i. if i < CACHE_COUNT then [] else block_cache c i)\<rparr>"

text \<open>The search of one hash chain from its head; the result is the node's address.\<close>

definition find_cache_node :: "sector_t \<Rightarrow> cache \<Rightarrow> ptr option" where
  "find_cache_node nr c = find (\<lambda>p. local_of c p = nr) (block_cache c (cache_hash_func nr))"

definition block_cache_lookup :: "cache \<Rightarrow> sector_t \<Rightarrow> sector_t" where
  "block_cache_lookup c blk =
     (case find_cache_node blk c of Some p \<Rightarrow> phys_of c p | None \<Rightarrow> 0)"

text \<open>The node that \<^verbatim>\<open>add_cache\<close> fills: a new one below the bound, else the last one of the list,
  unlinked from the list and from its chain.\<close>

definition take_node :: "nat \<Rightarrow> cache \<Rightarrow> ptr \<times> cache" where
  "take_node lim c =
     (if lru_count c < lim
      then (next_ptr c,
            c\<lparr>nodes := (nodes c)(next_ptr c := Some \<lparr>b_blocknr = 0, blk_local = 0\<rparr>),
              next_ptr := Suc (next_ptr c), lru_count := Suc (lru_count c)\<rparr>)
      else (let p = last (lru c); h = cache_hash_func (local_of c p)
            in (p, c\<lparr>lru := butlast (lru c),
                     block_cache := (block_cache c)(h := removeAll p (block_cache c h))\<rparr>)))"

definition add_cache :: "nat \<Rightarrow> sector_t \<Rightarrow> sector_t \<Rightarrow> cache \<Rightarrow> cache" where
  "add_cache lim blknr blklocal c =
     (let (p, c1) = take_node lim c;
          h = cache_hash_func blklocal
      in c1\<lparr>nodes := (nodes c1)(p := Some \<lparr>b_blocknr = blknr, blk_local = blklocal\<rparr>),
            block_cache := (block_cache c1)(h := p # block_cache c1 h),
            lru := p # lru c1\<rparr>)"

text \<open>A device as \<^verbatim>\<open>kzalloc\<close> leaves it, and a device after \<^verbatim>\<open>loop_set_fd\<close> prepared its cache.\<close>

definition zero_cache :: cache where
  "zero_cache = \<lparr>nodes = Map.empty, next_ptr = 0, block_cache = (\<lambda>_. []), lru_count = 0, lru = []\<rparr>"

definition setup_cache :: "cache \<Rightarrow> cache" where
  "setup_cache c = init_cache (reset_lru c)"

section \<open>Invariant and abstraction\<close>

definition entry :: "cache \<Rightarrow> ptr \<Rightarrow> sector_t \<times> sector_t" where
  "entry c p = (local_of c p, phys_of c p)"

definition entries :: "cache \<Rightarrow> (sector_t \<times> sector_t) list" where
  "entries c = map (entry c) (lru c)"

definition cache_inv :: "nat \<Rightarrow> cache \<Rightarrow> bool" where
  "cache_inv lim c \<longleftrightarrow>
     distinct (lru c) \<and> (\<forall>p \<in> set (lru c). p < next_ptr c) \<and>
     lru_count c = length (lru c) \<and> lru_count c \<le> lim \<and>
     (\<forall>h. block_cache c h =
        (if h < CACHE_COUNT then filter (\<lambda>p. cache_hash_func (local_of c p) = h) (lru c) else []))"

lemma cache_hash_func_less [simp]: "cache_hash_func nr < CACHE_COUNT"
  by (simp add: cache_hash_func_def CACHE_COUNT_def)

lemma setup_cache_simps [simp]:
  "lru (setup_cache c) = []" "lru_count (setup_cache c) = 0" "entries (setup_cache c) = []"
  "nodes (setup_cache c) = nodes c" "next_ptr (setup_cache c) = next_ptr c"
  by (simp_all add: setup_cache_def init_cache_def reset_lru_def entries_def)

lemma cache_inv_zero: "cache_inv lim zero_cache"
  by (simp add: cache_inv_def zero_cache_def)

lemma cache_inv_setup: "\<forall>h \<ge> CACHE_COUNT. block_cache c h = [] \<Longrightarrow> cache_inv lim (setup_cache c)"
  by (simp add: cache_inv_def setup_cache_def init_cache_def reset_lru_def)

lemma cache_inv_chain:
  "cache_inv lim c \<Longrightarrow>
   block_cache c (cache_hash_func nr) =
     filter (\<lambda>p. cache_hash_func (local_of c p) = cache_hash_func nr) (lru c)"
  by (simp add: cache_inv_def)

text \<open>Reading through the pointer after the store was written.\<close>

lemma local_of_upd [simp]:
  "local_of (c\<lparr>nodes := (nodes c)(p := Some n)\<rparr>) q = (if q = p then blk_local n else local_of c q)"
  by (simp add: local_of_def)

lemma phys_of_upd [simp]:
  "phys_of (c\<lparr>nodes := (nodes c)(p := Some n)\<rparr>) q = (if q = p then b_blocknr n else phys_of c q)"
  by (simp add: phys_of_def)

lemma local_phys_other [simp]:
  "local_of (c\<lparr>next_ptr := a\<rparr>) q = local_of c q" "local_of (c\<lparr>block_cache := b\<rparr>) q = local_of c q"
  "local_of (c\<lparr>lru_count := n\<rparr>) q = local_of c q" "local_of (c\<lparr>lru := l\<rparr>) q = local_of c q"
  "phys_of (c\<lparr>next_ptr := a\<rparr>) q = phys_of c q" "phys_of (c\<lparr>block_cache := b\<rparr>) q = phys_of c q"
  "phys_of (c\<lparr>lru_count := n\<rparr>) q = phys_of c q" "phys_of (c\<lparr>lru := l\<rparr>) q = phys_of c q"
  by (simp_all add: local_of_def phys_of_def)


section \<open>The cache is a bounded association list\<close>

text \<open>What \<open>take_node\<close> hands to \<open>add_cache\<close>: an address outside the list that is left, and the
  list without its oldest entry when it was full.\<close>

lemma take_node_spec:
  assumes "cache_inv lim c" and "0 < lim" and "take_node lim c = (p, c1)"
  shows "p \<notin> set (lru c1)" and "p < next_ptr c1"
    and "lru c1 = take (lim - 1) (lru c)"
    and "\<forall>q \<in> set (lru c1). q < next_ptr c1 \<and> local_of c1 q = local_of c q \<and> phys_of c1 q = phys_of c q"
    and "lru_count c1 = Suc (length (lru c1))" and "lru_count c1 \<le> lim"
    and "\<forall>h. block_cache c1 h = (if h < CACHE_COUNT
           then filter (\<lambda>q. cache_hash_func (local_of c q) = h) (lru c1) else [])"
proof -
  note inv = assms(1) [unfolded cache_inv_def]
  have "p \<notin> set (lru c1) \<and> p < next_ptr c1 \<and> lru c1 = take (lim - 1) (lru c) \<and>
    (\<forall>q \<in> set (lru c1). q < next_ptr c1 \<and> local_of c1 q = local_of c q \<and> phys_of c1 q = phys_of c q) \<and>
    lru_count c1 = Suc (length (lru c1)) \<and> lru_count c1 \<le> lim \<and>
    (\<forall>h. block_cache c1 h = (if h < CACHE_COUNT
      then filter (\<lambda>q. cache_hash_func (local_of c q) = h) (lru c1) else []))"
  proof (cases "lru_count c < lim")
    case True
    then have "p = next_ptr c" and c1: "c1 = c\<lparr>nodes := (nodes c)(next_ptr c := Some \<lparr>b_blocknr = 0, blk_local = 0\<rparr>),
        next_ptr := Suc (next_ptr c), lru_count := Suc (lru_count c)\<rparr>"
      using assms(3) by (auto simp: take_node_def)
    moreover have "take (lim - 1) (lru c) = lru c" using True inv by simp
    ultimately show ?thesis using inv True by auto
  next
    case False
    then have full: "length (lru c) = lim" and ne: "lru c \<noteq> []" using inv assms(2) by auto
    have p: "p = last (lru c)" and c1: "c1 = c\<lparr>lru := butlast (lru c),
        block_cache := (block_cache c)(cache_hash_func (local_of c p) :=
          removeAll p (block_cache c (cache_hash_func (local_of c p))))\<rparr>"
      using assms(3) False by (auto simp: take_node_def Let_def)
    have bl: "butlast (lru c) = take (lim - 1) (lru c)" using full by (simp add: butlast_conv_take)
    have notin: "p \<notin> set (butlast (lru c))"
      using inv ne p by (metis append_butlast_last_id distinct_append disjoint_iff list.set_intros(1))
    have chain: "block_cache c1 h = filter (\<lambda>q. cache_hash_func (local_of c q) = h) (butlast (lru c))"
      if "h < CACHE_COUNT" for h
      using that inv p unfolding c1
      by (auto simp: filter_butlast_distinct [OF _ ne] removeAll_filter intro!: filter_cong)
    have "block_cache c1 h = []" if "\<not> h < CACHE_COUNT" for h
      using that inv unfolding c1 by (auto split: if_splits)
    then show ?thesis
      using inv notin chain full ne p unfolding c1
      by (auto simp: bl dest: in_set_takeD)
  qed
  then show "p \<notin> set (lru c1)" "p < next_ptr c1" "lru c1 = take (lim - 1) (lru c)"
    "\<forall>q \<in> set (lru c1). q < next_ptr c1 \<and> local_of c1 q = local_of c q \<and> phys_of c1 q = phys_of c q"
    "lru_count c1 = Suc (length (lru c1))" "lru_count c1 \<le> lim"
    "\<forall>h. block_cache c1 h = (if h < CACHE_COUNT
           then filter (\<lambda>q. cache_hash_func (local_of c q) = h) (lru c1) else [])"
    by blast+
qed

lemma cache_inv_add_cache:
  assumes "cache_inv lim c" and "0 < lim"
  shows "cache_inv lim (add_cache lim blknr blklocal c)"
proof -
  obtain p c1 where tn: "take_node lim c = (p, c1)" by (cases "take_node lim c")
  note t = take_node_spec [OF assms tn]
  have d: "distinct (lru c1)" using t(3) assms(1) by (simp add: cache_inv_def)
  have other: "local_of (add_cache lim blknr blklocal c) q = local_of c q" if "q \<in> set (lru c1)" for q
    using that t(1,4) by (auto simp: add_cache_def tn Let_def)
  have new: "local_of (add_cache lim blknr blklocal c) p = blklocal"
    by (simp add: add_cache_def tn Let_def)
  have chain: "block_cache (add_cache lim blknr blklocal c) h =
      (if h < CACHE_COUNT then filter (\<lambda>q. cache_hash_func
         (local_of (add_cache lim blknr blklocal c) q) = h) (p # lru c1) else [])" for h
  proof (cases "h < CACHE_COUNT")
    case True
    have "filter (\<lambda>q. cache_hash_func (local_of (add_cache lim blknr blklocal c) q) = h) (lru c1) =
          filter (\<lambda>q. cache_hash_func (local_of c q) = h) (lru c1)"
      by (rule filter_cong) (simp_all add: other)
    then show ?thesis using True new t(7) by (simp add: add_cache_def tn Let_def)
  next
    case False
    then have "h \<noteq> cache_hash_func blklocal" using cache_hash_func_less by blast
    then show ?thesis using False t(7) by (simp add: add_cache_def tn Let_def)
  qed
  have "lru (add_cache lim blknr blklocal c) = p # lru c1"
    and "lru_count (add_cache lim blknr blklocal c) = lru_count c1"
    and "next_ptr (add_cache lim blknr blklocal c) = next_ptr c1"
    by (simp_all add: add_cache_def tn Let_def)
  then show ?thesis unfolding cache_inv_def using chain d t by simp
qed

lemma entries_add_cache:
  assumes "cache_inv lim c" and "0 < lim"
  shows "entries (add_cache lim blknr blklocal c) = take lim ((blklocal, blknr) # entries c)"
proof -
  obtain p c1 where tn: "take_node lim c = (p, c1)" by (cases "take_node lim c")
  note t = take_node_spec [OF assms tn]
  have "map (entry (add_cache lim blknr blklocal c)) (lru c1) = map (entry c) (lru c1)"
    using t(1,4) by (auto simp: add_cache_def tn Let_def entry_def)
  moreover have "lru (add_cache lim blknr blklocal c) = p # lru c1"
    and "entry (add_cache lim blknr blklocal c) p = (blklocal, blknr)"
    by (simp_all add: add_cache_def tn Let_def entry_def)
  ultimately show ?thesis
    using assms(2) t(3) by (cases lim) (simp_all add: entries_def take_map)
qed

lemma find_cache_node_entries:
  assumes "cache_inv lim c"
  shows "map_option (phys_of c) (find_cache_node nr c) = map_of (entries c) nr"
proof -
  have "find_cache_node nr c = find (\<lambda>p. local_of c p = nr) (lru c)"
    unfolding find_cache_node_def cache_inv_chain [OF assms] find_filter
    by (rule find_cong_set) auto
  then show ?thesis
    using find_map_of [where f = "local_of c" and k = nr and xs = "lru c" and g = "phys_of c"]
    by (simp add: entries_def entry_def [abs_def] option.case_eq_if map_option_case)
qed

lemma block_cache_lookup_entries:
  "cache_inv lim c \<Longrightarrow> block_cache_lookup c nr = (case map_of (entries c) nr of Some b \<Rightarrow> b | None \<Rightarrow> 0)"
  using find_cache_node_entries [of lim c nr]
  by (auto simp: block_cache_lookup_def split: option.splits)

lemma find_cache_node_None:
  "cache_inv lim c \<Longrightarrow> find_cache_node nr c = None \<longleftrightarrow> map_of (entries c) nr = None"
  using find_cache_node_entries [of lim c nr] by (metis map_option_is_None)


section \<open>The interface the translation path relies on\<close>

text \<open>\<open>coherent M xs\<close>: every cached pair is a mapped block of the mapping \<open>M\<close> (0 is "not mapped").\<close>

definition coherent :: "(sector_t \<Rightarrow> sector_t) \<Rightarrow> (sector_t \<times> sector_t) list \<Rightarrow> bool" where
  "coherent M xs \<longleftrightarrow> (\<forall>(l, b) \<in> set xs. b \<noteq> 0 \<and> M l = b)"

lemma coherent_simps [simp]:
  "coherent M []" "coherent M ((l, b) # xs) \<longleftrightarrow> b \<noteq> 0 \<and> M l = b \<and> coherent M xs"
  "coherent M (xs @ ys) \<longleftrightarrow> coherent M xs \<and> coherent M ys"
  by (simp_all add: coherent_def ball_Un)

lemma coherent_take: "coherent M xs \<Longrightarrow> coherent M (take n xs)"
  by (auto simp: coherent_def dest: in_set_takeD)

lemma coherent_mono:
  "coherent M xs \<Longrightarrow> (\<And>l. M l \<noteq> 0 \<Longrightarrow> M' l = M l) \<Longrightarrow> coherent M' xs"
  by (fastforce simp: coherent_def)

locale translation_cache =
  fixes add :: "sector_t \<Rightarrow> sector_t \<Rightarrow> 'c \<Rightarrow> 'c"
    and lookup :: "'c \<Rightarrow> sector_t \<Rightarrow> sector_t"
    and content :: "'c \<Rightarrow> (sector_t \<times> sector_t) list"
    and inv :: "'c \<Rightarrow> bool"
    and bound :: nat
  assumes lookup_content: "inv c \<Longrightarrow> lookup c l = (case map_of (content c) l of Some b \<Rightarrow> b | None \<Rightarrow> 0)"
    and content_add: "inv c \<Longrightarrow> content (add b l c) = take bound ((l, b) # content c)"
    and inv_add: "inv c \<Longrightarrow> inv (add b l c)"
    and bound_pos: "0 < bound"
begin

lemma lookup_add_same: "inv c \<Longrightarrow> lookup (add b l c) l = b"
  using bound_pos by (cases bound) (simp_all add: lookup_content inv_add content_add)

lemma lookup_coherent: "inv c \<Longrightarrow> coherent M (content c) \<Longrightarrow> lookup c l \<noteq> 0 \<Longrightarrow> lookup c l = M l"
  by (auto simp: lookup_content coherent_def split: option.splits dest!: map_of_SomeD)

lemma lookup_miss:
  "inv c \<Longrightarrow> coherent M (content c) \<Longrightarrow> lookup c l = 0 \<longleftrightarrow> map_of (content c) l = None"
  by (auto simp: lookup_content coherent_def split: option.splits dest!: map_of_SomeD)

lemma coherent_add: "inv c \<Longrightarrow> coherent M (content c) \<Longrightarrow> b \<noteq> 0 \<Longrightarrow> M l = b \<Longrightarrow> coherent M (content (add b l c))"
  by (simp add: content_add coherent_take)

lemma content_bound: "inv c \<Longrightarrow> length (content (add b l c)) \<le> bound"
  by (simp add: content_add)

end

interpretation bc: translation_cache "add_cache LRU_LENGTH" block_cache_lookup entries
  "cache_inv LRU_LENGTH" LRU_LENGTH
  by unfold_locales
    (simp_all add: block_cache_lookup_entries entries_add_cache cache_inv_add_cache LRU_LENGTH_def)

section \<open>Properties\<close>

lemma add_history:
  assumes "cache_inv LRU_LENGTH c"
  shows "cache_inv LRU_LENGTH (fold (\<lambda>(l, b). add_cache LRU_LENGTH b l) xs c) \<and>
    entries (fold (\<lambda>(l, b). add_cache LRU_LENGTH b l) xs c) = take LRU_LENGTH (rev xs @ entries c)"
  using assms
proof (induction xs arbitrary: c)
  case Nil
  then show ?case by (simp add: cache_inv_def entries_def)
next
  case (Cons x xs)
  obtain l b where x: "x = (l, b)" by (cases x)
  have "take LRU_LENGTH (rev xs @ take LRU_LENGTH ((l, b) # entries c)) = take LRU_LENGTH (rev xs @ (l, b) # entries c)"
    by (simp add: min_def)
  then show ?case using Cons.IH [OF bc.inv_add [OF Cons.prems, of b l]] bc.content_add [OF Cons.prems, of b l]
    by (simp add: x)
qed

text \<open>C5. The cache is a bounded association list in insertion order.  After any sequence of insertions into
  the cache of a device that \<^verbatim>\<open>loop_set_fd\<close> has just prepared, a lookup gives the newest of the last
  \<^verbatim>\<open>LRU_LENGTH\<close> inserted entries for the block, and 0 if there is none: hash chains, recycled nodes and the list
  never disagree.  Lookups do not refresh an entry: the list is first in, first out.\<close>

theorem block_cache_history:
  assumes "\<forall>h \<ge> CACHE_COUNT. block_cache c h = []"
  shows "block_cache_lookup (fold (\<lambda>(l, b). add_cache LRU_LENGTH b l) xs (setup_cache c)) nr =
    (case map_of (take LRU_LENGTH (rev xs)) nr of Some b \<Rightarrow> b | None \<Rightarrow> 0)"
proof -
  have "entries (setup_cache c) = []" by (simp add: entries_def setup_cache_def reset_lru_def init_cache_def)
  then show ?thesis
    using add_history [OF cache_inv_setup [OF assms], of xs] bc.lookup_content by fastforce
qed

theorem block_cache_history_witness:
  "block_cache_lookup (fold (\<lambda>(l, b). add_cache LRU_LENGTH b l) [(5, 100), (40005, 200), (5, 300)] (setup_cache zero_cache)) 5 = 300"
  using block_cache_history [of zero_cache "[(5, 100), (40005, 200), (5, 300)]" 5]
  by (simp add: zero_cache_def LRU_LENGTH_def)

text \<open>C6. The cache never holds more than \<^verbatim>\<open>LRU_LENGTH\<close> nodes, each node is on the list once and in exactly the
  chain of its block, and the counter is exact: the invariant holds for a prepared device and every insertion
  keeps it.\<close>

theorem cache_inv_reachable:
  assumes "\<forall>h \<ge> CACHE_COUNT. block_cache c h = []"
  shows "cache_inv LRU_LENGTH (fold (\<lambda>(l, b). add_cache LRU_LENGTH b l) xs (setup_cache c))"
  using add_history [OF cache_inv_setup [OF assms]] by blast

theorem cache_inv_reachable_witness:
  "cache_inv LRU_LENGTH (fold (\<lambda>(l, b). add_cache LRU_LENGTH b l) [(5, 100), (40005, 200)] (setup_cache zero_cache))"
  by (rule cache_inv_reachable) (simp add: zero_cache_def)

end
