(* ===== verification/Loop_Bio.thy ===== *)
theory Loop_Bio
  imports MultiLanes_Prelude
begin

text \<open>
  Block requests: the bio and its segments, \<^verbatim>\<open>bio_add_page\<close> of \<^verbatim>\<open>fs/bio.c\<close> (the code that decides
  whether a segment still fits), and the accounting by which \<^verbatim>\<open>drivers/block/loop.c\<close> joins the
  completions of the requests it split one request into (\<^verbatim>\<open>struct lo_bio_head\<close>, \<^verbatim>\<open>lo_send_bio\<close>,
  \<^verbatim>\<open>lo_end_bio\<close>).  A request is read as the list of sectors it transfers; \<open>bio_add_page\<close> appends
  to that list, and the original request ends once, with the first error, when the last part ends.
\<close>

section \<open>Requests\<close>

record bio_vec =
  bv_page :: nat
  bv_offset :: nat
  bv_len :: nat

record bio =
  bi_bdev :: "nat option"
  bi_sector :: sector_t
  bi_rw :: u64
  bi_io_vec :: "bio_vec list"
  bi_idx :: nat
  bi_max_vecs :: nat
  bi_phys_segments :: nat
  bi_cloned :: bool

definition REQ_WRITE :: u64 where "REQ_WRITE = 1"
definition REQ_DISCARD :: u64 where "REQ_DISCARD = 128"
definition REQ_FUA :: u64 where "REQ_FUA = 2048"
definition REQ_FLUSH :: u64 where "REQ_FLUSH = 4096"

abbreviation flagged :: "u64 \<Rightarrow> u64 \<Rightarrow> bool" where
  "flagged w f \<equiv> w AND f \<noteq> 0"

definition bi_size :: "bio \<Rightarrow> nat" where
  "bi_size b = sum_list (map bv_len (bi_io_vec b))"

text \<open>What the queue of the target device allows; the two functions belong to the block layer and
  to the device driver.\<close>

record queue =
  max_sectors :: nat
  max_segments :: nat
  merge_bvec_fn :: "(sector_t \<Rightarrow> nat \<Rightarrow> u64 \<Rightarrow> bio_vec \<Rightarrow> nat) option"
  recount_segments :: "bio_vec list \<Rightarrow> nat"

definition merge_ok :: "queue \<Rightarrow> sector_t \<Rightarrow> nat \<Rightarrow> u64 \<Rightarrow> bio_vec \<Rightarrow> bool" where
  "merge_ok q sec sz rw v = (case merge_bvec_fn q of None \<Rightarrow> True | Some f \<Rightarrow> bv_len v \<le> f sec sz rw v)"

text \<open>\<open>bio_add_page q b page len off\<close>: the number of bytes added (\<open>len\<close> or 0) and the new bio.\<close>

definition add_fresh :: "queue \<Rightarrow> bio \<Rightarrow> nat \<Rightarrow> nat \<Rightarrow> nat \<Rightarrow> nat \<times> bio" where
  "add_fresh q b page len off =
     (if bi_max_vecs b \<le> length (bi_io_vec b) then (0, b)
      else let segs = (if max_segments q \<le> bi_phys_segments b then recount_segments q (bi_io_vec b)
                       else bi_phys_segments b);
               b1 = b\<lparr>bi_phys_segments := segs\<rparr>;
               v = \<lparr>bv_page = page, bv_offset = off, bv_len = len\<rparr>
           in if max_segments q \<le> segs then (0, b1)
              else if \<not> merge_ok q (bi_sector b) (bi_size b) (bi_rw b) v then (0, b1)
              else (len, b1\<lparr>bi_io_vec := bi_io_vec b @ [v], bi_phys_segments := Suc segs\<rparr>))"

definition bio_add_page :: "queue \<Rightarrow> bio \<Rightarrow> nat \<Rightarrow> nat \<Rightarrow> nat \<Rightarrow> nat \<times> bio" where
  "bio_add_page q b page len off =
     (if bi_cloned b then (0, b)
      else if max_sectors q < (bi_size b + len) div 512 then (0, b)
      else if bi_io_vec b \<noteq> [] \<and> page = bv_page (last (bi_io_vec b)) \<and>
              off = bv_offset (last (bi_io_vec b)) + bv_len (last (bi_io_vec b))
      then let prev = last (bi_io_vec b);
               v = prev\<lparr>bv_len := bv_len prev + len\<rparr>
           in if merge_ok q (bi_sector b) (bi_size b - bv_len prev) (bi_rw b) v
              then (len, b\<lparr>bi_io_vec := butlast (bi_io_vec b) @ [v]\<rparr>)
              else (0, b)
      else add_fresh q b page len off)"

section \<open>The sectors of a request\<close>

definition bvec_sectors :: "bio_vec \<Rightarrow> (nat \<times> nat) list" where
  "bvec_sectors v = map (\<lambda>k. (bv_page v, bv_offset v + 512 * k)) [0..<bv_len v div 512]"

definition mem_sectors :: "bio_vec list \<Rightarrow> (nat \<times> nat) list" where
  "mem_sectors vs = concat (map bvec_sectors vs)"

text \<open>The transfer a request describes: device sector against memory sector, in order.\<close>

definition io_map :: "bio \<Rightarrow> (sector_t \<times> (nat \<times> nat)) list" where
  "io_map b = (let m = mem_sectors (bi_io_vec b) in zip [bi_sector b..<bi_sector b + length m] m)"

definition whole_sectors :: "bio_vec list \<Rightarrow> bool" where
  "whole_sectors vs \<longleftrightarrow> (\<forall>v \<in> set vs. 512 dvd bv_len v)"

lemma mem_sectors_simps [bio_simps]:
  "mem_sectors [] = []" "mem_sectors (v # vs) = bvec_sectors v @ mem_sectors vs"
  "mem_sectors (vs @ ws) = mem_sectors vs @ mem_sectors ws"
  by (simp_all add: mem_sectors_def)

lemma length_bvec_sectors [simp]: "length (bvec_sectors v) = bv_len v div 512"
  by (simp add: bvec_sectors_def)

lemma whole_sectors_simps [simp]:
  "whole_sectors []" "whole_sectors (v # vs) \<longleftrightarrow> 512 dvd bv_len v \<and> whole_sectors vs"
  "whole_sectors (vs @ ws) \<longleftrightarrow> whole_sectors vs \<and> whole_sectors ws"
  by (auto simp: whole_sectors_def)

lemma bvec_sectors_merge:
  assumes "512 dvd bv_len v"
  shows "bvec_sectors (v\<lparr>bv_len := bv_len v + len\<rparr>) =
         bvec_sectors v @ bvec_sectors \<lparr>bv_page = bv_page v, bv_offset = bv_offset v + bv_len v, bv_len = len\<rparr>"
proof -
  obtain m where m: "bv_len v = 512 * m" using assms by (auto elim: dvdE)
  have d: "(512 * m + len) div 512 = m + len div 512" by simp
  have "[0..<m + len div 512] = [0..<m] @ map (\<lambda>k. m + k) [0..<len div 512]"
    using upt_add_eq_append [of 0 m "len div 512"] by (simp add: map_add_upt add.commute)
  then show ?thesis by (simp add: bvec_sectors_def m d algebra_simps)
qed

lemma whole_sectors_butlast: "whole_sectors vs \<Longrightarrow> whole_sectors (butlast vs)"
  by (auto simp: whole_sectors_def dest: in_set_butlastD)

lemma mem_sectors_last:
  assumes "vs \<noteq> []"
  shows "mem_sectors vs = mem_sectors (butlast vs) @ bvec_sectors (last vs)"
proof -
  have "vs = butlast vs @ [last vs]" using assms by simp
  then have "mem_sectors vs = mem_sectors (butlast vs @ [last vs])" by (rule arg_cong)
  then show ?thesis by (simp add: bio_simps)
qed

text \<open>An accepted segment is appended to the sectors of the request; the rest of the request is
  untouched.\<close>

lemma bio_add_page_len: "bio_add_page q b page len off = (n, b') \<Longrightarrow> n = len \<or> n = 0"
  by (auto simp: bio_add_page_def add_fresh_def Let_def split: if_splits)

lemma bio_add_page_fields:
  "bio_add_page q b page len off = (n, b') \<Longrightarrow>
     bi_sector b' = bi_sector b \<and> bi_rw b' = bi_rw b \<and> bi_bdev b' = bi_bdev b \<and>
     bi_cloned b' = bi_cloned b \<and> bi_max_vecs b' = bi_max_vecs b"
  by (auto simp: bio_add_page_def add_fresh_def Let_def split: if_splits)

lemma bio_add_page_refused:
  "bio_add_page q b page len off = (0, b') \<Longrightarrow> 0 < len \<Longrightarrow> bi_io_vec b' = bi_io_vec b"
  by (auto simp: bio_add_page_def add_fresh_def Let_def split: if_splits)

lemma bio_add_page_sectors:
  assumes "bio_add_page q b page len off = (len, b')" and "0 < len" and "512 dvd len"
    and "whole_sectors (bi_io_vec b)"
  shows "mem_sectors (bi_io_vec b') =
           mem_sectors (bi_io_vec b) @ bvec_sectors \<lparr>bv_page = page, bv_offset = off, bv_len = len\<rparr>"
    and "whole_sectors (bi_io_vec b')"
proof -
  let ?l = "last (bi_io_vec b)"
  have *: "bi_io_vec b' = bi_io_vec b @ [\<lparr>bv_page = page, bv_offset = off, bv_len = len\<rparr>] \<or>
        (bi_io_vec b \<noteq> [] \<and> page = bv_page ?l \<and> off = bv_offset ?l + bv_len ?l \<and>
         bi_io_vec b' = butlast (bi_io_vec b) @ [?l\<lparr>bv_len := bv_len ?l + len\<rparr>])"
    using assms(1,2) by (auto simp: bio_add_page_def add_fresh_def Let_def split: if_splits)
  have l: "bi_io_vec b \<noteq> [] \<Longrightarrow> 512 dvd bv_len ?l"
    using assms(4) by (simp add: whole_sectors_def)
  show "mem_sectors (bi_io_vec b') =
           mem_sectors (bi_io_vec b) @ bvec_sectors \<lparr>bv_page = page, bv_offset = off, bv_len = len\<rparr>"
    using * l by (auto simp: bio_simps mem_sectors_last bvec_sectors_merge)
  show "whole_sectors (bi_io_vec b')"
    using * l assms(3,4) by (auto simp: whole_sectors_butlast)
qed


section \<open>Joining the completions of a split request\<close>

record lo_bio_head =
  orig_bio :: bio
  nr_total :: nat
  nr_done :: nat
  head_error :: errcode
  head_list :: "bio list"

definition init_head :: "bio \<Rightarrow> lo_bio_head" where
  "init_head b = \<lparr>orig_bio = b, nr_total = 0, nr_done = 0, head_error = 0, head_list = []\<rparr>"

definition lo_send_bio :: "lo_bio_head \<Rightarrow> bio \<Rightarrow> lo_bio_head" where
  "lo_send_bio h b = h\<lparr>head_list := head_list h @ [b], nr_total := Suc (nr_total h)\<rparr>"

definition lo_free_bio :: "lo_bio_head \<Rightarrow> lo_bio_head" where
  "lo_free_bio h = (if nr_done h \<noteq> nr_total h then h else h\<lparr>head_list := []\<rparr>)"

text \<open>The completion handler of one part: the new head, and the error the original request ends
  with when this was the last part.  \<open>uptodate\<close> is the flag \<^verbatim>\<open>BIO_UPTODATE\<close> of the part.\<close>

definition part_error :: "bool \<Rightarrow> errcode \<Rightarrow> errcode" where
  "part_error uptodate error = (if error \<noteq> 0 then error else if \<not> uptodate then - EIO else 0)"

definition lo_end_bio :: "bool \<Rightarrow> errcode \<Rightarrow> lo_bio_head \<Rightarrow> lo_bio_head \<times> errcode option" where
  "lo_end_bio uptodate error h =
     (let e = part_error uptodate error;
          h1 = h\<lparr>nr_done := Suc (nr_done h), head_error := (if head_error h = 0 then e else head_error h)\<rparr>
      in if nr_total h1 = nr_done h1 then (lo_free_bio h1, Some (head_error h1)) else (h1, None))"

text \<open>The parts of one request end one after the other, in any order and with any outcome; the
  handler runs under \<^verbatim>\<open>head_lock\<close>.\<close>

fun run_ends :: "(bool \<times> errcode) list \<Rightarrow> lo_bio_head \<Rightarrow> lo_bio_head \<times> errcode option list" where
  "run_ends [] h = (h, [])"
| "run_ends ((u, e) # cs) h =
     (let (h1, r) = lo_end_bio u e h; (h2, rs) = run_ends cs h1 in (h2, r # rs))"

fun first_error :: "(bool \<times> errcode) list \<Rightarrow> errcode" where
  "first_error [] = 0"
| "first_error ((u, e) # cs) = (if part_error u e \<noteq> 0 then part_error u e else first_error cs)"

lemma lo_send_bio_simps [simp]:
  "nr_total (lo_send_bio h b) = Suc (nr_total h)" "nr_done (lo_send_bio h b) = nr_done h"
  "head_error (lo_send_bio h b) = head_error h" "head_list (lo_send_bio h b) = head_list h @ [b]"
  "orig_bio (lo_send_bio h b) = orig_bio h"
  by (simp_all add: lo_send_bio_def)

text \<open>A head under construction counts exactly the parts on its list.\<close>

definition head_ok :: "lo_bio_head \<Rightarrow> bool" where
  "head_ok h \<longleftrightarrow> nr_total h = length (head_list h) \<and> nr_done h = 0 \<and> head_error h = 0"

lemma head_ok_init: "head_ok (init_head b)"
  by (simp add: head_ok_def init_head_def)

lemma head_ok_send: "head_ok h \<Longrightarrow> head_ok (lo_send_bio h b)"
  by (simp add: head_ok_def)

lemma run_ends_result:
  "nr_total h = nr_done h + length cs \<Longrightarrow> cs \<noteq> [] \<Longrightarrow>
   snd (run_ends cs h) = replicate (length cs - 1) None @
     [Some (if head_error h = 0 then first_error cs else head_error h)] \<and>
   head_list (fst (run_ends cs h)) = []"
proof (induction cs arbitrary: h)
  case Nil
  then show ?case by simp
next
  case (Cons c cs)
  obtain u e where c: "c = (u, e)" by (cases c)
  let ?h = "h\<lparr>nr_done := Suc (nr_done h), head_error := (if head_error h = 0 then part_error u e else head_error h)\<rparr>"
  have step: "lo_end_bio u e h = (if cs = [] then (?h\<lparr>head_list := []\<rparr>, Some (head_error ?h)) else (?h, None))"
    using Cons.prems by (auto simp: lo_end_bio_def lo_free_bio_def Let_def)
  show ?case
  proof (cases "cs = []")
    case True
    with step show ?thesis by (simp add: c)
  next
    case False
    have "nr_total ?h = nr_done ?h + length cs" using Cons.prems by simp
    note IH = Cons.IH [OF this False]
    have "length cs = Suc (length cs - 1)" using False by simp
    then have "replicate (length cs) (None :: errcode option) = None # replicate (length cs - 1) None"
      by (metis replicate_Suc)
    with IH step False show ?thesis
      by (auto simp: c Let_def split: prod.splits)
  qed
qed

text \<open>C8. A split request ends once.  Whatever parts a request was split into, and in whatever order and with
  whatever outcomes they end, the original request is ended exactly when the last part ends, with the error of
  the first part that failed, or with 0 if none did.\<close>

theorem split_request_ends_once:
  assumes "bs \<noteq> []" and "length cs = length bs"
  shows "snd (run_ends cs (foldl lo_send_bio (init_head old) bs)) = replicate (length bs - 1) None @ [Some (first_error cs)]"
proof -
  have tot: "nr_total (foldl lo_send_bio h bs) = nr_total h + length bs \<and> nr_done (foldl lo_send_bio h bs) = nr_done h \<and>
      head_error (foldl lo_send_bio h bs) = head_error h" for h
    by (induction bs arbitrary: h) simp_all
  have "cs \<noteq> []" using assms by auto
  then show ?thesis
    using run_ends_result [of "foldl lo_send_bio (init_head old) bs" cs] tot [of "init_head old"] assms
    by (auto simp: init_head_def)
qed

definition one_page :: bio where
  "one_page = \<lparr>bi_bdev = Some 7, bi_sector = 0, bi_rw = 0, bi_io_vec = [\<lparr>bv_page = 1, bv_offset = 0, bv_len = 4096\<rparr>],
     bi_idx = 0, bi_max_vecs = 1, bi_phys_segments = 1, bi_cloned = False\<rparr>"

theorem split_request_ends_once_witness:
  "snd (run_ends [(True, 0), (False, 0), (True, - ENOMEM)] (foldl lo_send_bio (init_head one_page) [one_page, one_page, one_page])) =
   [None, None, Some (- EIO)]"
  using split_request_ends_once [of "[one_page, one_page, one_page]" "[(True, 0), (False, 0), (True, - ENOMEM)]" one_page]
  by (simp add: part_error_def numeral_2_eq_2)

end
