(* ===== verification/Loop_Translate.thy ===== *)
theory Loop_Translate
  imports Block_Cache Loop_Bio
begin

text \<open>
  The translation of a block of the virtualized device to a block of the host disk: the requests
  that \<^verbatim>\<open>cio_make_request\<close> queues and the worker \<^verbatim>\<open>loop_thread\<close> that serves them
  (\<^verbatim>\<open>drivers/block/loop.c\<close>).  The worker asks the host file system for the mapping of up to
  \<^verbatim>\<open>prefetch_blocks\<close> blocks and fills the block cache.

  The host file system's \<^verbatim>\<open>get_block\<close> and \<^verbatim>\<open>vfs_fsync\<close> are arguments of the definitions.  What
  the worker relies on is the locale \<open>block_mapper\<close>; the theory \<open>Ext3_Map\<close> provides it.

  Lengths are natural numbers: the source computes the bytes to ask for, \<^verbatim>\<open>(prefetch_blocks-i) << i_blkbits\<close>, as an
  \<^verbatim>\<open>int\<close>, so the definitions are those of the source while this product is below \<open>2 ^ 31\<close>, which it is for the
  default of 512 blocks and for up to \<open>2 ^ 19\<close> blocks of 4096 bytes.
\<close>

section \<open>State\<close>

text \<open>\<open>allocated\<close> lists what the requester can read at each \<^verbatim>\<open>complete(&cio->allocated)\<close>: the error
  and the block.  The requester waits for the first one.\<close>

record cio_req =
  cio_create :: u32
  cio_blk_local :: sector_t
  cio_blk_phy :: sector_t
  cio_blk_num :: int
  cio_error :: errcode
  allocated :: "(errcode \<times> sector_t) list"

record 's lo_trans =
  lo_cache :: cache
  lo_dirty :: bool
  lo_cio_list :: "cio_req list"
  lo_fs :: 's

text \<open>\<open>get_block s iblock size create\<close> returns the error, the block number of the buffer head (0 as
  \<^verbatim>\<open>loop_thread\<close> initialised it when nothing is mapped), its size in bytes and the new state.\<close>

type_synonym 's get_block_fn = "'s \<Rightarrow> sector_t \<Rightarrow> nat \<Rightarrow> bool \<Rightarrow> errcode \<times> sector_t \<times> nat \<times> 's"
type_synonym 's fsync_fn = "'s \<Rightarrow> errcode \<times> 's"

section \<open>Requests\<close>

definition cio_make_request :: "int \<Rightarrow> sector_t \<Rightarrow> u64 \<Rightarrow> 's lo_trans \<Rightarrow> 's lo_trans" where
  "cio_make_request prefetch blk flag d =
     d\<lparr>lo_cio_list := lo_cio_list d @
        [\<lparr>cio_create = ucast flag, cio_blk_local = blk, cio_blk_phy = 0, cio_blk_num = prefetch,
          cio_error = 0, allocated = []\<rparr>]\<rparr>"

definition cio_make_request_flush :: "u64 \<Rightarrow> 's lo_trans \<Rightarrow> 's lo_trans" where
  "cio_make_request_flush flag d =
     d\<lparr>lo_cio_list := lo_cio_list d @
        [\<lparr>cio_create = ucast flag, cio_blk_local = 0, cio_blk_phy = 0, cio_blk_num = - 1,
          cio_error = 0, allocated = []\<rparr>]\<rparr>"

definition complete :: "cio_req \<Rightarrow> cio_req" where
  "complete cio = cio\<lparr>allocated := allocated cio @ [(cio_error cio, cio_blk_phy cio)]\<rparr>"

section \<open>The worker\<close>

text \<open>The inner loop over the \<^verbatim>\<open>got_num\<close> blocks of one mapped extent.\<close>

primrec add_blocks :: "nat \<Rightarrow> sector_t \<Rightarrow> sector_t \<Rightarrow> cache \<Rightarrow> cache" where
  "add_blocks 0 nr blk c = c"
| "add_blocks (Suc n) nr blk c = add_blocks n (Suc nr) (Suc blk) (add_cache LRU_LENGTH nr blk c)"

text \<open>The outer loop \<^verbatim>\<open>while (i < prefetch_blocks)\<close> for a block that is not cached.  It need not end
  when the file system maps nothing and reports no error, hence the option.\<close>

partial_function (option) prefetch_loop ::
  "'s get_block_fn \<Rightarrow> nat \<Rightarrow> nat \<Rightarrow> bool \<Rightarrow> nat \<Rightarrow> sector_t \<Rightarrow> cio_req \<Rightarrow> 's lo_trans \<Rightarrow>
   (cio_req \<times> 's lo_trans) option" where
  "prefetch_loop gb blkbits pf create i blk cio d =
     (if i < pf then
        (case gb (lo_fs d) blk ((pf - i) * 2 ^ blkbits) create of (ret, nr, sz, s) \<Rightarrow>
           if ret \<noteq> 0 then Some (complete (cio\<lparr>cio_error := ret\<rparr>), d\<lparr>lo_fs := s\<rparr>)
           else if nr \<noteq> 0 then
             prefetch_loop gb blkbits pf create (i + sz div 2 ^ blkbits) (blk + sz div 2 ^ blkbits)
               (if i = 0 \<and> 0 < sz div 2 ^ blkbits
                then complete (cio\<lparr>cio_error := 0, cio_blk_phy := nr\<rparr>) else cio)
               (d\<lparr>lo_fs := s, lo_dirty := lo_dirty d \<or> create,
                  lo_cache := add_blocks (sz div 2 ^ blkbits) nr blk (lo_cache d)\<rparr>)
           else if 0 < sz div 2 ^ blkbits then
             prefetch_loop gb blkbits pf create (Suc i) (Suc blk)
               (if i = 0 then complete (cio\<lparr>cio_error := 0, cio_blk_phy := 0\<rparr>) else cio)
               (d\<lparr>lo_fs := s, lo_dirty := lo_dirty d \<or> create\<rparr>)
           else prefetch_loop gb blkbits pf create i blk cio
               (d\<lparr>lo_fs := s, lo_dirty := lo_dirty d \<or> create\<rparr>))
      else Some (cio, d))"

text \<open>One request, as the body of the worker's loop treats it: a flush, a cached block, or the
  prefetch loop.  \<open>cur\<close> is looked up once, before the loop.\<close>

definition serve_cio ::
  "'s get_block_fn \<Rightarrow> 's fsync_fn \<Rightarrow> nat \<Rightarrow> nat \<Rightarrow> cio_req \<Rightarrow> 's lo_trans \<Rightarrow> (cio_req \<times> 's lo_trans) option" where
  "serve_cio gb fsync blkbits pf cio d =
     (if cio_blk_num cio = - 1 then
        (let (ret, s) = fsync (lo_fs d)
         in Some (complete (cio\<lparr>cio_error := ret\<rparr>),
                  d\<lparr>lo_fs := s, lo_dirty := (if ret = 0 then False else lo_dirty d)\<rparr>))
      else
        (let create = (cio_create cio AND 1 \<noteq> 0) in
         case find_cache_node (cio_blk_local cio) (lo_cache d) of
           None \<Rightarrow> prefetch_loop gb blkbits pf create 0 (cio_blk_local cio) cio d
         | Some cur \<Rightarrow>
             (if 0 < pf then Some (complete (cio\<lparr>cio_error := 0, cio_blk_phy := phys_of (lo_cache d) cur\<rparr>), d)
              else Some (cio, d))))"

text \<open>The worker takes requests from the front of the queue; \<open>loop_thread n\<close> serves the first \<open>n\<close>.\<close>

primrec loop_thread ::
  "'s get_block_fn \<Rightarrow> 's fsync_fn \<Rightarrow> nat \<Rightarrow> nat \<Rightarrow> nat \<Rightarrow> 's lo_trans \<Rightarrow> (cio_req list \<times> 's lo_trans) option" where
  "loop_thread gb fsync blkbits pf 0 d = Some ([], d)"
| "loop_thread gb fsync blkbits pf (Suc n) d =
     (case lo_cio_list d of
        [] \<Rightarrow> Some ([], d)
      | cio # rest \<Rightarrow>
          (case serve_cio gb fsync blkbits pf cio (d\<lparr>lo_cio_list := rest\<rparr>) of
             None \<Rightarrow> None
           | Some (cio', d') \<Rightarrow>
               (case loop_thread gb fsync blkbits pf n d' of
                  None \<Rightarrow> None
                | Some (cs, d'') \<Rightarrow> Some (cio' # cs, d''))))"

text \<open>The requester's side: queue a request, wait for its first completion, read its result.  The
  value is \<open>None\<close> when the wait never returns.\<close>

definition wait_result :: "(cio_req list \<times> 's lo_trans) option \<Rightarrow> (errcode \<times> sector_t \<times> 's lo_trans) option" where
  "wait_result r =
     (case r of
        None \<Rightarrow> None
      | Some (cs, d) \<Rightarrow>
          (if cs = [] then None
           else case allocated (last cs) of [] \<Rightarrow> None | (e, b) # _ \<Rightarrow> Some (e, b, d)))"

definition translate_block ::
  "'s get_block_fn \<Rightarrow> 's fsync_fn \<Rightarrow> nat \<Rightarrow> nat \<Rightarrow> u64 \<Rightarrow> sector_t \<Rightarrow> 's lo_trans \<Rightarrow>
   (errcode \<times> sector_t \<times> 's lo_trans) option" where
  "translate_block gb fsync blkbits pf rw blk d =
     (let d1 = cio_make_request (int pf) blk rw d
      in wait_result (loop_thread gb fsync blkbits pf (length (lo_cio_list d1)) d1))"

definition flush_blocks ::
  "'s get_block_fn \<Rightarrow> 's fsync_fn \<Rightarrow> nat \<Rightarrow> nat \<Rightarrow> u64 \<Rightarrow> 's lo_trans \<Rightarrow> (errcode \<times> 's lo_trans) option" where
  "flush_blocks gb fsync blkbits pf rw d =
     (let d1 = cio_make_request_flush rw d
      in map_option (\<lambda>(e, b, d2). (e, d2))
           (wait_result (loop_thread gb fsync blkbits pf (length (lo_cio_list d1)) d1)))"


section \<open>What the worker relies on\<close>

text \<open>
  \<open>bmap s\<close> is the block map of the backing file in state \<open>s\<close>, 0 where a block is not mapped.
  A successful call either maps an extent of at least one and at most the requested number of
  blocks, or reports a hole, which a call with \<open>create\<close> never does.  No call unmaps or moves a block.
\<close>

locale block_mapper =
  fixes gb :: "'s get_block_fn"
    and bmap :: "'s \<Rightarrow> sector_t \<Rightarrow> sector_t"
    and blkbits :: nat
    and fs_inv :: "'s \<Rightarrow> bool"
  assumes gb_inv: "fs_inv s \<Longrightarrow> 0 < n \<Longrightarrow> gb s blk (n * 2 ^ blkbits) cr = (ret, nr, sz, s') \<Longrightarrow> fs_inv s'"
    and gb_stable: "fs_inv s \<Longrightarrow> 0 < n \<Longrightarrow> gb s blk (n * 2 ^ blkbits) cr = (ret, nr, sz, s') \<Longrightarrow>
      bmap s b \<noteq> 0 \<Longrightarrow> bmap s' b = bmap s b"
    and gb_lookup: "fs_inv s \<Longrightarrow> 0 < n \<Longrightarrow> gb s blk (n * 2 ^ blkbits) False = (ret, nr, sz, s') \<Longrightarrow>
      bmap s' = bmap s"
    and gb_extent: "fs_inv s \<Longrightarrow> 0 < n \<Longrightarrow> gb s blk (n * 2 ^ blkbits) cr = (0, nr, sz, s') \<Longrightarrow> nr \<noteq> 0 \<Longrightarrow>
      0 < sz div 2 ^ blkbits \<and> sz div 2 ^ blkbits \<le> n \<and> (\<forall>j < sz div 2 ^ blkbits. bmap s' (blk + j) = nr + j)"
    and gb_hole: "fs_inv s \<Longrightarrow> 0 < n \<Longrightarrow> gb s blk (n * 2 ^ blkbits) cr = (0, 0, sz, s') \<Longrightarrow>
      \<not> cr \<and> 0 < sz div 2 ^ blkbits \<and> bmap s' blk = 0"

definition map_grows :: "(sector_t \<Rightarrow> sector_t) \<Rightarrow> (sector_t \<Rightarrow> sector_t) \<Rightarrow> bool" where
  "map_grows M M' \<longleftrightarrow> (\<forall>b. M b \<noteq> 0 \<longrightarrow> M' b = M b)"

definition trans_inv :: "('s \<Rightarrow> sector_t \<Rightarrow> sector_t) \<Rightarrow> ('s \<Rightarrow> bool) \<Rightarrow> 's lo_trans \<Rightarrow> bool" where
  "trans_inv bmap fs_inv d \<longleftrightarrow>
     fs_inv (lo_fs d) \<and> cache_inv LRU_LENGTH (lo_cache d) \<and> coherent (bmap (lo_fs d)) (entries (lo_cache d))"

lemma map_grows_refl [simp]: "map_grows M M"
  by (simp add: map_grows_def)

lemma map_grows_trans: "map_grows A B \<Longrightarrow> map_grows B C \<Longrightarrow> map_grows A C"
  by (fastforce simp: map_grows_def)

lemma add_blocks_inv:
  "cache_inv LRU_LENGTH c \<Longrightarrow> coherent M (entries c) \<Longrightarrow> nr \<noteq> 0 \<Longrightarrow> (\<forall>j < n. M (blk + j) = nr + j) \<Longrightarrow>
   cache_inv LRU_LENGTH (add_blocks n nr blk c) \<and> coherent M (entries (add_blocks n nr blk c))"
proof (induction n arbitrary: nr blk c)
  case 0
  then show ?case by simp
next
  case (Suc n)
  have "M blk = nr" using Suc.prems(4) by force
  then have "coherent M (entries (add_cache LRU_LENGTH nr blk c))"
    using Suc.prems bc.coherent_add by blast
  moreover have "\<forall>j < n. M (Suc blk + j) = Suc nr + j"
    using Suc.prems(4) by (metis Suc_less_eq add_Suc add_Suc_right)
  ultimately show ?case
    using Suc.IH [of "add_cache LRU_LENGTH nr blk c" "Suc nr" "Suc blk"] Suc.prems(1) bc.inv_add by simp
qed

text \<open>Serving a translation request: the first completion carries the file system's error, or the
  block's mapping, which is a mapped block if the request may create it.\<close>

definition gb_error :: "'s get_block_fn \<Rightarrow> sector_t \<Rightarrow> bool \<Rightarrow> errcode \<Rightarrow> bool" where
  "gb_error gb blk cr e \<longleftrightarrow> (\<exists>s sz. fst (gb s blk sz cr) = e)"

definition answered ::
  "'s get_block_fn \<Rightarrow> ('s \<Rightarrow> sector_t \<Rightarrow> sector_t) \<Rightarrow> cio_req \<Rightarrow> 's lo_trans \<Rightarrow> cio_req \<Rightarrow> bool" where
  "answered gb bmap cio d' cio' \<longleftrightarrow>
     (\<exists>e b ys. allocated cio' = (e, b) # ys \<and> length ys \<le> 1 \<and>
        (e \<noteq> 0 \<longrightarrow> gb_error gb (cio_blk_local cio) (cio_create cio AND 1 \<noteq> 0) e) \<and>
        (e = 0 \<longrightarrow> b = bmap (lo_fs d') (cio_blk_local cio) \<and>
           (cio_create cio AND 1 \<noteq> 0 \<longrightarrow> b \<noteq> 0)))"

text \<open>\<^verbatim>\<open>vfs_fsync\<close> writes back; it keeps the mapping.\<close>

definition fsync_keeps :: "'s fsync_fn \<Rightarrow> ('s \<Rightarrow> sector_t \<Rightarrow> sector_t) \<Rightarrow> ('s \<Rightarrow> bool) \<Rightarrow> bool" where
  "fsync_keeps fsync bmap fs_inv \<longleftrightarrow>
     (\<forall>s. fs_inv s \<longrightarrow> fs_inv (snd (fsync s)) \<and> bmap (snd (fsync s)) = bmap s)"

text \<open>What serving one request leaves behind: the invariant, a larger block map (the same one unless
  blocks may be created), the dirty mark, the queue, and at most \<open>k\<close> more completions.\<close>

definition worker_post ::
  "('s \<Rightarrow> sector_t \<Rightarrow> sector_t) \<Rightarrow> ('s \<Rightarrow> bool) \<Rightarrow> bool \<Rightarrow> nat \<Rightarrow> cio_req \<Rightarrow> 's lo_trans \<Rightarrow>
   (cio_req \<times> 's lo_trans) option \<Rightarrow> bool" where
  "worker_post bmap fs_inv cr k cio d r \<longleftrightarrow>
     (\<exists>cio' d'. r = Some (cio', d') \<and> trans_inv bmap fs_inv d' \<and>
        map_grows (bmap (lo_fs d)) (bmap (lo_fs d')) \<and> (\<not> cr \<longrightarrow> bmap (lo_fs d') = bmap (lo_fs d)) \<and>
        (lo_dirty d \<longrightarrow> lo_dirty d') \<and> lo_cio_list d' = lo_cio_list d \<and>
        (\<exists>xs. allocated cio' = allocated cio @ xs \<and> length xs \<le> k))"

lemma worker_post_trans:
  assumes "map_grows (bmap (lo_fs d)) (bmap (lo_fs d1))" and "\<not> cr \<longrightarrow> bmap (lo_fs d1) = bmap (lo_fs d)"
    and "lo_dirty d \<longrightarrow> lo_dirty d1" and "lo_cio_list d1 = lo_cio_list d"
    and "worker_post bmap fs_inv cr k cio d1 r"
  shows "worker_post bmap fs_inv cr k cio d r"
  using assms unfolding worker_post_def by (fastforce intro: map_grows_trans)

context block_mapper
begin

text \<open>The three outcomes of a call, as the worker distinguishes them.\<close>

lemma get_block_cases [consumes 3, case_names error hole extent]:
  assumes "trans_inv bmap fs_inv d" and "0 < n" and "gb (lo_fs d) blk (n * 2 ^ blkbits) cr = (ret, nr, sz, s)"
  obtains "ret \<noteq> 0"
    | "ret = 0" and "nr = 0" and "0 < sz div 2 ^ blkbits" and "\<not> cr" and "bmap s blk = 0"
    | "ret = 0" and "nr \<noteq> 0" and "0 < sz div 2 ^ blkbits" and "sz div 2 ^ blkbits \<le> n" and "bmap s blk = nr"
proof (cases "ret = 0"; cases "nr = 0")
  assume "ret = 0" "nr = 0"
  then show thesis using that(2) gb_hole [of "lo_fs d" n blk cr sz s] assms by (simp add: trans_inv_def)
next
  assume r: "ret = 0" "nr \<noteq> 0"
  then have "0 < sz div 2 ^ blkbits \<and> sz div 2 ^ blkbits \<le> n \<and> (\<forall>j < sz div 2 ^ blkbits. bmap s (blk + j) = nr + j)"
    using gb_extent [of "lo_fs d" n blk cr nr sz s] assms by (simp add: trans_inv_def)
  then show thesis using that(3) r by (metis add.right_neutral)
qed (use that(1) in blast)+

lemma lookup_step:
  assumes "trans_inv bmap fs_inv d" and "0 < n" and "gb (lo_fs d) blk (n * 2 ^ blkbits) cr = (ret, nr, sz, s)"
  shows "\<not> cr \<longrightarrow> bmap s = bmap (lo_fs d)"
  using gb_lookup [of "lo_fs d" n] assms by (cases cr) (auto simp: trans_inv_def)

lemma trans_inv_step:
  assumes "trans_inv bmap fs_inv d" and "0 < n" and "gb (lo_fs d) blk (n * 2 ^ blkbits) cr = (ret, nr, sz, s)"
  shows "trans_inv bmap fs_inv (d\<lparr>lo_fs := s\<rparr>)" and "map_grows (bmap (lo_fs d)) (bmap s)"
proof -
  show g: "map_grows (bmap (lo_fs d)) (bmap s)"
    using assms gb_stable unfolding trans_inv_def map_grows_def by blast
  show "trans_inv bmap fs_inv (d\<lparr>lo_fs := s\<rparr>)"
    using assms g gb_inv unfolding trans_inv_def map_grows_def
    by (auto intro: coherent_mono)
qed

text \<open>One round of the prefetch loop on a mapped extent keeps the cache coherent.\<close>

lemma trans_inv_extent:
  assumes "trans_inv bmap fs_inv d" and "0 < n" and "gb (lo_fs d) blk (n * 2 ^ blkbits) cr = (0, nr, sz, s)"
    and "nr \<noteq> 0"
  shows "trans_inv bmap fs_inv (d\<lparr>lo_fs := s, lo_dirty := x,
           lo_cache := add_blocks (sz div 2 ^ blkbits) nr blk (lo_cache d)\<rparr>)"
proof -
  have "trans_inv bmap fs_inv (d\<lparr>lo_fs := s\<rparr>)" by (rule trans_inv_step [OF assms(1-3)])
  moreover have "\<forall>j < sz div 2 ^ blkbits. bmap s (blk + j) = nr + j"
    using gb_extent [OF _ assms(2-4)] assms(1) by (simp add: trans_inv_def)
  ultimately show ?thesis
    using add_blocks_inv [where c = "lo_cache d" and M = "bmap s", OF _ _ assms(4)]
    unfolding trans_inv_def by simp
qed

text \<open>The prefetch loop ends, keeps the invariant and only extends the block map.  The requester was
  answered before round \<open>i > 0\<close>, so at most one more completion follows.\<close>

lemma prefetch_loop_run:
  assumes "trans_inv bmap fs_inv d" and "0 < i"
  shows "worker_post bmap fs_inv cr 1 cio d (prefetch_loop gb blkbits pf cr i blk cio d)"
  using assms
proof (induction "pf - i" arbitrary: i blk cio d rule: less_induct)
  case less
  note unf = prefetch_loop.simps [of _ _ _ _ i]
  show ?case
  proof (cases "i < pf")
    case False
    then show ?thesis using less.prems by (simp add: unf worker_post_def)
  next
    case True
    obtain ret nr sz s where g: "gb (lo_fs d) blk ((pf - i) * 2 ^ blkbits) cr = (ret, nr, sz, s)"
      using prod_cases4 by blast
    have n: "0 < pf - i" using True by simp
    let ?got = "sz div 2 ^ blkbits"
    note st = trans_inv_step [OF less.prems(1) n g] lookup_step [OF less.prems(1) n g]
    from less.prems(1) n g show ?thesis
    proof (cases rule: get_block_cases)
      case error
      with True g st show ?thesis
        by (auto simp: unf complete_def trans_inv_def worker_post_def)
    next
      case hole
      let ?d = "d\<lparr>lo_fs := s, lo_dirty := lo_dirty d \<or> cr\<rparr>"
      have "worker_post bmap fs_inv cr 1 cio ?d (prefetch_loop gb blkbits pf cr (Suc i) (Suc blk) cio ?d)"
        using less.hyps [of "Suc i" ?d] True st(1) by (simp add: trans_inv_def)
      then have "worker_post bmap fs_inv cr 1 cio d (prefetch_loop gb blkbits pf cr (Suc i) (Suc blk) cio ?d)"
        by (rule worker_post_trans [rotated -1]) (use st in simp_all)
      then show ?thesis using True g hole less.prems(2) by (simp add: unf)
    next
      case extent
      let ?d = "d\<lparr>lo_fs := s, lo_dirty := lo_dirty d \<or> cr, lo_cache := add_blocks ?got nr blk (lo_cache d)\<rparr>"
      have "trans_inv bmap fs_inv ?d"
        by (rule trans_inv_extent [OF less.prems(1) n]) (use g extent in simp_all)
      then have "worker_post bmap fs_inv cr 1 cio ?d (prefetch_loop gb blkbits pf cr (i + ?got) (blk + ?got) cio ?d)"
        using less.hyps [of "i + ?got" ?d] True extent less.prems(2) by simp
      then have "worker_post bmap fs_inv cr 1 cio d (prefetch_loop gb blkbits pf cr (i + ?got) (blk + ?got) cio ?d)"
        by (rule worker_post_trans [rotated -1]) (use st in simp_all)
      then show ?thesis using True g extent less.prems(2) by (simp add: unf)
    qed
  qed
qed

lemma first_round:
  assumes "trans_inv bmap fs_inv d" and "0 < pf" and "allocated cio = []"
    and "find_cache_node (cio_blk_local cio) (lo_cache d) = None"
  defines "cr \<equiv> cio_create cio AND 1 \<noteq> 0"
  shows "\<exists>cio' d'. prefetch_loop gb blkbits pf cr 0 (cio_blk_local cio) cio d = Some (cio', d') \<and>
    trans_inv bmap fs_inv d' \<and> map_grows (bmap (lo_fs d)) (bmap (lo_fs d')) \<and>
    lo_cio_list d' = lo_cio_list d \<and> (lo_dirty d \<longrightarrow> lo_dirty d') \<and> answered gb bmap cio d' cio' \<and>
    (cr \<and> fst (hd (allocated cio')) = 0 \<longrightarrow> lo_dirty d') \<and> (\<not> cr \<longrightarrow> bmap (lo_fs d') = bmap (lo_fs d)) \<and>
    (fst (hd (allocated cio')) \<noteq> 0 \<longrightarrow> fst (gb (lo_fs d) (cio_blk_local cio) (pf * 2 ^ blkbits) cr) \<noteq> 0)"
proof -
  let ?blk = "cio_blk_local cio"
  obtain ret nr sz s where g: "gb (lo_fs d) ?blk (pf * 2 ^ blkbits) cr = (ret, nr, sz, s)"
    using prod_cases4 by blast
  let ?got = "sz div 2 ^ blkbits"
  note unf = prefetch_loop.simps [of _ _ _ _ 0]
  note st = trans_inv_step [OF assms(1,2) g] lookup_step [OF assms(1,2) g]
  from assms(1,2) g show ?thesis
  proof (cases rule: get_block_cases)
    case error
    have "gb_error gb ?blk (cio_create cio AND 1 \<noteq> 0) ret"
      using g unfolding cr_def gb_error_def by (metis fst_conv)
    with error assms(2,3) g st show ?thesis
      by (auto simp: unf complete_def trans_inv_def answered_def)
  next
    case hole
    let ?d = "d\<lparr>lo_fs := s, lo_dirty := lo_dirty d \<or> cr\<rparr>"
    let ?c = "complete (cio\<lparr>cio_error := 0, cio_blk_phy := 0\<rparr>)"
    have "worker_post bmap fs_inv cr 1 ?c ?d (prefetch_loop gb blkbits pf cr 1 (Suc ?blk) ?c ?d)"
      using prefetch_loop_run [of ?d 1] st(1) by (simp add: trans_inv_def)
    moreover have "cio_create cio AND 1 = 0" using hole(4) by (simp add: cr_def)
    ultimately show ?thesis
      using assms(2,3) g hole st map_grows_trans [OF st(2)]
      by (auto simp: unf worker_post_def answered_def complete_def)
  next
    case extent
    let ?d = "d\<lparr>lo_fs := s, lo_dirty := lo_dirty d \<or> cr, lo_cache := add_blocks ?got nr ?blk (lo_cache d)\<rparr>"
    let ?c = "complete (cio\<lparr>cio_error := 0, cio_blk_phy := nr\<rparr>)"
    have "trans_inv bmap fs_inv ?d"
      by (rule trans_inv_extent [OF assms(1,2)]) (use g extent in simp_all)
    then have "worker_post bmap fs_inv cr 1 ?c ?d (prefetch_loop gb blkbits pf cr ?got (?blk + ?got) ?c ?d)"
      using prefetch_loop_run [of ?d ?got] extent by simp
    then obtain cio' d' xs where r: "prefetch_loop gb blkbits pf cr ?got (?blk + ?got) ?c ?d = Some (cio', d')"
      and post: "trans_inv bmap fs_inv d'" "lo_dirty d \<or> cr \<longrightarrow> lo_dirty d'" "lo_cio_list d' = lo_cio_list d"
        "allocated cio' = (0, nr) # xs" "length xs \<le> 1"
      and gr: "map_grows (bmap s) (bmap (lo_fs d'))" and same: "\<not> cr \<longrightarrow> bmap (lo_fs d') = bmap s"
      using assms(3) by (auto simp: worker_post_def complete_def)
    have "prefetch_loop gb blkbits pf cr 0 ?blk cio d = Some (cio', d')"
      using assms(2) g extent(1-3) r by (simp add: unf)
    moreover have "bmap (lo_fs d') ?blk = nr" using gr extent(2,5) by (simp add: map_grows_def)
    ultimately show ?thesis
      using post extent(2) map_grows_trans [OF st(2) gr] same st(3) by (auto simp: answered_def)
  qed
qed

lemma serve_translation:
  assumes "trans_inv bmap fs_inv d" and "0 < pf" and "allocated cio = []" and "cio_blk_num cio \<noteq> - 1"
  shows "\<exists>cio' d'. serve_cio gb fsync blkbits pf cio d = Some (cio', d') \<and>
    trans_inv bmap fs_inv d' \<and> map_grows (bmap (lo_fs d)) (bmap (lo_fs d')) \<and>
    lo_cio_list d' = lo_cio_list d \<and> answered gb bmap cio d' cio' \<and> (lo_dirty d \<longrightarrow> lo_dirty d') \<and>
    (cio_create cio AND 1 = 0 \<longrightarrow> bmap (lo_fs d') = bmap (lo_fs d)) \<and>
    (fst (hd (allocated cio')) \<noteq> 0 \<longrightarrow>
       fst (gb (lo_fs d) (cio_blk_local cio) (pf * 2 ^ blkbits) (cio_create cio AND 1 \<noteq> 0)) \<noteq> 0)"
proof (cases "find_cache_node (cio_blk_local cio) (lo_cache d)")
  case None
  then show ?thesis using first_round [OF assms(1-3) None] assms(4) by (auto simp: serve_cio_def Let_def)
next
  case (Some p)
  have inv: "cache_inv LRU_LENGTH (lo_cache d)" and co: "coherent (bmap (lo_fs d)) (entries (lo_cache d))"
    using assms(1) by (simp_all add: trans_inv_def)
  have "map_of (entries (lo_cache d)) (cio_blk_local cio) = Some (phys_of (lo_cache d) p)"
    using find_cache_node_entries [OF inv, of "cio_blk_local cio"] Some by simp
  then have "phys_of (lo_cache d) p = bmap (lo_fs d) (cio_blk_local cio)" and "phys_of (lo_cache d) p \<noteq> 0"
    using co by (auto simp: coherent_def dest!: map_of_SomeD)
  then show ?thesis
    using assms Some by (auto simp: serve_cio_def Let_def complete_def answered_def)
qed

lemma serve_flush:
  assumes "trans_inv bmap fs_inv d" and "fsync_keeps fsync bmap fs_inv" and "cio_blk_num cio = - 1"
  shows "\<exists>cio' d'. serve_cio gb fsync blkbits pf cio d = Some (cio', d') \<and>
    trans_inv bmap fs_inv d' \<and> bmap (lo_fs d') = bmap (lo_fs d) \<and> lo_cio_list d' = lo_cio_list d \<and>
    allocated cio' = allocated cio @ [(fst (fsync (lo_fs d)), cio_blk_phy cio)] \<and>
    lo_dirty d' = (lo_dirty d \<and> fst (fsync (lo_fs d)) \<noteq> 0)"
  using assms by (auto simp: serve_cio_def complete_def trans_inv_def fsync_keeps_def Let_def split: prod.split)

text \<open>The worker answers every request of its queue.\<close>

lemma serve_any:
  assumes "trans_inv bmap fs_inv d" and "fsync_keeps fsync bmap fs_inv" and "0 < pf" and "allocated cio = []"
  shows "\<exists>cio' d'. serve_cio gb fsync blkbits pf cio d = Some (cio', d') \<and>
    trans_inv bmap fs_inv d' \<and> map_grows (bmap (lo_fs d)) (bmap (lo_fs d')) \<and>
    lo_cio_list d' = lo_cio_list d \<and> allocated cio' \<noteq> [] \<and>
    (cio_blk_num cio \<noteq> - 1 \<longrightarrow> answered gb bmap cio d' cio')"
proof (cases "cio_blk_num cio = - 1")
  case True
  then show ?thesis using serve_flush [OF assms(1,2) True, of pf] by fastforce
next
  case False
  then show ?thesis using serve_translation [OF assms(1,3,4) False, of fsync]
    by (fastforce simp: answered_def)
qed

lemma loop_thread_run:
  assumes "trans_inv bmap fs_inv d" and "fsync_keeps fsync bmap fs_inv" and "0 < pf"
    and "\<forall>c \<in> set (lo_cio_list d). allocated c = []" and "length (lo_cio_list d) = n"
  shows "\<exists>cs d'. loop_thread gb fsync blkbits pf n d = Some (cs, d') \<and> trans_inv bmap fs_inv d' \<and>
    map_grows (bmap (lo_fs d)) (bmap (lo_fs d')) \<and> lo_cio_list d' = [] \<and> length cs = n \<and>
    (\<forall>c \<in> set cs. allocated c \<noteq> []) \<and>
    (0 < n \<and> cio_blk_num (last (lo_cio_list d)) \<noteq> - 1 \<longrightarrow> answered gb bmap (last (lo_cio_list d)) d' (last cs))"
  using assms
proof (induction n arbitrary: d)
  case 0
  then show ?case by simp
next
  case (Suc n)
  obtain cio rest where q: "lo_cio_list d = cio # rest" using Suc.prems(5) by (cases "lo_cio_list d") auto
  let ?d = "d\<lparr>lo_cio_list := rest\<rparr>"
  have "trans_inv bmap fs_inv ?d" and "allocated cio = []"
    using Suc.prems(1,4) q by (simp_all add: trans_inv_def)
  from serve_any [OF this(1) Suc.prems(2,3) this(2)] obtain cio' d1
    where s: "serve_cio gb fsync blkbits pf cio ?d = Some (cio', d1)" and i1: "trans_inv bmap fs_inv d1"
      and g1: "map_grows (bmap (lo_fs d)) (bmap (lo_fs d1))" and q1: "lo_cio_list d1 = rest"
      and a1: "allocated cio' \<noteq> []" and ans: "cio_blk_num cio \<noteq> - 1 \<longrightarrow> answered gb bmap cio d1 cio'"
    by auto
  have "\<forall>c \<in> set (lo_cio_list d1). allocated c = []" and "length (lo_cio_list d1) = n"
    using Suc.prems(4,5) q q1 by auto
  from Suc.IH [OF i1 Suc.prems(2,3) this] obtain cs d2
    where r: "loop_thread gb fsync blkbits pf n d1 = Some (cs, d2)" and i2: "trans_inv bmap fs_inv d2"
      and g2: "map_grows (bmap (lo_fs d1)) (bmap (lo_fs d2))" and p2: "lo_cio_list d2 = []" "length cs = n"
        "\<forall>c \<in> set cs. allocated c \<noteq> []"
      and l2: "0 < n \<and> cio_blk_num (last rest) \<noteq> - 1 \<longrightarrow> answered gb bmap (last rest) d2 (last cs)"
    using q1 by auto
  have run: "loop_thread gb fsync blkbits pf (Suc n) d = Some (cio' # cs, d2)" using q s r by simp
  have "cio_blk_num (last (lo_cio_list d)) \<noteq> - 1 \<longrightarrow> answered gb bmap (last (lo_cio_list d)) d2 (last (cio' # cs))"
  proof (cases n)
    case 0
    then show ?thesis using Suc.prems(5) q r ans p2 by auto
  next
    case (Suc m)
    then have "rest \<noteq> []" and "cs \<noteq> []" using \<open>length (lo_cio_list d1) = n\<close> q1 p2 by auto
    then show ?thesis using l2 q Suc by simp
  qed
  then show ?case using run i2 map_grows_trans [OF g1 g2] p2 a1 by auto
qed

lemma translate_block_run:
  assumes "trans_inv bmap fs_inv d" and "fsync_keeps fsync bmap fs_inv" and "0 < pf"
    and "\<forall>c \<in> set (lo_cio_list d). allocated c = []"
  shows "\<exists>e b d'. translate_block gb fsync blkbits pf rw blk d = Some (e, b, d') \<and> trans_inv bmap fs_inv d' \<and>
    map_grows (bmap (lo_fs d)) (bmap (lo_fs d')) \<and> lo_cio_list d' = [] \<and>
    (e \<noteq> 0 \<longrightarrow> gb_error gb blk (flagged rw REQ_WRITE) e) \<and>
    (e = 0 \<longrightarrow> b = bmap (lo_fs d') blk \<and> (flagged rw REQ_WRITE \<longrightarrow> b \<noteq> 0))"
proof -
  let ?d = "cio_make_request (int pf) blk rw d"
  have "trans_inv bmap fs_inv ?d" using assms(1) by (simp add: trans_inv_def cio_make_request_def)
  moreover have "\<forall>c \<in> set (lo_cio_list ?d). allocated c = []"
    using assms(4) by (auto simp: cio_make_request_def)
  ultimately obtain cs d' where r: "loop_thread gb fsync blkbits pf (length (lo_cio_list ?d)) ?d = Some (cs, d')"
    and post: "trans_inv bmap fs_inv d'" "map_grows (bmap (lo_fs ?d)) (bmap (lo_fs d'))" "lo_cio_list d' = []"
    and cs: "length cs = length (lo_cio_list ?d)"
    and ans: "answered gb bmap (last (lo_cio_list ?d)) d' (last cs)"
    using loop_thread_run [OF _ assms(2,3), of ?d] by (fastforce simp: cio_make_request_def)
  from ans obtain e b ys where al: "allocated (last cs) = (e, b) # ys"
    and er: "e \<noteq> 0 \<longrightarrow> gb_error gb blk ((ucast rw :: u32) AND 1 \<noteq> 0) e"
    and eb: "e = 0 \<longrightarrow> b = bmap (lo_fs d') blk \<and> ((ucast rw :: u32) AND 1 \<noteq> 0 \<longrightarrow> b \<noteq> 0)"
    by (auto simp: answered_def cio_make_request_def)
  have "cs \<noteq> []" using cs by (auto simp: cio_make_request_def)
  then have "translate_block gb fsync blkbits pf rw blk d = Some (e, b, d')"
    using r al by (simp add: translate_block_def wait_result_def Let_def)
  then show ?thesis
    using post er eb unfolding ucast_and_1 REQ_WRITE_def [symmetric] by (auto simp: cio_make_request_def)
qed

text \<open>With no other request pending, a translation that creates nothing leaves the map alone, and an error
  is one the file system reported for this block in the state the request found.  The dirty mark stays.\<close>

lemma translate_block_alone:
  assumes "trans_inv bmap fs_inv d" and "0 < pf" and "lo_cio_list d = []"
    and "translate_block gb fsync blkbits pf rw blk d = Some (e, b, d')"
  shows "(\<not> flagged rw REQ_WRITE \<longrightarrow> bmap (lo_fs d') = bmap (lo_fs d)) \<and> (lo_dirty d \<longrightarrow> lo_dirty d') \<and>
    (e \<noteq> 0 \<longrightarrow> fst (gb (lo_fs d) blk (pf * 2 ^ blkbits) (flagged rw REQ_WRITE)) \<noteq> 0)"
proof -
  let ?c = "\<lparr>cio_create = ucast rw, cio_blk_local = blk, cio_blk_phy = 0, cio_blk_num = int pf,
             cio_error = 0, allocated = []\<rparr>"
  have "trans_inv bmap fs_inv (d\<lparr>lo_cio_list := []\<rparr>)" using assms(1) by (simp add: trans_inv_def)
  from serve_translation [OF this assms(2), of ?c fsync] obtain cio' d1
    where s: "serve_cio gb fsync blkbits pf ?c (d\<lparr>lo_cio_list := []\<rparr>) = Some (cio', d1)"
      and m: "cio_create ?c AND 1 = 0 \<longrightarrow> bmap (lo_fs d1) = bmap (lo_fs d)" "lo_dirty d \<longrightarrow> lo_dirty d1"
      and er: "fst (hd (allocated cio')) \<noteq> 0 \<longrightarrow>
        fst (gb (lo_fs d) blk (pf * 2 ^ blkbits) (cio_create ?c AND 1 \<noteq> 0)) \<noteq> 0" by auto
  have "d1 = d'" and "fst (hd (allocated cio')) = e"
    using assms(3,4) s
    by (auto simp: translate_block_def cio_make_request_def wait_result_def split: list.splits)
  then show ?thesis using m er ucast_and_1 [of rw] by (simp add: REQ_WRITE_def)
qed

end

section \<open>Properties\<close>

text \<open>An image laid out in one piece from block 100 of the disk, used where a property is applied to
  concrete values: its \<^verbatim>\<open>get_block\<close> maps as many blocks as it is asked for.\<close>

definition lin_get_block :: "unit get_block_fn" where
  "lin_get_block s blk sz cr = (0, blk + 100, sz, s)"

definition lin_map :: "unit \<Rightarrow> sector_t \<Rightarrow> sector_t" where
  "lin_map s blk = blk + 100"

definition lin_fsync :: "unit fsync_fn" where
  "lin_fsync s = (0, s)"

definition new_dev :: "unit lo_trans" where
  "new_dev = \<lparr>lo_cache = zero_cache, lo_dirty = False, lo_cio_list = [], lo_fs = ()\<rparr>"

lemma new_dev_ok: "trans_inv lin_map (\<lambda>_. True) new_dev" "lo_cio_list new_dev = []"
  by (simp_all add: trans_inv_def new_dev_def cache_inv_zero) (simp add: entries_def zero_cache_def)

lemma lin_mapper: "block_mapper lin_get_block lin_map k (\<lambda>_. True)"
  by (auto simp: block_mapper_def lin_get_block_def lin_map_def)

lemma lin_fsync_keeps: "fsync_keeps lin_fsync lin_map (\<lambda>_. True)"
  by (simp add: fsync_keeps_def lin_fsync_def)

text \<open>C4. Translation of a block.  With a file system that keeps the contract of \<^verbatim>\<open>get_block\<close>, with a prefetch
  length of at least one and whatever requests are already queued, a call of \<^verbatim>\<open>cio_make_request\<close> is answered.
  The answer is an error that \<^verbatim>\<open>get_block\<close> returned for this block, or the block's place on the disk, which is
  a mapped block if the request writes.  The cache agrees with the block map before and after, no mapped
  block moves, and the queue of requests is empty afterwards.\<close>

theorem translate_block_correct:
  assumes "block_mapper gb bmap blkbits fs_inv" and "trans_inv bmap fs_inv d" and "fsync_keeps fsync bmap fs_inv"
    and "0 < pf" and "\<forall>c \<in> set (lo_cio_list d). allocated c = []"
  shows "\<exists>e b d'. translate_block gb fsync blkbits pf rw blk d = Some (e, b, d') \<and> trans_inv bmap fs_inv d' \<and>
    map_grows (bmap (lo_fs d)) (bmap (lo_fs d')) \<and> lo_cio_list d' = [] \<and>
    (e \<noteq> 0 \<longrightarrow> gb_error gb blk (flagged rw REQ_WRITE) e) \<and>
    (e = 0 \<longrightarrow> b = bmap (lo_fs d') blk \<and> (flagged rw REQ_WRITE \<longrightarrow> b \<noteq> 0))"
  by (rule block_mapper.translate_block_run [OF assms])

theorem translate_block_correct_witness:
  "\<exists>d'. translate_block lin_get_block lin_fsync 12 512 REQ_WRITE 7 new_dev = Some (0, 107, d') \<and>
     trans_inv lin_map (\<lambda>_. True) d'"
proof -
  have "\<forall>c \<in> set (lo_cio_list new_dev). allocated c = []" by (simp add: new_dev_def)
  from translate_block_correct [OF lin_mapper new_dev_ok(1) lin_fsync_keeps _ this, of 512 12 REQ_WRITE 7]
  show ?thesis by (auto simp: gb_error_def lin_get_block_def lin_map_def)
qed

text \<open>C7. Every request queued for the worker is answered.  Serving a queue of \<open>n\<close> requests, translations and
  flushes in any order, ends; each of them gets an answer; the queue is empty; the cache stays coherent with a
  block map that only grew.\<close>

theorem loop_thread_answers:
  assumes "block_mapper gb bmap blkbits fs_inv" and "trans_inv bmap fs_inv d" and "fsync_keeps fsync bmap fs_inv"
    and "0 < pf" and "\<forall>c \<in> set (lo_cio_list d). allocated c = []"
  shows "\<exists>cs d'. loop_thread gb fsync blkbits pf (length (lo_cio_list d)) d = Some (cs, d') \<and>
    length cs = length (lo_cio_list d) \<and> (\<forall>c \<in> set cs. allocated c \<noteq> []) \<and> lo_cio_list d' = [] \<and>
    trans_inv bmap fs_inv d' \<and> map_grows (bmap (lo_fs d)) (bmap (lo_fs d'))"
  using block_mapper.loop_thread_run [OF assms refl] by blast

theorem loop_thread_answers_witness:
  "\<exists>cs d'. loop_thread lin_get_block lin_fsync 12 512 2
       (cio_make_request_flush REQ_FLUSH (cio_make_request 512 7 REQ_WRITE new_dev)) = Some (cs, d') \<and>
     length cs = 2 \<and> (\<forall>c \<in> set cs. allocated c \<noteq> []) \<and> lo_cio_list d' = []"
proof -
  let ?d = "cio_make_request_flush REQ_FLUSH (cio_make_request 512 7 REQ_WRITE new_dev)"
  have q: "length (lo_cio_list ?d) = 2" "\<forall>c \<in> set (lo_cio_list ?d). allocated c = []"
    by (simp_all add: cio_make_request_flush_def cio_make_request_def new_dev_def)
  have "trans_inv lin_map (\<lambda>_. True) ?d"
    using new_dev_ok(1) by (simp add: trans_inv_def cio_make_request_flush_def cio_make_request_def)
  from loop_thread_answers [OF lin_mapper this lin_fsync_keeps _ q(2), of 512 12] show ?thesis
    unfolding q by auto
qed

text \<open>With the module parameter \<^verbatim>\<open>prefetch_blocks\<close> at 0 the worker skips its loop and never completes the
  request: a call of \<^verbatim>\<open>cio_make_request\<close> for any block on a device with no other request waits for ever.\<close>

theorem translate_block_prefetch_zero:
  assumes "lo_cio_list d = []"
  shows "translate_block gb fsync blkbits 0 rw blk d = None"
  using assms
  by (simp add: translate_block_def cio_make_request_def serve_cio_def wait_result_def prefetch_loop.simps
      split: option.split)

theorem translate_block_prefetch_zero_witness:
  "translate_block lin_get_block lin_fsync 12 0 REQ_WRITE 7 new_dev = None"
  by (rule translate_block_prefetch_zero) (rule new_dev_ok(2))

text \<open>A late failure answers twice.  When the second call of \<^verbatim>\<open>get_block\<close> for the same request fails, the
  worker stores the error in a request whose owner it has already released, and completes it a second time.\<close>

theorem serve_cio_twice:
  assumes "find_cache_node (cio_blk_local cio) (lo_cache d) = None" and "cio_blk_num cio \<noteq> - 1" and "1 < pf"
    and "gb (lo_fs d) (cio_blk_local cio) (pf * 2 ^ blkbits) (cio_create cio AND 1 \<noteq> 0) = (0, nr, 2 ^ blkbits, s1)"
    and "nr \<noteq> 0"
    and "gb s1 (Suc (cio_blk_local cio)) ((pf - 1) * 2 ^ blkbits) (cio_create cio AND 1 \<noteq> 0) = (ret, nr2, sz2, s2)"
    and "ret \<noteq> 0"
  shows "\<exists>cio' d'. serve_cio gb fsync blkbits pf cio d = Some (cio', d') \<and>
    allocated cio' = allocated cio @ [(0, nr), (ret, nr)]"
  using assms
  by (simp add: serve_cio_def Let_def prefetch_loop.simps [of _ _ _ _ 0] prefetch_loop.simps [of _ _ _ _ "Suc 0"]
      complete_def)

definition short_get_block :: "unit get_block_fn" where
  "short_get_block s blk sz cr = (if blk = 7 then (0, 107, 2 ^ 12, s) else (- ENOSPC, 0, sz, s))"

theorem serve_cio_twice_witness:
  "\<exists>cio' d'. serve_cio short_get_block lin_fsync 12 512
       \<lparr>cio_create = 1, cio_blk_local = 7, cio_blk_phy = 0, cio_blk_num = 512, cio_error = 0, allocated = []\<rparr> new_dev =
     Some (cio', d') \<and> allocated cio' = [(0, 107), (- ENOSPC, 107)]"
  using serve_cio_twice [of "\<lparr>cio_create = 1, cio_blk_local = 7, cio_blk_phy = 0, cio_blk_num = 512, cio_error = 0, allocated = []\<rparr>"
      new_dev 512 short_get_block 12 107 "()" "- ENOSPC" 0 "511 * 2 ^ 12" "()" lin_fsync]
  by (simp add: short_get_block_def new_dev_def find_cache_node_def zero_cache_def)

end
