(* ===== verification/Ext3_Map.thy ===== *)
theory Ext3_Map
  imports Loop_Translate
begin

text \<open>
  The block map of the host file system, as the virtualized device reaches it through
  \<^verbatim>\<open>inode->i_op->get_block\<close>: \<^verbatim>\<open>fs/ext3/inode.c\<close> from \<^verbatim>\<open>ext3_block_to_path\<close> to \<^verbatim>\<open>ext3_get_block\<close>.  The map of a
  file is a tree of pointer blocks anchored in the inode.  The block allocator (\<^verbatim>\<open>ext3_new_blocks\<close>,
  \<^verbatim>\<open>ext3_free_blocks\<close>), the buffer cache and the journal are not part of the sources: they are fields of
  \<open>ext3_env\<close>, with what the code relies on in \<open>ext3_env_ok\<close>.

  The worker of a device is the only one that changes the map of its backing file, so a call runs alone
  and \<^verbatim>\<open>verify_chain\<close> never fails; the re-read after a change is kept in the model.

  Block numbers and counts are natural numbers; \<^verbatim>\<open>max_blocks\<close>, an \<^verbatim>\<open>unsigned\<close> in the source, is the number of blocks asked
  for as long as that is below \<open>2 ^ 32\<close>.

  The main result is that \<open>ext3_get_block\<close> provides the interface \<open>block_mapper\<close> of the translation path, under
  an invariant by which no two places of the tree share a disk block.
\<close>

section \<open>State and environment\<close>

record 'a ext3_inode =
  i_data :: "nat \<Rightarrow> nat"
  b_data :: "nat \<Rightarrow> nat \<Rightarrow> nat"
  i_block_alloc_info :: "(nat \<times> nat) option"
  e3_alloc :: 'a

record 'a ext3_env =
  addr_bits :: nat
  new_blocks :: "'a \<Rightarrow> nat \<Rightarrow> nat \<Rightarrow> errcode \<times> nat \<times> nat \<times> 'a"
  free_blocks :: "'a \<Rightarrow> nat \<Rightarrow> nat \<Rightarrow> 'a"
  used :: "'a \<Rightarrow> nat set"
  bread_ok :: "nat \<Rightarrow> bool"
  journal_start_err :: errcode
  branch_err :: "nat \<Rightarrow> errcode"
  access_err :: "nat \<Rightarrow> errcode"
  dirty_err :: "nat \<Rightarrow> errcode"
  home_block :: nat
  init_alloc_info :: "(nat \<times> nat) option"

text \<open>A place where a block number is stored: a slot of the inode or of a pointer block.\<close>

datatype slot = InodeSlot nat | BlockSlot nat nat

record indirect =
  ind_p :: slot
  ind_key :: nat

fun slot_read :: "'a ext3_inode \<Rightarrow> slot \<Rightarrow> nat" where
  "slot_read s (InodeSlot i) = i_data s i"
| "slot_read s (BlockSlot b i) = b_data s b i"

fun slot_shift :: "slot \<Rightarrow> nat \<Rightarrow> slot" where
  "slot_shift (InodeSlot i) n = InodeSlot (i + n)"
| "slot_shift (BlockSlot b i) n = BlockSlot b (i + n)"

text \<open>\<open>slot_run\<close> stores consecutive numbers in \<open>n\<close> consecutive slots.\<close>

fun slot_run :: "'a ext3_inode \<Rightarrow> slot \<Rightarrow> nat \<Rightarrow> nat \<Rightarrow> 'a ext3_inode" where
  "slot_run s (InodeSlot i) v n =
     s\<lparr>i_data := (\<lambda>x. if i \<le> x \<and> x < i + n then v + (x - i) else i_data s x)\<rparr>"
| "slot_run s (BlockSlot b i) v n =
     s\<lparr>b_data := (b_data s)(b := (\<lambda>x. if i \<le> x \<and> x < i + n then v + (x - i) else b_data s b x))\<rparr>"

definition EAGAIN :: errcode where "EAGAIN = 11"
definition EXT3_NDIR_BLOCKS :: nat where "EXT3_NDIR_BLOCKS = 12"
definition EXT3_IND_BLOCK :: nat where "EXT3_IND_BLOCK = EXT3_NDIR_BLOCKS"
definition EXT3_DIND_BLOCK :: nat where "EXT3_DIND_BLOCK = EXT3_IND_BLOCK + 1"
definition EXT3_TIND_BLOCK :: nat where "EXT3_TIND_BLOCK = EXT3_DIND_BLOCK + 1"
definition DIO_MAX_BLOCKS :: nat where "DIO_MAX_BLOCKS = 4096"

lemmas ext3_consts = EXT3_NDIR_BLOCKS_def EXT3_IND_BLOCK_def EXT3_DIND_BLOCK_def EXT3_TIND_BLOCK_def

section \<open>Paths\<close>

text \<open>The offsets, empty when the block is out of range, and the distance to the end of the last pointer
  block.\<close>

definition ext3_block_to_path :: "nat \<Rightarrow> nat \<Rightarrow> nat list \<times> nat" where
  "ext3_block_to_path bits i_block =
     (let ptrs = 2 ^ bits; dbl = 2 ^ (bits * 2) in
      if i_block < EXT3_NDIR_BLOCKS then
        ([i_block], EXT3_NDIR_BLOCKS - 1 - i_block mod ptrs)
      else let i1 = i_block - EXT3_NDIR_BLOCKS in
      if i1 < ptrs then ([EXT3_IND_BLOCK, i1], ptrs - 1 - i1 mod ptrs)
      else let i2 = i1 - ptrs in
      if i2 < dbl then ([EXT3_DIND_BLOCK, i2 div ptrs, i2 mod ptrs], ptrs - 1 - i2 mod ptrs)
      else let i3 = i2 - dbl in
      if i3 div dbl < ptrs then
        ([EXT3_TIND_BLOCK, i3 div dbl, (i3 div ptrs) mod ptrs, i3 mod ptrs], ptrs - 1 - i3 mod ptrs)
      else ([], 0))"

definition verify_chain :: "'a ext3_inode \<Rightarrow> indirect list \<Rightarrow> bool" where
  "verify_chain s chain \<longleftrightarrow> list_all (\<lambda>i. ind_key i = slot_read s (ind_p i)) chain"

definition add_chain :: "'a ext3_inode \<Rightarrow> slot \<Rightarrow> indirect" where
  "add_chain s p = \<lparr>ind_p = p, ind_key = slot_read s p\<rparr>"

text \<open>The chain read so far, whether it is complete, and the error.\<close>

fun get_branch_from :: "'a ext3_env \<Rightarrow> 'a ext3_inode \<Rightarrow> indirect list \<Rightarrow> nat list \<Rightarrow> indirect list \<times> bool \<times> errcode" where
  "get_branch_from E s chain [] = (chain, True, 0)"
| "get_branch_from E s chain (off # offs) =
     (let b = ind_key (last chain) in
      if \<not> bread_ok E b then (chain, False, - EIO)
      else if \<not> verify_chain s chain then (chain, False, - EAGAIN)
      else let i = add_chain s (BlockSlot b off) in
           if ind_key i = 0 then (chain @ [i], False, 0)
           else get_branch_from E s (chain @ [i]) offs)"

definition ext3_get_branch :: "'a ext3_env \<Rightarrow> 'a ext3_inode \<Rightarrow> nat list \<Rightarrow> indirect list \<times> bool \<times> errcode" where
  "ext3_get_branch E s offsets =
     (let i = add_chain s (InodeSlot (hd offsets)) in
      if ind_key i = 0 then ([i], False, 0) else get_branch_from E s [i] (tl offsets))"

section \<open>Where to allocate, and how much\<close>

fun slot_index :: "slot \<Rightarrow> nat" where
  "slot_index (InodeSlot i) = i"
| "slot_index (BlockSlot b i) = i"

fun slot_at :: "slot \<Rightarrow> nat \<Rightarrow> slot" where
  "slot_at (InodeSlot i) j = InodeSlot j"
| "slot_at (BlockSlot b i) j = BlockSlot b j"

definition ext3_find_near :: "'a ext3_env \<Rightarrow> 'a ext3_inode \<Rightarrow> indirect \<Rightarrow> nat" where
  "ext3_find_near E s ind =
     (case find (\<lambda>j. slot_read s (slot_at (ind_p ind) j) \<noteq> 0) (rev [0..<slot_index (ind_p ind)]) of
        Some j \<Rightarrow> slot_read s (slot_at (ind_p ind) j)
      | None \<Rightarrow> (case ind_p ind of BlockSlot b i \<Rightarrow> b | InodeSlot i \<Rightarrow> home_block E))"

definition ext3_find_goal :: "'a ext3_env \<Rightarrow> 'a ext3_inode \<Rightarrow> nat \<Rightarrow> indirect \<Rightarrow> nat" where
  "ext3_find_goal E s block partial =
     (case i_block_alloc_info s of
        Some (ll, lp) \<Rightarrow> if block = ll + 1 \<and> lp \<noteq> 0 then lp + 1 else ext3_find_near E s partial
      | None \<Rightarrow> ext3_find_near E s partial)"

text \<open>The counting loops of the file: \<open>c\<close> grows while the slot at distance \<open>c\<close> satisfies \<open>P\<close>, at most \<open>m\<close> times.\<close>

primrec count_while :: "(nat \<Rightarrow> bool) \<Rightarrow> nat \<Rightarrow> nat \<Rightarrow> nat" where
  "count_while P 0 c = c"
| "count_while P (Suc m) c = (if P c then count_while P m (Suc c) else c)"

definition ext3_blks_to_allocate :: "'a ext3_inode \<Rightarrow> indirect \<Rightarrow> nat \<Rightarrow> nat \<Rightarrow> nat \<Rightarrow> nat" where
  "ext3_blks_to_allocate s partial k blks bound =
     (if 0 < k then (if blks < bound + 1 then blks else bound + 1)
      else count_while (\<lambda>c. slot_read s (slot_shift (ind_p partial) c) = 0) (min blks (bound + 1) - 1) 1)"

section \<open>Allocating a branch\<close>

definition free_each :: "'a ext3_env \<Rightarrow> nat list \<Rightarrow> 'a \<Rightarrow> 'a" where
  "free_each E bs a = fold (\<lambda>b a. free_blocks E a b 1) bs a"

text \<open>The loop of \<^verbatim>\<open>ext3_alloc_blocks\<close>: \<open>k\<close> indirect blocks are still needed, \<open>acc\<close> holds those found.  Each
  round but the last fills one of them at least, so \<open>Suc k\<close> rounds are enough and the value for no more
  rounds is not reached (\<open>alloc_loop_ok\<close>).\<close>

primrec alloc_loop ::
  "nat \<Rightarrow> 'a ext3_env \<Rightarrow> nat \<Rightarrow> nat \<Rightarrow> nat \<Rightarrow> nat list \<Rightarrow> 'a \<Rightarrow> errcode \<times> nat list \<times> nat \<times> 'a" where
  "alloc_loop 0 E goal k target acc a = (- EIO, acc, 0, free_each E acc a)"
| "alloc_loop (Suc f) E goal k target acc a =
     (case new_blocks E a goal target of (err, cur, got, a1) \<Rightarrow>
        if err \<noteq> 0 then (err, acc, 0, free_each E acc a1)
        else if k < got then (0, acc @ [cur..<cur + k] @ [cur + k], got - k, a1)
        else alloc_loop f E goal (k - got) (target - got) (acc @ [cur..<cur + got]) a1)"

definition ext3_alloc_blocks :: "'a ext3_env \<Rightarrow> nat \<Rightarrow> nat \<Rightarrow> nat \<Rightarrow> 'a \<Rightarrow> errcode \<times> nat list \<times> nat \<times> 'a" where
  "ext3_alloc_blocks E goal k blks a = alloc_loop (Suc k) E goal k (blks + k) [] a"

definition run_content :: "nat \<Rightarrow> nat \<Rightarrow> nat \<Rightarrow> nat \<Rightarrow> nat" where
  "run_content off n v = (\<lambda>x. if off \<le> x \<and> x < off + n then v + (x - off) else 0)"

text \<open>Filling the new pointer blocks: each points to the next, the last one to the \<open>num\<close> data blocks.\<close>

fun write_branch :: "'a ext3_env \<Rightarrow> nat list \<Rightarrow> nat list \<Rightarrow> nat \<Rightarrow> 'a ext3_inode \<Rightarrow> errcode \<times> 'a ext3_inode" where
  "write_branch E (b # c # bs) (off # offs) num s =
     (if branch_err E b \<noteq> 0 then (branch_err E b, s)
      else let n = (if bs = [] then num else 1);
               s1 = s\<lparr>b_data := (b_data s)(b := run_content off n c)\<rparr>
           in if dirty_err E b \<noteq> 0 then (dirty_err E b, s1) else write_branch E (c # bs) offs num s1)"
| "write_branch E _ _ num s = (0, s)"

definition free_branch :: "'a ext3_env \<Rightarrow> nat list \<Rightarrow> nat \<Rightarrow> 'a ext3_inode \<Rightarrow> 'a ext3_inode" where
  "free_branch E nb num s =
     s\<lparr>e3_alloc := free_blocks E (free_each E (butlast nb) (e3_alloc s)) (last nb) num\<rparr>"

text \<open>The error, the new blocks (indirect blocks, then the first data block), how many data blocks they are.\<close>

definition ext3_alloc_branch ::
  "'a ext3_env \<Rightarrow> nat \<Rightarrow> nat \<Rightarrow> nat \<Rightarrow> nat list \<Rightarrow> 'a ext3_inode \<Rightarrow> errcode \<times> nat list \<times> nat \<times> 'a ext3_inode" where
  "ext3_alloc_branch E k blks goal offs s =
     (case ext3_alloc_blocks E goal k blks (e3_alloc s) of (err, nb, num, a) \<Rightarrow>
        if err \<noteq> 0 then (err, nb, num, s\<lparr>e3_alloc := a\<rparr>)
        else (case write_branch E nb (tl offs) num (s\<lparr>e3_alloc := a\<rparr>) of (err, s1) \<Rightarrow>
                if err \<noteq> 0 then (err, nb, num, free_branch E nb num s1) else (0, nb, num, s1)))"

definition ext3_splice_branch ::
  "'a ext3_env \<Rightarrow> nat \<Rightarrow> slot \<Rightarrow> nat list \<Rightarrow> nat \<Rightarrow> 'a ext3_inode \<Rightarrow> errcode \<times> 'a ext3_inode" where
  "ext3_splice_branch E block p nb num s =
     (let acc = (case p of BlockSlot b i \<Rightarrow> access_err E b | InodeSlot i \<Rightarrow> 0) in
      if acc \<noteq> 0 then (acc, free_branch E nb num s)
      else
        let s1 = slot_run s p (hd nb) (if length nb = 1 then num else 1);
            s2 = s1\<lparr>i_block_alloc_info :=
                   map_option (\<lambda>_. (block + num - 1, last nb + num - 1)) (i_block_alloc_info s1)\<rparr>;
            dirty = (case p of BlockSlot b i \<Rightarrow> dirty_err E b | InodeSlot i \<Rightarrow> 0)
        in if dirty \<noteq> 0 then (dirty, free_branch E nb num s2) else (0, s2))"

section \<open>Mapping blocks\<close>

definition count_same :: "'a ext3_inode \<Rightarrow> slot \<Rightarrow> nat \<Rightarrow> nat \<Rightarrow> nat" where
  "count_same s p first m = count_while (\<lambda>c. slot_read s (slot_shift p c) = first + c) m 1"

definition ext3_allocate ::
  "'a ext3_env \<Rightarrow> 'a ext3_inode \<Rightarrow> nat \<Rightarrow> nat \<Rightarrow> nat list \<Rightarrow> nat \<Rightarrow> indirect list \<Rightarrow> errcode \<times> nat \<times> 'a ext3_inode" where
  "ext3_allocate E s iblock maxblocks offsets bound chain =
     (let s1 = (if i_block_alloc_info s = None then s\<lparr>i_block_alloc_info := init_alloc_info E\<rparr> else s);
          partial = last chain;
          goal = ext3_find_goal E s1 iblock partial;
          k = length offsets - length chain;
          count = ext3_blks_to_allocate s1 partial k maxblocks bound
      in case ext3_alloc_branch E k count goal (drop (length chain - 1) offsets) s1 of (err, nb, num, s2) \<Rightarrow>
           if err \<noteq> 0 then (err, 0, s2)
           else (case ext3_splice_branch E iblock (ind_p partial) nb num s2 of (err, s3) \<Rightarrow>
                   if err \<noteq> 0 then (err, 0, s3) else (int num, last nb, s3)))"

text \<open>The number of blocks mapped or the error, the first block on the disk, the new state.\<close>

definition ext3_get_blocks_handle ::
  "'a ext3_env \<Rightarrow> 'a ext3_inode \<Rightarrow> nat \<Rightarrow> nat \<Rightarrow> bool \<Rightarrow> errcode \<times> nat \<times> 'a ext3_inode" where
  "ext3_get_blocks_handle E s iblock maxblocks create =
     (case ext3_block_to_path (addr_bits E) iblock of (offsets, bound) \<Rightarrow>
      if offsets = [] then (- EIO, 0, s)
      else case ext3_get_branch E s offsets of (chain, full, err) \<Rightarrow>
        let more = min maxblocks (bound + 1) - 1;
            err1 = (if full \<and> 0 < more \<and> \<not> verify_chain s chain then - EAGAIN else err)
        in if full \<and> err1 \<noteq> - EAGAIN
           then (int (count_same s (ind_p (last chain)) (ind_key (last chain)) more), ind_key (last chain), s)
           else if \<not> create \<or> err1 = - EIO then (err1, 0, s)
           else
             (case (if err1 = - EAGAIN \<or> \<not> verify_chain s chain then ext3_get_branch E s offsets else (chain, full, err1)) of
                (chain, full, err) \<Rightarrow>
                  if full then (1, ind_key (last chain), s)
                  else ext3_allocate E s iblock maxblocks offsets bound chain))"

definition ext3_get_block :: "'a ext3_env \<Rightarrow> nat \<Rightarrow> 'a ext3_inode get_block_fn" where
  "ext3_get_block E blkbits s iblock b_size create =
     (if create \<and> journal_start_err E \<noteq> 0 then (journal_start_err E, 0, b_size, s)
      else
        let max_blocks = b_size div 2 ^ blkbits;
            max_blocks = (if create then min max_blocks DIO_MAX_BLOCKS else max_blocks)
        in case ext3_get_blocks_handle E s iblock max_blocks create of (ret, nr, s1) \<Rightarrow>
             if 0 < ret then (0, nr, nat ret * 2 ^ blkbits, s1) else (ret, 0, b_size, s1))"

section \<open>The tree of a file\<close>

text \<open>\<open>node s pos\<close> is the disk block at a place of the tree, given by the offsets that lead to it.\<close>

definition node :: "'a ext3_inode \<Rightarrow> nat list \<Rightarrow> nat" where
  "node s pos = foldl (\<lambda>b x. if b = 0 then 0 else b_data s b x) (i_data s (hd pos)) (tl pos)"

definition ext3_bmap :: "'a ext3_env \<Rightarrow> 'a ext3_inode \<Rightarrow> nat \<Rightarrow> nat" where
  "ext3_bmap E s blk = (let offs = fst (ext3_block_to_path (addr_bits E) blk) in if offs = [] then 0 else node s offs)"

definition depth_of :: "nat \<Rightarrow> nat" where
  "depth_of x = (if x < EXT3_NDIR_BLOCKS then 1 else x + 2 - EXT3_NDIR_BLOCKS)"

definition tree_places :: "nat \<Rightarrow> nat list set" where
  "tree_places bits = {pos. pos \<noteq> [] \<and> hd pos \<le> EXT3_TIND_BLOCK \<and> length pos \<le> depth_of (hd pos) \<and>
     (\<forall>x \<in> set (tl pos). x < 2 ^ bits)}"

definition ext3_inv :: "'a ext3_env \<Rightarrow> 'a ext3_inode \<Rightarrow> bool" where
  "ext3_inv E s \<longleftrightarrow>
     (\<forall>pos \<in> tree_places (addr_bits E). node s pos \<noteq> 0 \<longrightarrow> node s pos \<in> used E (e3_alloc s)) \<and>
     inj_on (node s) {pos \<in> tree_places (addr_bits E). node s pos \<noteq> 0}"

text \<open>What the code relies on: the allocator gives out runs of free blocks and takes them back, errors are
  negative, and \<^verbatim>\<open>ext3_journal_dirty_metadata\<close> does not fail on a block the transaction owns.\<close>

definition new_blocks_post :: "'a ext3_env \<Rightarrow> 'a \<Rightarrow> nat \<Rightarrow> errcode \<times> nat \<times> nat \<times> 'a \<Rightarrow> bool" where
  "new_blocks_post E a n r =
     (case r of (err, st, got, a') \<Rightarrow>
        if err = 0 then 0 < got \<and> got \<le> n \<and> 0 < st \<and> {st..<st + got} \<inter> used E a = {} \<and>
                        used E a' = used E a \<union> {st..<st + got}
        else err < 0 \<and> used E a' = used E a)"

definition ext3_env_ok :: "'a ext3_env \<Rightarrow> bool" where
  "ext3_env_ok E \<longleftrightarrow>
     4 \<le> addr_bits E \<and>
     (\<forall>a goal n. 0 < n \<longrightarrow> new_blocks_post E a n (new_blocks E a goal n)) \<and>
     (\<forall>a b n. used E (free_blocks E a b n) = used E a - {b..<b + n}) \<and>
     (\<forall>b. dirty_err E b = 0) \<and> (\<forall>b. branch_err E b \<le> 0) \<and> (\<forall>b. access_err E b \<le> 0) \<and> journal_start_err E \<le> 0"

section \<open>Places and paths\<close>

lemma node_single [simp]: "node s [x] = i_data s x"
  by (simp add: node_def)

lemma node_snoc: "pos \<noteq> [] \<Longrightarrow> node s (pos @ [x]) = (if node s pos = 0 then 0 else b_data s (node s pos) x)"
  by (simp add: node_def)

lemma node_zero_append: "pos \<noteq> [] \<Longrightarrow> node s pos = 0 \<Longrightarrow> node s (pos @ qs) = 0"
  by (induction qs rule: rev_induct) (simp_all add: node_snoc append_assoc [symmetric] del: append_assoc)

lemma node_take_zero:
  assumes "0 < m" and "m \<le> l" and "node s (take m offs) = 0" and "offs \<noteq> []"
  shows "node s (take l offs) = 0"
proof -
  have "take l offs = take m offs @ take (l - m) (drop m offs)" using assms(2) by (metis le_add_diff_inverse take_add)
  then show ?thesis using assms by (simp add: node_zero_append)
qed

lemma places_prefix: "q @ [x] \<in> tree_places k \<Longrightarrow> q \<noteq> [] \<Longrightarrow> q \<in> tree_places k"
  by (cases q) (auto simp: tree_places_def)

lemma places_take: "offs \<in> tree_places k \<Longrightarrow> 0 < n \<Longrightarrow> take n offs \<in> tree_places k"
  by (cases offs; cases n) (auto simp: tree_places_def dest: in_set_takeD)

definition path_ok :: "nat \<Rightarrow> nat list \<Rightarrow> nat \<Rightarrow> bool" where
  "path_ok k offs bound \<longleftrightarrow> offs \<in> tree_places k \<and> length offs = depth_of (hd offs) \<and>
     last offs + bound < (if length offs = 1 then EXT3_NDIR_BLOCKS else 2 ^ k)"

lemma div_mod_shift:
  fixes i j p :: nat
  assumes "i mod p + j < p"
  shows "(i + j) div p = i div p" and "(i + j) mod p = i mod p + j"
proof -
  have "i + j = i div p * p + (i mod p + j)" by (simp add: add.assoc [symmetric])
  then have "(i + j) div p = i div p + (i mod p + j) div p" and "(i + j) mod p = (i mod p + j) mod p"
    using assms by (metis div_mult_self3 not_less_zero, metis mod_mult_self3)
  then show "(i + j) div p = i div p" and "(i + j) mod p = i mod p + j" using assms by simp_all
qed

text \<open>The four ranges of \<^verbatim>\<open>ext3_block_to_path\<close>.\<close>

lemma path_direct: "i < 12 \<Longrightarrow> ext3_block_to_path k i = ([i], 11 - i mod 2 ^ k)"
  by (simp add: ext3_block_to_path_def ext3_consts Let_def)

lemma path_ind: "i < 2 ^ k \<Longrightarrow> ext3_block_to_path k (12 + i) = ([12, i], 2 ^ k - 1 - i mod 2 ^ k)"
  by (simp add: ext3_block_to_path_def ext3_consts Let_def)

lemma path_dind:
  "i < 2 ^ (k * 2) \<Longrightarrow>
   ext3_block_to_path k (12 + 2 ^ k + i) = ([13, i div 2 ^ k, i mod 2 ^ k], 2 ^ k - 1 - i mod 2 ^ k)"
  by (simp add: ext3_block_to_path_def ext3_consts Let_def)

lemma path_tind:
  "i div 2 ^ (k * 2) < 2 ^ k \<Longrightarrow> ext3_block_to_path k (12 + 2 ^ k + 2 ^ (k * 2) + i) =
   ([14, i div 2 ^ (k * 2), (i div 2 ^ k) mod 2 ^ k, i mod 2 ^ k], 2 ^ k - 1 - i mod 2 ^ k)"
  by (simp add: ext3_block_to_path_def ext3_consts Let_def)

lemma path_cases [consumes 1, case_names direct ind dind tind]:
  assumes "fst (ext3_block_to_path k blk) \<noteq> []"
  obtains "blk < 12"
    | i where "blk = 12 + i" and "i < 2 ^ k"
    | i where "blk = 12 + 2 ^ k + i" and "i < 2 ^ (k * 2)"
    | i where "blk = 12 + 2 ^ k + 2 ^ (k * 2) + i" and "i div 2 ^ (k * 2) < 2 ^ k"
proof -
  consider "blk < 12" | "12 \<le> blk" "blk - 12 < 2 ^ k" | "12 + 2 ^ k \<le> blk" "blk - 12 - 2 ^ k < 2 ^ (k * 2)"
    | "12 + 2 ^ k + 2 ^ (k * 2) \<le> blk" by linarith
  then show thesis
  proof cases
    case 4
    let ?i = "blk - 12 - 2 ^ k - 2 ^ (k * 2)"
    have b: "blk = 12 + 2 ^ k + 2 ^ (k * 2) + ?i" using 4 by simp
    have "?i div 2 ^ (k * 2) < 2 ^ k"
      using assms by (subst (asm) b) (auto simp: ext3_block_to_path_def ext3_consts Let_def split: if_splits)
    then show thesis using that(4) b by blast
  next
    case 2
    then show thesis using that(2) [of "blk - 12"] by simp
  next
    case 3
    then show thesis using that(3) [of "blk - 12 - 2 ^ k"] by simp
  qed (use that in blast)
qed

lemma mod_room: "(i :: nat) mod 2 ^ k + j < 2 ^ k" if "j \<le> 2 ^ k - 1 - i mod 2 ^ k"
proof -
  have "i mod 2 ^ k < 2 ^ k" by simp
  then show ?thesis using that by linarith
qed

lemma path_is_ok:
  assumes "ext3_block_to_path k blk = (offs, bound)" and "offs \<noteq> []" and "4 \<le> k"
  shows "path_ok k offs bound"
proof -
  have p16: "(2::nat) ^ 4 \<le> 2 ^ k" using assms(3) by (rule power_increasing) simp
  note simps = path_ok_def tree_places_def depth_of_def ext3_consts
  have "fst (ext3_block_to_path k blk) \<noteq> []" using assms by simp
  then show ?thesis
  proof (cases rule: path_cases)
    case direct
    then have "offs = [blk]" and "bound = 11 - blk" using assms(1) p16 path_direct [OF direct, of k] by auto
    then show ?thesis using direct by (simp add: simps)
  next
    case (ind i)
    then have "offs = [12, i]" and b: "bound = 2 ^ k - 1 - i mod 2 ^ k" using assms(1) path_ind [OF ind(2)] by auto
    moreover have "i mod 2 ^ k + bound < 2 ^ k" unfolding b by (rule mod_room) simp
    ultimately show ?thesis using ind(2) by (simp add: simps)
  next
    case (dind i)
    then have "offs = [13, i div 2 ^ k, i mod 2 ^ k]" and b: "bound = 2 ^ k - 1 - i mod 2 ^ k"
      using assms(1) path_dind [OF dind(2)] by auto
    moreover have "i div 2 ^ k < 2 ^ k" using dind(2) by (simp add: less_mult_imp_div_less mult_2_right power_add)
    moreover have "i mod 2 ^ k + bound < 2 ^ k" unfolding b by (rule mod_room) simp
    ultimately show ?thesis by (simp add: simps)
  next
    case (tind i)
    then have "offs = [14, i div 2 ^ (k * 2), (i div 2 ^ k) mod 2 ^ k, i mod 2 ^ k]" and b: "bound = 2 ^ k - 1 - i mod 2 ^ k"
      using assms(1) path_tind [OF tind(2)] by auto
    moreover have "i mod 2 ^ k + bound < 2 ^ k" unfolding b by (rule mod_room) simp
    ultimately show ?thesis using tind(2) by (simp add: simps)
  qed
qed

lemma path_shift:
  assumes "ext3_block_to_path k blk = (offs, bound)" and "offs \<noteq> []" and "j \<le> bound" and "4 \<le> k"
  shows "fst (ext3_block_to_path k (blk + j)) = butlast offs @ [last offs + j]"
proof -
  have p16: "(2::nat) ^ 4 \<le> 2 ^ k" using assms(4) by (rule power_increasing) simp
  have dbl: "(2::nat) ^ (k * 2) = 2 ^ k * 2 ^ k" by (simp add: mult_2_right power_add)
  have "fst (ext3_block_to_path k blk) \<noteq> []" using assms by simp
  then show ?thesis
  proof (cases rule: path_cases)
    case direct
    then have o: "offs = [blk]" and "bound = 11 - blk" using assms(1) p16 path_direct [OF direct, of k] by auto
    then have "blk + j < 12" using assms(3) direct by simp
    then show ?thesis using o by (simp add: path_direct)
  next
    case (ind i)
    have o: "offs = [12, i]" and "bound = 2 ^ k - 1 - i mod 2 ^ k" using assms(1) path_ind [OF ind(2)] ind(1) by auto
    then have "i + j < 2 ^ k" using assms(3) mod_room [of j k i] ind(2) by simp
    from path_ind [OF this] show ?thesis using o ind(1) by (simp add: add.assoc)
  next
    case (dind i)
    have o: "offs = [13, i div 2 ^ k, i mod 2 ^ k]" and "bound = 2 ^ k - 1 - i mod 2 ^ k"
      using assms(1) path_dind [OF dind(2)] dind(1) by auto
    then have "i mod 2 ^ k + j < 2 ^ k" using assms(3) by (intro mod_room) simp
    note sh = div_mod_shift [OF this]
    have "(i + j) div 2 ^ k < 2 ^ k" using sh(1) dind(2) by (simp add: less_mult_imp_div_less dbl)
    then have "i + j < 2 ^ (k * 2)" unfolding dbl by (simp add: div_less_iff_less_mult)
    from path_dind [OF this] show ?thesis using o dind(1) sh by (simp add: add.assoc)
  next
    case (tind i)
    have o: "offs = [14, i div 2 ^ (k * 2), (i div 2 ^ k) mod 2 ^ k, i mod 2 ^ k]" and "bound = 2 ^ k - 1 - i mod 2 ^ k"
      using assms(1) path_tind [OF tind(2)] tind(1) by auto
    then have "i mod 2 ^ k + j < 2 ^ k" using assms(3) by (intro mod_room) simp
    note sh = div_mod_shift [OF this]
    have e: "(i + j) div 2 ^ (k * 2) = i div 2 ^ (k * 2)" using sh(1) by (simp add: dbl div_mult2_eq)
    then have "(i + j) div 2 ^ (k * 2) < 2 ^ k" using tind(2) by simp
    from path_tind [OF this] show ?thesis using o tind(1) sh e by (simp add: add.assoc)
  qed
qed

text \<open>The path determines the block.\<close>

fun path_block :: "nat \<Rightarrow> nat list \<Rightarrow> nat" where
  "path_block k [i] = i"
| "path_block k [_, a] = 12 + a"
| "path_block k [_, a, b] = 12 + 2 ^ k + (a * 2 ^ k + b)"
| "path_block k [_, a, b, c] = 12 + 2 ^ k + 2 ^ (k * 2) + ((a * 2 ^ k + b) * 2 ^ k + c)"
| "path_block k _ = 0"

lemma path_block_path:
  assumes "fst (ext3_block_to_path k blk) \<noteq> []"
  shows "path_block k (fst (ext3_block_to_path k blk)) = blk"
  using assms
proof (cases rule: path_cases)
  case direct
  then show ?thesis by (simp add: path_direct)
next
  case (ind i)
  then show ?thesis using path_ind [OF ind(2)] by simp
next
  case (dind i)
  then show ?thesis using path_dind [OF dind(2)] div_mult_mod_eq [of i "2 ^ k"] by simp
next
  case (tind i)
  have "(2::nat) ^ (k * 2) = 2 ^ k * 2 ^ k" by (simp add: mult_2_right power_add)
  then have "i div 2 ^ (k * 2) = i div 2 ^ k div 2 ^ k" by (simp add: div_mult2_eq)
  then have "i div 2 ^ (k * 2) * 2 ^ k + i div 2 ^ k mod 2 ^ k = i div 2 ^ k" by (metis div_mult_mod_eq)
  then show ?thesis using path_tind [OF tind(2)] tind(1) div_mult_mod_eq [of i "2 ^ k"] by simp
qed

section \<open>Reading a branch\<close>

definition slot_of :: "'a ext3_inode \<Rightarrow> nat list \<Rightarrow> slot" where
  "slot_of s pos = (if length pos = 1 then InodeSlot (hd pos) else BlockSlot (node s (butlast pos)) (last pos))"

definition chain_of :: "'a ext3_inode \<Rightarrow> nat list \<Rightarrow> nat \<Rightarrow> indirect list" where
  "chain_of s offs n = map (\<lambda>i. \<lparr>ind_p = slot_of s (take (Suc i) offs), ind_key = node s (take (Suc i) offs)\<rparr>) [0..<n]"

lemma slot_read_of:
  assumes "pos \<noteq> []" and "length pos = 1 \<or> node s (butlast pos) \<noteq> 0"
  shows "slot_read s (slot_of s pos) = node s pos"
proof (cases "length pos = 1")
  case True
  then show ?thesis by (cases pos) (simp_all add: slot_of_def)
next
  case False
  then have "butlast pos \<noteq> []" using assms(1) by (cases pos) auto
  then have "node s (butlast pos @ [last pos]) = b_data s (node s (butlast pos)) (last pos)"
    using False assms(2) by (simp add: node_snoc)
  then show ?thesis using False assms(1) by (simp add: slot_of_def)
qed

lemma butlast_take_Suc: "i < length xs \<Longrightarrow> butlast (take (Suc i) xs) = take i xs"
  by (simp add: butlast_take)

text \<open>A chain read from the tree agrees with it, as long as the blocks before its last one exist.\<close>

definition upto_nonzero :: "'a ext3_inode \<Rightarrow> nat list \<Rightarrow> nat \<Rightarrow> bool" where
  "upto_nonzero s offs n \<longleftrightarrow> (\<forall>i. 0 < i \<and> i \<le> n \<longrightarrow> node s (take i offs) \<noteq> 0)"

lemma upto_nonzero_mono: "upto_nonzero s offs n \<Longrightarrow> m \<le> n \<Longrightarrow> upto_nonzero s offs m"
  unfolding upto_nonzero_def by (meson order_trans)

lemma upto_nonzeroD: "upto_nonzero s offs n \<Longrightarrow> 0 < i \<Longrightarrow> i \<le> n \<Longrightarrow> node s (take i offs) \<noteq> 0"
  unfolding upto_nonzero_def by blast

lemma verify_chain_of:
  assumes "n \<le> length offs" and "upto_nonzero s offs (n - 1)"
  shows "verify_chain s (chain_of s offs n)"
proof -
  have "slot_read s (slot_of s (take (Suc i) offs)) = node s (take (Suc i) offs)" if "i < n" for i
    using that assms by (intro slot_read_of) (auto simp: butlast_take_Suc upto_nonzero_def)
  then show ?thesis by (auto simp: verify_chain_def chain_of_def list_all_iff)
qed

text \<open>The outcome of \<^verbatim>\<open>ext3_get_branch\<close>: the chain up to the first missing block, or to a block that could not be
  read, or the whole chain.\<close>

definition branch_result :: "'a ext3_inode \<Rightarrow> nat list \<Rightarrow> indirect list \<times> bool \<times> errcode \<Rightarrow> bool" where
  "branch_result s offs r \<longleftrightarrow>
     (\<exists>m. 0 < m \<and> m \<le> length offs \<and> upto_nonzero s offs (m - 1) \<and>
        (r = (chain_of s offs m, False, - EIO) \<or>
         r = (chain_of s offs m, False, 0) \<and> node s (take m offs) = 0 \<or>
         r = (chain_of s offs m, True, 0) \<and> m = length offs \<and> node s offs \<noteq> 0))"

lemma branch_resultI:
  assumes "0 < m" and "m \<le> length offs" and "upto_nonzero s offs (m - 1)"
  shows "branch_result s offs (chain_of s offs m, False, - EIO)"
    and "node s (take m offs) = 0 \<Longrightarrow> branch_result s offs (chain_of s offs m, False, 0)"
    and "m = length offs \<Longrightarrow> node s offs \<noteq> 0 \<Longrightarrow> branch_result s offs (chain_of s offs m, True, 0)"
  using assms unfolding branch_result_def by blast+

lemma get_branch_from_run:
  assumes "0 < n" and "n \<le> length offs" and "upto_nonzero s offs n"
  shows "branch_result s offs (get_branch_from E s (chain_of s offs n) (drop n offs))"
  using assms
proof (induction "length offs - n" arbitrary: n)
  case 0
  then have n: "n = length offs" by simp
  then have "node s offs \<noteq> 0" "upto_nonzero s offs (n - 1)" using "0.prems" by (auto simp: upto_nonzero_def)
  then show ?case using branch_resultI(3) [of n offs s] n "0.prems"(1) by simp
next
  case (Suc l)
  then have n: "n < length offs" by simp
  let ?b = "node s (take n offs)" and ?c = "node s (take (Suc n) offs)"
  have last: "ind_key (last (chain_of s offs n)) = ?b"
    using Suc.prems(1) by (simp add: chain_of_def last_map)
  have z: "upto_nonzero s offs (n - 1)" "upto_nonzero s offs (Suc n - 1)" and b: "?b \<noteq> 0"
    using upto_nonzero_mono [OF Suc.prems(3)] upto_nonzeroD [OF Suc.prems(3,1)] by simp_all
  have v: "verify_chain s (chain_of s offs n)"
    by (rule verify_chain_of [OF Suc.prems(2) z(1)])
  have t: "take (Suc n) offs = take n offs @ [offs ! n]" using n by (simp add: take_Suc_conv_app_nth)
  have ne: "take n offs \<noteq> []" using n Suc.prems(1) by auto
  have c: "?c = b_data s ?b (offs ! n)" unfolding t by (simp only: node_snoc [OF ne] b if_False)
  have sl: "slot_of s (take (Suc n) offs) = BlockSlot ?b (offs ! n)"
    unfolding slot_of_def t using ne by simp
  have ac: "add_chain s (BlockSlot ?b (offs ! n)) = \<lparr>ind_p = slot_of s (take (Suc n) offs), ind_key = ?c\<rparr>"
    by (simp add: add_chain_def c sl)
  have snoc: "chain_of s offs n @ [\<lparr>ind_p = slot_of s (take (Suc n) offs), ind_key = ?c\<rparr>] = chain_of s offs (Suc n)"
    by (simp add: chain_of_def)
  have drop: "drop n offs = offs ! n # drop (Suc n) offs" using n by (simp add: Cons_nth_drop_Suc)
  consider "\<not> bread_ok E ?b" | "bread_ok E ?b" "?c = 0" | "bread_ok E ?b" "?c \<noteq> 0" by blast
  then show ?case
  proof cases
    case 1
    then have "get_branch_from E s (chain_of s offs n) (drop n offs) = (chain_of s offs n, False, - EIO)"
      by (simp add: drop last)
    then show ?thesis using branch_resultI(1) [of n offs s] n Suc.prems(1) z(1) by simp
  next
    case 2
    then have "get_branch_from E s (chain_of s offs n) (drop n offs) = (chain_of s offs (Suc n), False, 0)"
      using v snoc by (simp add: drop last ac Let_def)
    then show ?thesis using branch_resultI(2) [of "Suc n" offs s] n z(2) 2(2) by simp
  next
    case 3
    then have "get_branch_from E s (chain_of s offs n) (drop n offs) =
        get_branch_from E s (chain_of s offs (Suc n)) (drop (Suc n) offs)"
      using v by (simp add: drop last ac Let_def del: drop_Suc) (simp add: snoc)
    moreover have "upto_nonzero s offs (Suc n)" using Suc.prems(3) 3(2) by (auto simp: upto_nonzero_def le_Suc_eq)
    then have "branch_result s offs (get_branch_from E s (chain_of s offs (Suc n)) (drop (Suc n) offs))"
      using Suc.hyps(2) n by (intro Suc.hyps(1)) simp_all
    ultimately show ?thesis by (simp only:)
  qed
qed

lemma ext3_get_branch_run:
  assumes "offs \<noteq> []"
  shows "branch_result s offs (ext3_get_branch E s offs)"
proof -
  have t: "take (Suc 0) offs = [hd offs]" and d: "tl offs = drop 1 offs" using assms by (cases offs; simp)+
  have c: "[add_chain s (InodeSlot (hd offs))] = chain_of s offs 1"
    using assms by (cases offs) (simp_all add: add_chain_def chain_of_def slot_of_def)
  have "Suc 0 \<le> length offs" using assms by (simp add: Suc_le_eq)
  show ?thesis
  proof (cases "i_data s (hd offs) = 0")
    case True
    then have "ext3_get_branch E s offs = (chain_of s offs 1, False, 0)"
      using c by (simp add: ext3_get_branch_def add_chain_def Let_def)
    then show ?thesis using branch_resultI(2) [of 1 offs s] assms True t
      by (auto simp: upto_nonzero_def Suc_le_eq)
  next
    case False
    then have "ext3_get_branch E s offs = get_branch_from E s (chain_of s offs 1) (drop 1 offs)"
      using c d by (simp add: ext3_get_branch_def add_chain_def Let_def)
    moreover have "upto_nonzero s offs 1" using False t by (auto simp: upto_nonzero_def le_Suc_eq)
    ultimately show ?thesis using assms get_branch_from_run [of 1 offs s E] by (simp add: Suc_le_eq)
  qed
qed

section \<open>New blocks are fresh\<close>

definition fresh_branch :: "nat set \<Rightarrow> nat list \<Rightarrow> nat \<Rightarrow> bool" where
  "fresh_branch U nb num \<longleftrightarrow> nb \<noteq> [] \<and> 0 < num \<and> distinct (butlast nb) \<and> 0 \<notin> set nb \<and>
     set (butlast nb) \<inter> U = {} \<and> {last nb..<last nb + num} \<inter> (U \<union> set (butlast nb)) = {}"

lemma used_free_each:
  assumes "ext3_env_ok E"
  shows "used E (free_each E bs a) = used E a - set bs"
proof -
  have f: "used E (free_blocks E a b n) = used E a - {b..<b + n}" for a b n using assms by (simp add: ext3_env_ok_def)
  show ?thesis unfolding free_each_def by (induction bs arbitrary: a) (auto simp: f)
qed

lemma new_blocks_ok:
  assumes "ext3_env_ok E" and "0 < n" and "new_blocks E a goal n = (err, st, got, a')"
  shows "err \<noteq> 0 \<Longrightarrow> err < 0 \<and> used E a' = used E a"
    and "err = 0 \<Longrightarrow> 0 < got \<and> got \<le> n \<and> 0 < st \<and> {st..<st + got} \<inter> used E a = {} \<and>
           used E a' = used E a \<union> {st..<st + got}"
proof -
  have "new_blocks_post E a n (err, st, got, a')" using assms unfolding ext3_env_ok_def by metis
  then show "err \<noteq> 0 \<Longrightarrow> err < 0 \<and> used E a' = used E a"
    and "err = 0 \<Longrightarrow> 0 < got \<and> got \<le> n \<and> 0 < st \<and> {st..<st + got} \<inter> used E a = {} \<and>
           used E a' = used E a \<union> {st..<st + got}" by (simp_all add: new_blocks_post_def)
qed

lemma alloc_loop_ok:
  assumes E: "ext3_env_ok E" and "0 < blks"
  shows "k < f \<Longrightarrow> used E a = U \<union> set acc \<Longrightarrow> set acc \<inter> U = {} \<Longrightarrow> distinct acc \<Longrightarrow> 0 \<notin> set acc \<Longrightarrow>
    alloc_loop f E goal k (blks + k) acc a = (err, nb, num, a') \<Longrightarrow>
    (if err = 0 then length nb = length acc + k + 1 \<and> num \<le> blks \<and> fresh_branch U nb num \<and>
                     used E a' = U \<union> set (butlast nb) \<union> {last nb..<last nb + num}
     else err < 0 \<and> used E a' = U)"
proof (induction f arbitrary: k acc a)
  case 0
  then show ?case by simp
next
  case (Suc f)
  obtain e cur got a1 where n: "new_blocks E a goal (blks + k) = (e, cur, got, a1)" using prod_cases4 by blast
  have pos: "0 < blks + k" using assms(2) by simp
  note ok = new_blocks_ok [OF E pos n]
  show ?case
  proof (cases "e = 0")
    case False
    then show ?thesis using Suc.prems n ok(1) used_free_each [OF E, of acc a1] by auto
  next
    case True
    note g = ok(2) [OF True]
    show ?thesis
    proof (cases "k < got")
      case True
      have nb: "nb = (acc @ [cur..<cur + k]) @ [cur + k]" "num = got - k" "a' = a1" "err = 0"
        using Suc.prems(6) n \<open>e = 0\<close> True by simp_all
      have sp: "{cur..<cur + got} = set [cur..<cur + k] \<union> {cur + k..<cur + got}" using True by auto
      have cov: "used E a1 = U \<union> set (acc @ [cur..<cur + k]) \<union> {cur + k..<cur + k + (got - k)}"
        using g sp Suc.prems(2) True by auto
      have "{cur..<cur + got} \<inter> (U \<union> set acc) = {}" using g Suc.prems(2) by simp
      then have dis: "x \<notin> U" "x \<notin> set acc" if "cur \<le> x" "x < cur + got" for x using that by auto
      have d: "distinct (acc @ [cur..<cur + k])" using Suc.prems(4) dis(2) True by fastforce
      have u: "set (acc @ [cur..<cur + k]) \<inter> U = {}" using Suc.prems(3) dis(1) True by fastforce
      have r: "{cur + k..<cur + k + (got - k)} \<inter> (U \<union> set (acc @ [cur..<cur + k])) = {}" using dis True by fastforce
      have z: "0 \<notin> set ((acc @ [cur..<cur + k]) @ [cur + k])" using Suc.prems(5) g by simp
      have "fresh_branch U nb num" unfolding fresh_branch_def nb butlast_snoc last_snoc using d u r z g True by simp
      moreover have "got - k \<le> blks" using g by linarith
      ultimately show ?thesis using cov by (simp add: nb butlast_append)
    next
      case False
      let ?acc = "acc @ [cur..<cur + got]"
      have "alloc_loop f E goal (k - got) (blks + (k - got)) ?acc a1 = (err, nb, num, a')"
        using Suc.prems(6) n \<open>e = 0\<close> False by simp
      moreover have "k - got < f" using Suc.prems(1) g False by linarith
      moreover have "used E a1 = U \<union> set ?acc" using Suc.prems(2) g by (simp add: Un_assoc)
      moreover have "{cur..<cur + got} \<inter> (U \<union> set acc) = {}" using g Suc.prems(2) by simp
      then have "set ?acc \<inter> U = {}" "distinct ?acc" using Suc.prems(3,4) by auto
      moreover have "0 \<notin> set ?acc" using Suc.prems(5) g by simp
      moreover have "length ?acc + (k - got) = length acc + k" using False by simp
      ultimately show ?thesis using Suc.IH [of "k - got" a1 ?acc] by simp
    qed
  qed
qed

lemma write_branch_run:
  assumes "write_branch E nb offs num s = (0, s')" and "length nb = Suc k" and "k \<le> length offs" and "distinct (butlast nb)"
  shows "i_data s' = i_data s \<and> e3_alloc s' = e3_alloc s \<and> i_block_alloc_info s' = i_block_alloc_info s \<and>
    (\<forall>b. b \<notin> set (butlast nb) \<longrightarrow> b_data s' b = b_data s b) \<and>
    (\<forall>i < k. b_data s' (nb ! i) = run_content (offs ! i) (if Suc i = k then num else 1) (nb ! Suc i))"
  using assms
proof (induction k arbitrary: nb offs s)
  case 0
  then show ?case by (cases nb) auto
next
  case (Suc k)
  obtain b c bs where nb: "nb = b # c # bs" using Suc.prems(2) by (metis length_Suc_conv)
  obtain off os where offs: "offs = off # os" using Suc.prems(3) by (cases offs) simp_all
  let ?n = "if bs = [] then num else 1"
  let ?s = "s\<lparr>b_data := (b_data s)(b := run_content off ?n c)\<rparr>"
  have w: "write_branch E (c # bs) os num ?s = (0, s')"
    using Suc.prems(1) by (simp add: nb offs Let_def split: if_splits)
  have d: "distinct (butlast (c # bs))" "b \<notin> set (butlast (c # bs))" using Suc.prems(4) by (simp_all add: nb)
  have "length (c # bs) = Suc k" "k \<le> length os" using Suc.prems(2,3) by (simp_all add: nb offs)
  note IH = Suc.IH [OF w this d(1)]
  have "bs = [] \<longleftrightarrow> k = 0" using Suc.prems(2) by (auto simp: nb)
  then have b0: "b_data s' b = run_content off (if Suc 0 = Suc k then num else 1) c"
    using IH d(2) by auto
  have "b_data s' (nb ! i) = run_content (offs ! i) (if Suc i = Suc k then num else 1) (nb ! Suc i)" if "i < Suc k" for i
    using that IH b0 by (cases i) (simp_all add: nb offs)
  then show ?case using IH by (simp add: nb)
qed

lemma write_branch_fail:
  assumes "write_branch E nb offs num s = (err, s')"
  shows "i_data s' = i_data s \<and> e3_alloc s' = e3_alloc s \<and> i_block_alloc_info s' = i_block_alloc_info s \<and>
    (\<forall>b. b \<notin> set (butlast nb) \<longrightarrow> b_data s' b = b_data s b)"
  using assms
  by (induction E nb offs num s rule: write_branch.induct) (auto simp: Let_def split: if_splits)

section \<open>The tree after a branch is spliced in\<close>

text \<open>The first missing place of the path is \<open>take m offs\<close>.  The new blocks \<open>nb\<close> go to the places of the path from
  there on, the last of them with the \<open>num - 1\<close> places beside it.\<close>

definition new_node :: "nat \<Rightarrow> nat list \<Rightarrow> nat list \<Rightarrow> nat \<Rightarrow> nat list \<Rightarrow> nat option" where
  "new_node m offs nb num pos =
     (let l = length pos - 1 in
      if m \<le> length pos \<and> length pos \<le> length offs \<and> pos \<noteq> [] \<and> butlast pos = take l offs \<and> offs ! l \<le> last pos \<and>
         last pos < offs ! l + (if length pos = length offs then num else 1)
      then Some (nb ! (length pos - m) + (last pos - offs ! l)) else None)"

text \<open>The stores of \<^verbatim>\<open>ext3_alloc_branch\<close> and \<^verbatim>\<open>ext3_splice_branch\<close> together.\<close>

definition spliced :: "'a ext3_inode \<Rightarrow> nat \<Rightarrow> nat list \<Rightarrow> nat list \<Rightarrow> nat \<Rightarrow> 'a ext3_inode \<Rightarrow> bool" where
  "spliced s m offs nb num s' \<longleftrightarrow>
     (let o0 = offs ! (m - 1); n0 = (if m = length offs then num else 1) in
     (\<forall>x. i_data s' x = (if m = 1 \<and> o0 \<le> x \<and> x < o0 + n0 then hd nb + (x - o0) else i_data s x)) \<and>
     (\<forall>b x. b \<notin> set (butlast nb) \<longrightarrow>
        b_data s' b x = (if 1 < m \<and> b = node s (take (m - 1) offs) \<and> o0 \<le> x \<and> x < o0 + n0
                         then hd nb + (x - o0) else b_data s b x)) \<and>
     (\<forall>i < length offs - m. b_data s' (nb ! i) =
        run_content (offs ! (m + i)) (if Suc (m + i) = length offs then num else 1) (nb ! Suc i)))"

lemma splicedD:
  assumes "spliced s m offs nb num s'"
  shows "i_data s' x = (if m = 1 \<and> offs ! (m - 1) \<le> x \<and> x < offs ! (m - 1) + (if m = length offs then num else 1)
           then hd nb + (x - offs ! (m - 1)) else i_data s x)"
    and "b \<notin> set (butlast nb) \<Longrightarrow> b_data s' b x =
          (if 1 < m \<and> b = node s (take (m - 1) offs) \<and> offs ! (m - 1) \<le> x \<and>
              x < offs ! (m - 1) + (if m = length offs then num else 1)
           then hd nb + (x - offs ! (m - 1)) else b_data s b x)"
    and "i < length offs - m \<Longrightarrow> b_data s' (nb ! i) =
        run_content (offs ! (m + i)) (if Suc (m + i) = length offs then num else 1) (nb ! Suc i)"
  using assms unfolding spliced_def Let_def by blast+

lemma new_node_snoc:
  "new_node m offs nb num (q @ [x]) =
     (if m \<le> Suc (length q) \<and> Suc (length q) \<le> length offs \<and> q = take (length q) offs \<and> offs ! length q \<le> x \<and>
         x < offs ! length q + (if Suc (length q) = length offs then num else 1)
      then Some (nb ! (Suc (length q) - m) + (x - offs ! length q)) else None)"
  by (simp add: new_node_def Let_def)

lemma new_node_path:
  assumes "m \<le> l" and "0 < l" and "l \<le> length offs" and "l < length offs \<or> 0 < num"
  shows "new_node m offs nb num (take l offs) = Some (nb ! (l - m))"
proof -
  obtain l' where l: "l = Suc l'" using assms(2) by (cases l) auto
  have t: "take l offs = take l' offs @ [offs ! l']" using assms(3) l by (simp add: take_Suc_conv_app_nth)
  show ?thesis unfolding t new_node_snoc using assms l by auto
qed

lemma leaf_no_child:
  assumes "path_ok k offs bound" and "num \<le> bound + 1" and "new_node m offs nb num q = Some v"
    and "q @ [x] \<in> tree_places k" and "0 < m"
  shows "length q < length offs \<and> q = take (length q) offs"
proof -
  obtain p y where q: "q = p @ [y]" using assms(3) by (cases q rule: rev_cases) (auto simp: new_node_def)
  have n: "Suc (length p) \<le> length offs" "p = take (length p) offs" "offs ! length p \<le> y"
    "y < offs ! length p + (if Suc (length p) = length offs then num else 1)"
    using assms(3) by (simp_all add: q new_node_snoc split: if_splits)
  have "Suc (length p) \<noteq> length offs"
  proof
    assume e: "Suc (length p) = length offs"
    then have l: "last offs = offs ! length p" by (metis diff_Suc_1 last_conv_nth list.size(3) nat.distinct(1))
    have "hd q = hd offs \<or> length offs = 1 \<and> hd q < EXT3_NDIR_BLOCKS"
    proof (cases p)
      case Nil
      then show ?thesis using n(4) e l assms(1,2) by (simp add: q path_ok_def)
    next
      case (Cons a p')
      then show ?thesis using n(2) by (metis append_Cons hd_take length_greater_0_conv list.distinct(1) list.sel(1) q)
    qed
    then have "depth_of (hd q) = length offs"
      using assms(1) by (auto simp: path_ok_def depth_of_def)
    moreover have "Suc (length q) \<le> depth_of (hd q)" using assms(4) by (cases p) (simp_all add: tree_places_def q)
    ultimately show False using e by (simp add: q)
  qed
  moreover from this have "q = take (length q) offs"
    using n by (simp add: q take_Suc_conv_app_nth)
  ultimately show ?thesis using n(1) by (simp add: q)
qed

text \<open>The situation in which \<^verbatim>\<open>ext3_get_blocks_handle\<close> allocates.\<close>

definition splice_pre :: "'a ext3_env \<Rightarrow> 'a ext3_inode \<Rightarrow> nat \<Rightarrow> nat list \<Rightarrow> nat \<Rightarrow> nat list \<Rightarrow> nat \<Rightarrow> bool" where
  "splice_pre E s m offs bound nb num \<longleftrightarrow>
     ext3_inv E s \<and> path_ok (addr_bits E) offs bound \<and> 0 < m \<and> m \<le> length offs \<and> upto_nonzero s offs (m - 1) \<and>
     node s (take m offs) = 0 \<and> length nb = Suc (length offs - m) \<and> num \<le> bound + 1 \<and>
     fresh_branch (used E (e3_alloc s)) nb num"

lemma nb_nth:
  assumes "splice_pre E s m offs bound nb num" and "i < length offs - m"
  shows "nb ! i \<noteq> 0"
proof -
  have "i < length nb" "0 \<notin> set nb" using assms by (simp_all add: splice_pre_def fresh_branch_def)
  then show ?thesis by (metis nth_mem)
qed

lemma inv_old_block:
  assumes "splice_pre E s m offs bound nb num" and "q \<in> tree_places (addr_bits E)" and "node s q \<noteq> 0"
  shows "node s q \<notin> set (butlast nb)"
  using assms unfolding splice_pre_def ext3_inv_def fresh_branch_def by blast

lemma parent_unique:
  assumes "splice_pre E s m offs bound nb num" and "1 < m" and "q \<in> tree_places (addr_bits E)" and "node s q \<noteq> 0"
  shows "node s q = node s (take (m - 1) offs) \<longleftrightarrow> q = take (m - 1) offs"
proof -
  have "take (m - 1) offs \<in> tree_places (addr_bits E)" "node s (take (m - 1) offs) \<noteq> 0"
    using assms(1,2) places_take [of offs _ "m - 1"] upto_nonzeroD [of s offs "m - 1" "m - 1"]
    by (auto simp: splice_pre_def path_ok_def)
  then show ?thesis
    using assms(1,3,4) unfolding splice_pre_def ext3_inv_def inj_on_def by blast
qed

text \<open>The child of a place that the branch fills, and the child of any other place.\<close>

lemma node_under_new:
  assumes pre: "splice_pre E s m offs bound nb num" and sp: "spliced s m offs nb num s'"
    and pos: "q @ [x] \<in> tree_places (addr_bits E)" and "q \<noteq> []"
    and new: "new_node m offs nb num q = Some v" and "node s' q = v"
  shows "node s' (q @ [x]) = (case new_node m offs nb num (q @ [x]) of Some v \<Rightarrow> v | None \<Rightarrow> node s (q @ [x]))"
proof -
  have m: "0 < m" using pre by (simp add: splice_pre_def)
  have l: "length q < length offs" "q = take (length q) offs"
    using leaf_no_child [OF _ _ new pos m] pre by (auto simp: splice_pre_def)
  have ml: "m \<le> length q" using new by (auto simp: new_node_def Let_def split: if_splits)
  define i where "i = length q - m"
  have i: "i < length offs - m" "m + i = length q" using l(1) ml by (auto simp: i_def)
  have "new_node m offs nb num (take (length q) offs) = Some (nb ! i)"
    unfolding i_def by (rule new_node_path) (use ml l(1) assms(4) in auto)
  then have v: "v = nb ! i" using new l(2) by simp
  have "node s (take (length q) offs) = 0"
    by (rule node_take_zero [OF m ml]) (use pre m in \<open>auto simp: splice_pre_def\<close>)
  then have z: "node s (q @ [x]) = 0" using l(2) assms(4) node_zero_append [of q s "[x]"] by simp
  have "node s' (q @ [x]) = run_content (offs ! length q) (if Suc (length q) = length offs then num else 1) (nb ! Suc i) x"
    unfolding node_snoc [OF assms(4)] assms(6) v using nb_nth [OF pre i(1)] splicedD(3) [OF sp i(1)] i(2) by simp
  then show ?thesis
    unfolding new_node_snoc z using l ml i by (auto simp: run_content_def Suc_diff_le i_def)
qed

lemma node_under_old:
  assumes pre: "splice_pre E s m offs bound nb num" and sp: "spliced s m offs nb num s'"
    and q: "q \<in> tree_places (addr_bits E)" and "q \<noteq> []" and none: "new_node m offs nb num q = None" and "node s' q = node s q"
  shows "node s' (q @ [x]) = (case new_node m offs nb num (q @ [x]) of Some v \<Rightarrow> v | None \<Rightarrow> node s (q @ [x]))"
proof -
  have m: "0 < m" "m \<le> length offs" and nb0: "hd nb = nb ! 0"
    using pre by (auto simp: splice_pre_def hd_conv_nth fresh_branch_def)
  have far: "m = Suc (length q)" if "q = take (length q) offs" "Suc (length q) \<le> length offs" "m \<le> Suc (length q)"
    using that new_node_path [of m "length q" offs num nb] none assms(4) by (cases "m = Suc (length q)") auto
  show ?thesis
  proof (cases "node s q = 0")
    case True
    have "new_node m offs nb num (q @ [x]) = None"
    proof (rule ccontr)
      assume "\<not> ?thesis"
      then have h: "q = take (length q) offs" "Suc (length q) \<le> length offs" "m \<le> Suc (length q)"
        unfolding new_node_snoc by (auto split: if_splits)
      then have "m - 1 = length q" "0 < m - 1" using far [OF h] assms(4) by auto
      then have "node s q \<noteq> 0" using pre h(1) upto_nonzeroD [of s offs "m - 1" "m - 1"] by (auto simp: splice_pre_def)
      then show False using True by simp
    qed
    then show ?thesis using True assms(6) by (simp add: node_snoc [OF assms(4)])
  next
    case nz: False
    have b: "node s q \<notin> set (butlast nb)" by (rule inv_old_block [OF pre q nz])
    have u: "1 < m \<Longrightarrow> node s q = node s (take (m - 1) offs) \<longleftrightarrow> q = take (m - 1) offs"
      by (rule parent_unique [OF pre _ q nz])
    have here: "q = take (m - 1) offs \<and> 1 < m \<longleftrightarrow> m = Suc (length q) \<and> q = take (length q) offs"
      using m assms(4) by (auto simp: min_def)
    have eq: "node s' (q @ [x]) = b_data s' (node s q) x" "node s (q @ [x]) = b_data s (node s q) x"
      using nz assms(6) by (simp_all add: node_snoc [OF assms(4)])
    show ?thesis
    proof (cases "m = Suc (length q) \<and> q = take (length q) offs")
      case True
      then show ?thesis unfolding eq splicedD(2) [OF sp b] new_node_snoc using here u m(2) nb0 by auto
    next
      case False
      then have "new_node m offs nb num (q @ [x]) = None" using far unfolding new_node_snoc by auto
      then show ?thesis unfolding eq splicedD(2) [OF sp b] using here u False by auto
    qed
  qed
qed

lemma node_spliced:
  assumes pre: "splice_pre E s m offs bound nb num" and sp: "spliced s m offs nb num s'"
    and "pos \<in> tree_places (addr_bits E)"
  shows "node s' pos = (case new_node m offs nb num pos of Some v \<Rightarrow> v | None \<Rightarrow> node s pos)"
  using assms(3)
proof (induction pos rule: rev_induct)
  case Nil
  then show ?case by (simp add: tree_places_def)
next
  case (snoc x q)
  show ?case
  proof (cases "q = []")
    case True
    have "0 < m" "m \<le> length offs" "hd nb = nb ! 0"
      using pre by (auto simp: splice_pre_def hd_conv_nth fresh_branch_def)
    then show ?thesis
      unfolding True append_Nil node_single new_node_snoc [of m offs nb num "[]", simplified] splicedD(1) [OF sp] by auto
  next
    case False
    have q: "q \<in> tree_places (addr_bits E)" by (rule places_prefix [OF snoc.prems False])
    show ?thesis
      using snoc.IH [OF q] node_under_new [OF pre sp snoc.prems False] node_under_old [OF pre sp q False]
      by (cases "new_node m offs nb num q") auto
  qed
qed

definition new_set :: "nat list \<Rightarrow> nat \<Rightarrow> nat set" where
  "new_set nb num = set (butlast nb) \<union> {last nb..<last nb + num}"

lemma new_node_cases:
  assumes "splice_pre E s m offs bound nb num" and "new_node m offs nb num pos = Some v"
  shows "(\<exists>i < length offs - m. v = nb ! i \<and> pos = take (m + i) offs) \<or>
         (\<exists>j < num. v = last nb + j \<and> pos = butlast offs @ [last offs + j])"
proof -
  have nb: "length nb = Suc (length offs - m)" using assms(1) by (simp add: splice_pre_def)
  have "pos \<noteq> []" using assms(2) by (auto simp: new_node_def Let_def)
  then obtain q x where pos: "pos = q @ [x]" by (cases pos rule: rev_cases) auto
  let ?l = "length q"
  have n: "m \<le> Suc ?l" "Suc ?l \<le> length offs" "q = take ?l offs" "offs ! ?l \<le> x"
    "x < offs ! ?l + (if Suc ?l = length offs then num else 1)" "v = nb ! (Suc ?l - m) + (x - offs ! ?l)"
    using assms(2) unfolding pos new_node_snoc by (auto split: if_splits)
  show ?thesis
  proof (cases "Suc ?l = length offs")
    case True
    then have ne: "offs \<noteq> []" "nb \<noteq> []" using nb by auto
    have "last offs = offs ! ?l" using ne(1) True [symmetric] by (simp add: last_conv_nth)
    moreover have "last nb = nb ! (Suc ?l - m)" using ne(2) nb True by (simp add: last_conv_nth)
    moreover have "butlast offs = q" using n(3) True [symmetric] by (simp add: butlast_conv_take)
    ultimately show ?thesis using n(4-6) True unfolding pos by (intro disjI2 exI [of _ "x - offs ! ?l"]) simp
  next
    case False
    have "take (Suc ?l) offs = take ?l offs @ [offs ! ?l]" using n(2) by (simp add: take_Suc_conv_app_nth)
    moreover have "x = offs ! ?l" using n(4,5) False by simp
    ultimately have "pos = take (Suc ?l) offs" using n(3) pos by simp
    then show ?thesis using n False \<open>x = offs ! ?l\<close> by (intro disjI1 exI [of _ "Suc ?l - m"]) simp
  qed
qed

lemma nb_butlast:
  assumes "length nb = Suc k" and "i < k"
  shows "nb ! i = butlast nb ! i" and "i < length (butlast nb)" and "nb ! i \<in> set (butlast nb)"
proof -
  show "nb ! i = butlast nb ! i" and l: "i < length (butlast nb)" using assms by (simp_all add: nth_butlast)
  then show "nb ! i \<in> set (butlast nb)" using nth_mem [OF l] by simp
qed

lemma new_node_in:
  assumes "splice_pre E s m offs bound nb num" and "new_node m offs nb num pos = Some v"
  shows "v \<in> new_set nb num" and "v \<noteq> 0"
proof -
  have f: "length nb = Suc (length offs - m)" "0 \<notin> set nb" "nb \<noteq> []" using assms(1) by (auto simp: splice_pre_def fresh_branch_def)
  have i: "nb ! i \<in> set (butlast nb)" "nb ! i \<noteq> 0" if "i < length offs - m" for i
    using nb_butlast(3) [OF f(1) that] f(2) in_set_butlastD by metis+
  have l: "last nb \<noteq> 0" using f last_in_set by metis
  from new_node_cases [OF assms] have "v \<in> new_set nb num \<and> v \<noteq> 0"
  proof (elim disjE exE conjE)
    fix j assume "j < num" "v = last nb + j"
    then show ?thesis using l by (simp add: new_set_def)
  qed (use i in \<open>simp add: new_set_def\<close>)
  then show "v \<in> new_set nb num" and "v \<noteq> 0" by simp_all
qed

lemma new_node_inj:
  assumes pre: "splice_pre E s m offs bound nb num"
    and "new_node m offs nb num p = Some v" and "new_node m offs nb num q = Some v"
  shows "p = q"
proof -
  have f: "length nb = Suc (length offs - m)" "distinct (butlast nb)" "{last nb..<last nb + num} \<inter> set (butlast nb) = {}"
    using pre by (auto simp: splice_pre_def fresh_branch_def)
  have disj: "nb ! i \<noteq> last nb + j" if "i < length offs - m" "j < num" for i j
  proof
    assume e: "nb ! i = last nb + j"
    have "nb ! i \<in> set (butlast nb)" by (rule nb_butlast(3) [OF f(1) that(1)])
    moreover have "nb ! i \<in> {last nb..<last nb + num}" using e that(2) by simp
    ultimately show False using f(3) by blast
  qed
  have idx: "i = j" if "i < length offs - m" "j < length offs - m" "nb ! i = nb ! j" for i j
    using that nb_butlast [OF f(1) that(1)] nb_butlast [OF f(1) that(2)] nth_eq_iff_index_eq [OF f(2), of i j] by simp
  from new_node_cases [OF pre assms(2)] show ?thesis
  proof (elim disjE exE conjE)
    fix i assume i: "i < length offs - m" "v = nb ! i" "p = take (m + i) offs"
    from new_node_cases [OF pre assms(3)] show ?thesis
    proof (elim disjE exE conjE)
      fix i' assume "i' < length offs - m" "v = nb ! i'" "q = take (m + i') offs"
      then show ?thesis using idx [OF i(1), of i'] i by simp
    next
      fix j assume "j < num" "v = last nb + j"
      then show ?thesis using disj [OF i(1)] i(2) by simp
    qed
  next
    fix j assume j: "j < num" "v = last nb + j" "p = butlast offs @ [last offs + j]"
    from new_node_cases [OF pre assms(3)] show ?thesis
    proof (elim disjE exE conjE)
      fix i assume i: "i < length offs - m" "v = nb ! i"
      then show ?thesis using disj [OF i(1) j(1)] j(2) by simp
    qed (use j in simp)
  qed
qed

lemma inv_spliced:
  assumes pre: "splice_pre E s m offs bound nb num" and sp: "spliced s m offs nb num s'"
    and u: "used E (e3_alloc s') = used E (e3_alloc s) \<union> new_set nb num"
  shows "ext3_inv E s'"
proof -
  let ?P = "tree_places (addr_bits E)"
  have inv: "pos \<in> ?P \<Longrightarrow> node s pos \<noteq> 0 \<Longrightarrow> node s pos \<in> used E (e3_alloc s)"
    "inj_on (node s) {pos \<in> ?P. node s pos \<noteq> 0}" for pos
    using pre by (auto simp: splice_pre_def ext3_inv_def)
  have dis: "new_set nb num \<inter> used E (e3_alloc s) = {}"
    using pre by (auto simp: splice_pre_def fresh_branch_def new_set_def)
  note ns = node_spliced [OF pre sp] and nn = new_node_in [OF pre]
  have "node s' pos \<in> used E (e3_alloc s')" if "pos \<in> ?P" "node s' pos \<noteq> 0" for pos
    using that ns [OF that(1)] nn inv(1) u by (cases "new_node m offs nb num pos") auto
  moreover have mix: "v \<noteq> node s q" if "new_node m offs nb num p = Some v" "q \<in> ?P" for p q v
    using nn [OF that(1)] inv(1) [OF that(2)] dis by (cases "node s q = 0") auto
  have "p = q" if "p \<in> ?P" "q \<in> ?P" "node s' p \<noteq> 0" "node s' p = node s' q" for p q
  proof (cases "new_node m offs nb num p"; cases "new_node m offs nb num q")
    fix v w
    assume a: "new_node m offs nb num p = Some v" "new_node m offs nb num q = Some w"
    then have "v = w" using that ns by simp
    then show ?thesis using new_node_inj [OF pre] a by blast
  next
    assume a: "new_node m offs nb num p = None" "new_node m offs nb num q = None"
    then show ?thesis using that ns inv(2) by (simp add: inj_on_def)
  qed (use that ns [OF that(1)] ns [OF that(2)] mix in auto)
  ultimately show ?thesis unfolding ext3_inv_def inj_on_def by blast
qed

lemma free_branch_keeps:
  assumes "ext3_env_ok E" and "used E (e3_alloc s) = U \<union> new_set nb num" and "U \<inter> new_set nb num = {}"
  shows "used E (e3_alloc (free_branch E nb num s)) = U" and "i_data (free_branch E nb num s) = i_data s"
    and "b_data (free_branch E nb num s) = b_data s"
proof -
  have "used E (free_blocks E a b n) = used E a - {b..<b + n}" for a b n using assms(1) by (simp add: ext3_env_ok_def)
  then show "used E (e3_alloc (free_branch E nb num s)) = U"
    using assms(2,3) used_free_each [OF assms(1)] by (auto simp: free_branch_def new_set_def)
qed (simp_all add: free_branch_def)

text \<open>Stores to blocks outside the tree do not change it.\<close>

lemma node_cong:
  assumes "ext3_inv E s" and "i_data s' = i_data s" and "\<forall>b \<in> used E (e3_alloc s). b_data s' b = b_data s b"
    and "pos \<in> tree_places (addr_bits E)"
  shows "node s' pos = node s pos"
  using assms(4)
proof (induction pos rule: rev_induct)
  case Nil
  then show ?case by (simp add: tree_places_def)
next
  case (snoc x q)
  show ?case
  proof (cases "q = []")
    case False
    have q: "q \<in> tree_places (addr_bits E)" by (rule places_prefix [OF snoc.prems False])
    then have "node s q \<noteq> 0 \<Longrightarrow> b_data s' (node s q) = b_data s (node s q)"
      using assms(1,3) by (auto simp: ext3_inv_def)
    then show ?thesis using snoc.IH [OF q] by (simp add: node_snoc [OF False])
  qed (simp add: assms(2))
qed

lemma inv_cong:
  assumes "ext3_inv E s" and "i_data s' = i_data s" and "\<forall>b \<in> used E (e3_alloc s). b_data s' b = b_data s b"
    and "used E (e3_alloc s') = used E (e3_alloc s)"
  shows "ext3_inv E s'"
proof -
  have n: "pos \<in> tree_places (addr_bits E) \<Longrightarrow> node s' pos = node s pos" for pos by (rule node_cong [OF assms(1-3)])
  then have "{pos \<in> tree_places (addr_bits E). node s' pos \<noteq> 0} = {pos \<in> tree_places (addr_bits E). node s pos \<noteq> 0}" by auto
  then show ?thesis using assms(1,4) n unfolding ext3_inv_def by (auto simp: inj_on_def)
qed

section \<open>Allocation keeps the tree\<close>

lemma env_signs:
  assumes "ext3_env_ok E"
  shows "dirty_err E b = 0" "branch_err E b \<le> 0" "access_err E b \<le> 0" "journal_start_err E \<le> 0" "4 \<le> addr_bits E"
  using assms by (simp_all add: ext3_env_ok_def)

lemma write_branch_err: "ext3_env_ok E \<Longrightarrow> write_branch E nb offs num s = (err, s') \<Longrightarrow> err \<le> 0"
  by (induction E nb offs num s rule: write_branch.induct) (auto simp: env_signs Let_def split: if_splits)

lemma fresh_disjoint: "fresh_branch U nb num \<Longrightarrow> U \<inter> new_set nb num = {}"
  by (auto simp: fresh_branch_def new_set_def)

definition branch_made :: "'a ext3_env \<Rightarrow> 'a ext3_inode \<Rightarrow> nat \<Rightarrow> nat list \<Rightarrow> nat \<Rightarrow> nat list \<Rightarrow> nat \<Rightarrow> 'a ext3_inode \<Rightarrow> bool" where
  "branch_made E s k offs blks nb num s' \<longleftrightarrow>
     length nb = Suc k \<and> num \<le> blks \<and> fresh_branch (used E (e3_alloc s)) nb num \<and>
     used E (e3_alloc s') = used E (e3_alloc s) \<union> new_set nb num \<and> i_data s' = i_data s \<and>
     (\<forall>b. b \<notin> set (butlast nb) \<longrightarrow> b_data s' b = b_data s b) \<and>
     (\<forall>i < k. b_data s' (nb ! i) = run_content (offs ! Suc i) (if Suc i = k then num else 1) (nb ! Suc i))"

definition unchanged :: "'a ext3_env \<Rightarrow> 'a ext3_inode \<Rightarrow> 'a ext3_inode \<Rightarrow> bool" where
  "unchanged E s s' \<longleftrightarrow> i_data s' = i_data s \<and> (\<forall>b \<in> used E (e3_alloc s). b_data s' b = b_data s b) \<and>
     used E (e3_alloc s') = used E (e3_alloc s)"

lemma alloc_blocks_ok:
  assumes "ext3_env_ok E" and "0 < blks" and "ext3_alloc_blocks E goal k blks a = (err, nb, num, a')"
  shows "err \<noteq> 0 \<Longrightarrow> err < 0 \<and> used E a' = used E a"
    and "err = 0 \<Longrightarrow> length nb = Suc k \<and> num \<le> blks \<and> fresh_branch (used E a) nb num \<and>
           used E a' = used E a \<union> new_set nb num"
proof -
  have "alloc_loop (Suc k) E goal k (blks + k) [] a = (err, nb, num, a')"
    using assms(3) by (simp only: ext3_alloc_blocks_def)
  from alloc_loop_ok [OF assms(1,2) _ _ _ _ _ this, of "used E a"]
  have *: "if err = 0 then length nb = length [] + k + 1 \<and> num \<le> blks \<and> fresh_branch (used E a) nb num \<and>
      used E a' = used E a \<union> set (butlast nb) \<union> {last nb..<last nb + num} else err < 0 \<and> used E a' = used E a"
    by simp
  then show "err \<noteq> 0 \<Longrightarrow> err < 0 \<and> used E a' = used E a" by (simp only: if_False)
  show "err = 0 \<Longrightarrow> length nb = Suc k \<and> num \<le> blks \<and> fresh_branch (used E a) nb num \<and>
           used E a' = used E a \<union> new_set nb num"
    using * unfolding new_set_def by (simp only: if_True Un_assoc) simp
qed

lemma alloc_branch_ok:
  assumes E: "ext3_env_ok E" and "0 < blks" and "k < length offs"
    and r: "ext3_alloc_branch E k blks goal offs s = (err, nb, num, s')"
  shows "if err = 0 then branch_made E s k offs blks nb num s' else err < 0 \<and> unchanged E s s'"
proof -
  let ?U = "used E (e3_alloc s)"
  obtain e nb1 num1 a where al: "ext3_alloc_blocks E goal k blks (e3_alloc s) = (e, nb1, num1, a)"
    using prod_cases4 by blast
  note ok = alloc_blocks_ok [OF E assms(2) al]
  obtain e2 s2 where w: "write_branch E nb1 (tl offs) num1 (s\<lparr>e3_alloc := a\<rparr>) = (e2, s2)" by fastforce
  note f = write_branch_fail [OF w]
  consider "e \<noteq> 0" | "e = 0" "e2 \<noteq> 0" | "e = 0" "e2 = 0" by blast
  then show ?thesis
  proof cases
    case 1
    then have "err = e" "s' = s\<lparr>e3_alloc := a\<rparr>" using r al by (simp_all add: ext3_alloc_branch_def)
    then show ?thesis using ok(1) [OF 1] 1 by (simp add: unchanged_def)
  next
    case 2
    note n = ok(2) [OF 2(1)]
    have eq: "err = e2" "s' = free_branch E nb1 num1 s2" using r al w 2 by (auto simp: ext3_alloc_branch_def)
    have "used E (e3_alloc s2) = ?U \<union> new_set nb1 num1" using f n by simp
    note fk = free_branch_keeps [OF E this fresh_disjoint [of ?U nb1 num1]]
    have "b_data s2 b = b_data s b" if "b \<in> ?U" for b
      using that n f by (auto simp: fresh_branch_def)
    moreover have "e2 < 0" using write_branch_err [OF E w] 2(2) by simp
    ultimately show ?thesis using 2(2) fk n f unfolding eq by (simp add: unchanged_def)
  next
    case 3
    note n = ok(2) [OF 3(1)]
    have eq: "err = 0" "nb = nb1" "num = num1" "s' = s2" using r al w 3 by (simp_all add: ext3_alloc_branch_def)
    have l: "length nb1 = Suc k" "k \<le> length (tl offs)" "distinct (butlast nb1)"
      using n assms(3) by (auto simp: fresh_branch_def)
    have t: "i < k \<Longrightarrow> tl offs ! i = offs ! Suc i" for i using assms(3) by (cases offs) auto
    show ?thesis
      using n write_branch_run [OF w [unfolded 3(2)] l] t unfolding eq by (simp add: branch_made_def)
  qed
qed

lemma count_while_bounds: "c \<le> count_while P m c" "count_while P m c \<le> c + m"
proof -
  have "c \<le> count_while P m c \<and> count_while P m c \<le> c + m"
  proof (induction m arbitrary: c)
    case (Suc m)
    from Suc.IH [of "Suc c"] show ?case by simp
  qed simp
  then show "c \<le> count_while P m c" "count_while P m c \<le> c + m" by simp_all
qed

lemma count_while_holds: "c \<le> j \<Longrightarrow> j < count_while P m c \<Longrightarrow> P j"
proof (induction m arbitrary: c)
  case (Suc m)
  show ?case
  proof (cases "P c \<and> j \<noteq> c")
    case True
    then show ?thesis using Suc.IH [of "Suc c"] Suc.prems by simp
  next
    case False
    then show ?thesis using Suc.prems by (cases "P c") auto
  qed
qed simp

lemma slot_shift_node:
  assumes "offs \<noteq> []" and "upto_nonzero s offs (length offs - 1)"
  shows "slot_read s (slot_shift (slot_of s offs) j) = node s (butlast offs @ [last offs + j])"
proof (cases "length offs = 1")
  case True
  then show ?thesis by (cases offs) (simp_all add: slot_of_def)
next
  case False
  then have b: "butlast offs \<noteq> []" "0 < length offs - 1" using assms(1) by (cases offs; cases "tl offs"; simp)+
  have "node s (butlast offs) \<noteq> 0"
    using upto_nonzeroD [OF assms(2) b(2)] by (simp add: butlast_conv_take)
  then show ?thesis using False by (simp add: slot_of_def node_snoc [OF b(1)])
qed

lemma slot_of_take:
  assumes "0 < m" and "m \<le> length offs"
  shows "slot_of s (take m offs) =
    (if m = 1 then InodeSlot (offs ! 0) else BlockSlot (node s (take (m - 1) offs)) (offs ! (m - 1)))"
proof -
  obtain m' where m: "m = Suc m'" using assms(1) by (cases m) auto
  have t: "take m offs = take m' offs @ [offs ! m']" using assms(2) m by (simp add: take_Suc_conv_app_nth)
  have "length (take m offs) = m" using assms(2) by simp
  then show ?thesis using m t by (simp add: slot_of_def)
qed

lemma splice_stores:
  assumes pre: "splice_pre E s m offs bound nb num"
    and bm: "branch_made E s (length offs - m) (drop (m - 1) offs) blks nb num s2"
    and s3: "i_data s3 = i_data (slot_run s2 (slot_of s (take m offs)) (hd nb) (if length nb = 1 then num else 1))"
      "b_data s3 = b_data (slot_run s2 (slot_of s (take m offs)) (hd nb) (if length nb = 1 then num else 1))"
  shows "spliced s m offs nb num s3"
proof -
  have m: "0 < m" "m \<le> length offs" and off: "path_ok (addr_bits E) offs bound" and z: "upto_nonzero s offs (m - 1)"
    using pre by (simp_all add: splice_pre_def)
  have nb: "length nb = 1 \<longleftrightarrow> m = length offs" using pre m by (auto simp: splice_pre_def)
  have st: "i_data s2 = i_data s" "b \<notin> set (butlast nb) \<Longrightarrow> b_data s2 b = b_data s b"
    "i < length offs - m \<Longrightarrow> b_data s2 (nb ! i) = run_content (drop (m - 1) offs ! Suc i)
       (if Suc i = length offs - m then num else 1) (nb ! Suc i)" for b i
    using bm by (simp_all add: branch_made_def)
  have idx: "drop (m - 1) offs ! Suc i = offs ! (m + i)" "Suc i = length offs - m \<longleftrightarrow> Suc (m + i) = length offs"
    if "i < length offs - m" for i using that m by (simp, linarith)
  have parent: "node s (take (m - 1) offs) \<notin> set (butlast nb)" if "1 < m"
  proof (rule inv_old_block [OF pre])
    show "take (m - 1) offs \<in> tree_places (addr_bits E)" using off that by (simp add: path_ok_def places_take)
    show "node s (take (m - 1) offs) \<noteq> 0" using upto_nonzeroD [OF z] that by simp
  qed
  have nbi: "nb ! i \<in> set (butlast nb)" if "i < length offs - m" for i
    using nb_butlast(3) [of nb "length offs - m" i] that pre by (simp add: splice_pre_def)
  show ?thesis
  proof (cases "m = 1")
    case True
    then show ?thesis using s3 st idx nb unfolding slot_of_take [OF m] by (simp add: spliced_def Let_def)
  next
    case False
    then have "nb ! i \<noteq> node s (take (m - 1) offs)" if "i < length offs - m" for i
      using nbi [OF that] parent m(1) by force
    then show ?thesis
      using s3 st idx nb False m(1) unfolding slot_of_take [OF m] by (auto simp: spliced_def Let_def)
  qed
qed

lemma splice_branch_ok:
  assumes E: "ext3_env_ok E" and pre: "splice_pre E s m offs bound nb num"
    and bm: "branch_made E s (length offs - m) (drop (m - 1) offs) blks nb num s2"
    and r: "ext3_splice_branch E block (slot_of s (take m offs)) nb num s2 = (err, s3)"
  shows "if err = 0 then spliced s m offs nb num s3 \<and> used E (e3_alloc s3) = used E (e3_alloc s) \<union> new_set nb num
         else err < 0 \<and> unchanged E s s3"
proof -
  let ?p = "slot_of s (take m offs)" and ?U = "used E (e3_alloc s)"
  let ?acc = "case ?p of BlockSlot b i \<Rightarrow> access_err E b | InodeSlot i \<Rightarrow> 0"
  let ?s1 = "slot_run s2 ?p (hd nb) (if length nb = 1 then num else 1)"
  have al: "e3_alloc (slot_run s2 p v n) = e3_alloc s2" for p v n by (cases p) simp_all
  have u: "used E (e3_alloc s2) = ?U \<union> new_set nb num" and dis: "?U \<inter> new_set nb num = {}"
    using bm fresh_disjoint [of ?U nb num] by (simp_all add: branch_made_def)
  show ?thesis
  proof (cases "?acc = 0")
    case True
    have dirty: "(case ?p of BlockSlot b i \<Rightarrow> dirty_err E b | InodeSlot i \<Rightarrow> 0) = 0"
      using env_signs(1) [OF E] by (simp split: slot.split)
    have s3: "err = 0" "s3 = ?s1\<lparr>i_block_alloc_info :=
        map_option (\<lambda>_. (block + num - 1, last nb + num - 1)) (i_block_alloc_info ?s1)\<rparr>"
      using r True dirty by (simp_all add: ext3_splice_branch_def Let_def)
    have "spliced s m offs nb num s3" by (rule splice_stores [OF pre bm]) (simp_all add: s3(2))
    then show ?thesis using s3 al u by simp
  next
    case False
    then have s3: "err = ?acc" "s3 = free_branch E nb num s2" using r by (auto simp: ext3_splice_branch_def)
    have "?acc < 0" using env_signs(3) [OF E] False by (auto simp: less_le split: slot.splits)
    moreover have "b \<notin> set (butlast nb)" if "b \<in> ?U" for b using that dis by (auto simp: new_set_def)
    ultimately show ?thesis
      using False free_branch_keeps [OF E u dis] bm unfolding s3 by (simp add: unchanged_def branch_made_def)
  qed
qed

definition tree_grows :: "'a ext3_env \<Rightarrow> 'a ext3_inode \<Rightarrow> 'a ext3_inode \<Rightarrow> bool" where
  "tree_grows E s s' \<longleftrightarrow> (\<forall>pos \<in> tree_places (addr_bits E). node s pos \<noteq> 0 \<longrightarrow> node s' pos = node s pos)"

definition tree_same :: "'a ext3_env \<Rightarrow> 'a ext3_inode \<Rightarrow> 'a ext3_inode \<Rightarrow> bool" where
  "tree_same E s s' \<longleftrightarrow> (\<forall>pos \<in> tree_places (addr_bits E). node s' pos = node s pos)"

lemma unchanged_keeps:
  "ext3_inv E s \<Longrightarrow> unchanged E s s' \<Longrightarrow> ext3_inv E s' \<and> tree_grows E s s' \<and> tree_same E s s'"
  unfolding unchanged_def tree_grows_def tree_same_def using inv_cong node_cong by metis

lemma beside_place:
  assumes "path_ok k offs bound" and "j \<le> bound"
  shows "butlast offs @ [last offs + j] \<in> tree_places k"
proof (cases "length offs = 1")
  case True
  then obtain x where x: "offs = [x]" by (cases offs) auto
  have "last offs + bound < EXT3_NDIR_BLOCKS" using assms(1) True unfolding path_ok_def by simp
  then have "x + j < 12" using assms(2) by (simp add: x ext3_consts)
  then show ?thesis by (simp add: x tree_places_def depth_of_def ext3_consts)
next
  case False
  have "offs \<noteq> []" using assms(1) by (auto simp: path_ok_def tree_places_def)
  then obtain a b bs where offs: "offs = a # b # bs" using False by (cases offs; cases "tl offs") auto
  have l: "last offs + j < 2 ^ k" using assms False by (simp add: path_ok_def)
  have pl: "a \<le> EXT3_TIND_BLOCK" "Suc (Suc (length bs)) \<le> depth_of a" "\<forall>x \<in> set (b # bs). x < 2 ^ k"
    using assms(1) by (simp_all add: path_ok_def tree_places_def offs)
  have e: "butlast offs @ [last offs + j] = a # butlast (b # bs) @ [last offs + j]" by (simp add: offs)
  have "\<forall>x \<in> set (butlast (b # bs)). x < 2 ^ k" using pl(3) in_set_butlastD by metis
  then show ?thesis unfolding e tree_places_def using pl(1,2) l by simp
qed

lemma new_node_beside:
  assumes "splice_pre E s m offs bound nb num" and "j < num"
  shows "new_node m offs nb num (butlast offs @ [last offs + j]) = Some (last nb + j)"
proof -
  have m: "m \<le> length offs" "offs \<noteq> []" and nb: "length nb = Suc (length offs - m)" "nb \<noteq> []"
    using assms(1) by (auto simp: splice_pre_def)
  have l: "last offs = offs ! (length offs - 1)" and "butlast offs = take (length offs - 1) offs"
    using m(2) by (simp_all add: last_conv_nth butlast_conv_take)
  moreover have "last nb = nb ! (length offs - m)" using nb by (simp add: last_conv_nth)
  moreover have "Suc (length offs - 1) = length offs" using m(2) by simp
  ultimately show ?thesis unfolding new_node_snoc using assms(2) m(1) by simp
qed

lemma spliced_grows:
  assumes pre: "splice_pre E s m offs bound nb num" and sp: "spliced s m offs nb num s'"
    and free: "\<forall>j < num. node s (butlast offs @ [last offs + j]) = 0"
  shows "tree_grows E s s'"
  unfolding tree_grows_def
proof (intro ballI impI)
  fix pos
  assume pos: "pos \<in> tree_places (addr_bits E)" and nz: "node s pos \<noteq> 0"
  have m: "0 < m" "node s (take m offs) = 0" "m \<le> length offs" using pre by (simp_all add: splice_pre_def)
  have ne: "offs \<noteq> []" using m(1,3) by auto
  have "new_node m offs nb num pos = None"
  proof (rule ccontr)
    assume "new_node m offs nb num pos \<noteq> None"
    then obtain v where "new_node m offs nb num pos = Some v" by blast
    from new_node_cases [OF pre this] show False
    proof (elim disjE exE conjE)
      fix i assume "pos = take (m + i) offs"
      moreover have "node s (take (m + i) offs) = 0" by (rule node_take_zero [OF m(1) _ m(2) ne]) simp
      ultimately show False using nz by simp
    next
      fix j assume "j < num" "pos = butlast offs @ [last offs + j]"
      then show False using free nz by simp
    qed
  qed
  then show "node s' pos = node s pos" using node_spliced [OF pre sp pos] by simp
qed

text \<open>What \<^verbatim>\<open>ext3_get_blocks_handle\<close> promises when it may allocate.\<close>

definition mapped_post ::
  "'a ext3_env \<Rightarrow> 'a ext3_inode \<Rightarrow> nat list \<Rightarrow> nat \<Rightarrow> nat \<Rightarrow> errcode \<times> nat \<times> 'a ext3_inode \<Rightarrow> bool" where
  "mapped_post E s offs bound maxblocks r =
     (case r of (ret, nr, s') \<Rightarrow>
        ext3_inv E s' \<and> tree_grows E s s' \<and>
        (ret < 0 \<and> tree_same E s s' \<or> 0 < ret \<and> nat ret \<le> maxblocks \<and> nr \<noteq> 0 \<and>
           (\<forall>j < nat ret. j \<le> bound \<and> node s' (butlast offs @ [last offs + j]) = nr + j)))"

lemma spliced_mapped:
  assumes pre: "splice_pre E s m offs bound nb num" and sp: "spliced s m offs nb num s'"
    and u: "used E (e3_alloc s') = used E (e3_alloc s) \<union> new_set nb num" and "num \<le> maxblocks"
    and free: "\<forall>j < num. node s (butlast offs @ [last offs + j]) = 0"
  shows "mapped_post E s offs bound maxblocks (int num, last nb, s')"
proof -
  have p: "path_ok (addr_bits E) offs bound" "num \<le> bound + 1" "0 < num" and nb: "nb \<noteq> []" "0 \<notin> set nb"
    using pre by (simp_all add: splice_pre_def fresh_branch_def)
  have "last nb \<noteq> 0" using last_in_set [OF nb(1)] nb(2) by metis
  have "j \<le> bound" if "j < num" for j using that p(2) by simp
  have "node s' (butlast offs @ [last offs + j]) = last nb + j" if "j < num" for j
    using node_spliced [OF pre sp beside_place [OF p(1)]] new_node_beside [OF pre that] that p(2) by simp
  then show ?thesis
    using inv_spliced [OF pre sp u] spliced_grows [OF pre sp free] p(3) assms(4) \<open>last nb \<noteq> 0\<close>
      \<open>\<And>j. j < num \<Longrightarrow> j \<le> bound\<close> by (simp add: mapped_post_def)
qed

lemma node_info [simp]: "node (s\<lparr>i_block_alloc_info := x\<rparr>) = node s"
  by (simp add: node_def fun_eq_iff cong: if_cong)

lemma info_simps [simp]:
  "ext3_inv E (s\<lparr>i_block_alloc_info := x\<rparr>) = ext3_inv E s"
  "upto_nonzero (s\<lparr>i_block_alloc_info := x\<rparr>) offs n = upto_nonzero s offs n"
  "slot_of (s\<lparr>i_block_alloc_info := x\<rparr>) pos = slot_of s pos"
  "tree_grows E (s\<lparr>i_block_alloc_info := x\<rparr>) s' = tree_grows E s s'"
  "tree_same E (s\<lparr>i_block_alloc_info := x\<rparr>) s' = tree_same E s s'"
  by (simp_all add: ext3_inv_def upto_nonzero_def slot_of_def tree_grows_def tree_same_def)

lemma mapped_post_info [simp]:
  "mapped_post E (s\<lparr>i_block_alloc_info := x\<rparr>) offs bound n r = mapped_post E s offs bound n r"
  by (simp add: mapped_post_def)

lemma blks_to_allocate_ok:
  assumes "offs \<noteq> []" and "m \<le> length offs" and "0 < m" and "upto_nonzero s offs (m - 1)" and "node s (take m offs) = 0" and "0 < maxblocks"
    and "ind_p partial = slot_of s (take m offs)"
    and c_def: "c = ext3_blks_to_allocate s partial (length offs - m) maxblocks bound"
  shows "0 < c" and "c \<le> maxblocks" and "c \<le> bound + 1" and "j < c \<Longrightarrow> node s (butlast offs @ [last offs + j]) = 0"
proof -
  let ?P = "\<lambda>c. slot_read s (slot_shift (slot_of s (take m offs)) c) = 0"
  have c0: "m = length offs \<Longrightarrow> c = count_while ?P (min maxblocks (bound + 1) - 1) 1"
    using assms(7) by (simp add: c_def ext3_blks_to_allocate_def)
  have c1: "m \<noteq> length offs \<Longrightarrow> c = min maxblocks (bound + 1)"
    using assms(2) by (auto simp: c_def ext3_blks_to_allocate_def)
  note b = count_while_bounds [where c = 1 and P = ?P and m = "min maxblocks (bound + 1) - 1"]
  show "0 < c" "c \<le> maxblocks" "c \<le> bound + 1"
    using c0 c1 b assms(6) by (cases "m = length offs"; simp)+
  show "node s (butlast offs @ [last offs + j]) = 0" if "j < c"
  proof (cases "m = length offs")
    case True
    have sh: "slot_read s (slot_shift (slot_of s offs) j) = node s (butlast offs @ [last offs + j])"
      using slot_shift_node [OF assms(1)] assms(4) True by simp
    show ?thesis
    proof (cases "j = 0")
      case True
      then show ?thesis using assms(1,5) \<open>m = length offs\<close> by simp
    next
      case False
      then have "?P j" using that c0 [OF True] by (intro count_while_holds [where c = 1 and P = ?P and j = j]) simp_all
      then show ?thesis using sh True by simp
    qed
  next
    case False
    then have l: "m \<le> length offs - 1" using assms(2) by simp
    have "node s (take (length offs - 1) offs) = 0" by (rule node_take_zero [OF assms(3) l assms(5,1)])
    moreover have "butlast offs \<noteq> []" using l assms(3) by (cases offs; cases "tl offs") auto
    ultimately show ?thesis using node_zero_append [of "butlast offs" s "[last offs + j]"] by (simp add: butlast_conv_take)
  qed
qed

lemma ext3_allocate_ok:
  assumes E: "ext3_env_ok E" and inv: "ext3_inv E s" and path: "path_ok (addr_bits E) offs bound"
    and m: "0 < m" "m \<le> length offs" and z: "upto_nonzero s offs (m - 1)" "node s (take m offs) = 0" and "0 < maxblocks"
  shows "mapped_post E s offs bound maxblocks (ext3_allocate E s iblock maxblocks offs bound (chain_of s offs m))"
proof -
  define s1 where "s1 = (if i_block_alloc_info s = None then s\<lparr>i_block_alloc_info := init_alloc_info E\<rparr> else s)"
  have eq: "ext3_inv E s1" "upto_nonzero s1 offs (m - 1)" "node s1 = node s" "slot_of s1 (take m offs) = slot_of s (take m offs)"
    "mapped_post E s1 offs bound maxblocks r = mapped_post E s offs bound maxblocks r" for r
    using inv z(1) by (simp_all add: s1_def)
  let ?k = "length offs - m" and ?p = "last (chain_of s offs m)"
  have ne: "offs \<noteq> []" using m by auto
  have p: "ind_p ?p = slot_of s1 (take m offs)" using m(1) eq(4) by (simp add: chain_of_def last_map)
  define c where "c = ext3_blks_to_allocate s1 ?p ?k maxblocks bound"
  have c: "0 < c" "c \<le> maxblocks" "c \<le> bound + 1" "j < c \<Longrightarrow> node s1 (butlast offs @ [last offs + j]) = 0" for j
    using blks_to_allocate_ok [OF ne m(2,1) eq(2) _ assms(8) p c_def] z(2) eq(3) by simp_all
  let ?goal = "ext3_find_goal E s1 iblock ?p"
  obtain e nb num s2 where ab: "ext3_alloc_branch E ?k c ?goal (drop (m - 1) offs) s1 = (e, nb, num, s2)"
    using prod_cases4 by blast
  have "?k < length (drop (m - 1) offs)" using m by simp
  note ok = alloc_branch_ok [OF E c(1) this ab]
  obtain e2 s3 where sb: "ext3_splice_branch E iblock (slot_of s1 (take m offs)) nb num s2 = (e2, s3)" by fastforce
  have r: "ext3_allocate E s iblock maxblocks offs bound (chain_of s offs m) =
      (if e \<noteq> 0 then (e, 0, s2) else if e2 \<noteq> 0 then (e2, 0, s3) else (int num, last nb, s3))"
    using ab sb p unfolding c_def by (simp add: ext3_allocate_def s1_def [symmetric] Let_def chain_of_def)
  show ?thesis
  proof (cases "e = 0")
    case False
    then show ?thesis using r ok unchanged_keeps [OF eq(1), of s2] eq(5) [symmetric] by (simp add: mapped_post_def)
  next
    case True
    then have bm: "branch_made E s1 ?k (drop (m - 1) offs) c nb num s2" using ok by simp
    have pre: "splice_pre E s1 m offs bound nb num"
      using eq(1-3) path m z(2) bm c(3) by (simp add: splice_pre_def branch_made_def)
    have num: "num \<le> c" using bm by (simp add: branch_made_def)
    have free: "\<forall>j < num. node s1 (butlast offs @ [last offs + j]) = 0" using c(4) num by simp
    note sok = splice_branch_ok [OF E pre bm sb]
    show ?thesis
      using r True sok unchanged_keeps [OF eq(1), of s3] spliced_mapped [OF pre, of s3 maxblocks] c(2) num free eq(5) [symmetric]
      by (cases "e2 = 0") (simp_all add: mapped_post_def [of E s1 offs bound maxblocks "(e2, 0, s3)"])
  qed
qed

section \<open>The interface of the translation path\<close>

lemma bmap_beside:
  assumes "ext3_block_to_path (addr_bits E) blk = (offs, bound)" and "offs \<noteq> []" and "j \<le> bound" and "4 \<le> addr_bits E"
  shows "ext3_bmap E s (blk + j) = node s (butlast offs @ [last offs + j])"
  using path_shift [OF assms] by (simp add: ext3_bmap_def Let_def)

lemma bmap_grows:
  assumes "4 \<le> addr_bits E" and "tree_grows E s s'" and "ext3_bmap E s blk \<noteq> 0"
  shows "ext3_bmap E s' blk = ext3_bmap E s blk"
proof -
  obtain offs bound where p: "ext3_block_to_path (addr_bits E) blk = (offs, bound)" by fastforce
  then have ne: "offs \<noteq> []" using assms(3) by (auto simp: ext3_bmap_def)
  have "offs \<in> tree_places (addr_bits E)" using path_is_ok [OF p ne assms(1)] by (simp add: path_ok_def)
  then show ?thesis using assms(2,3) p ne by (simp add: tree_grows_def ext3_bmap_def)
qed

lemma bmap_same:
  assumes "4 \<le> addr_bits E" and "tree_same E s s'"
  shows "ext3_bmap E s' = ext3_bmap E s"
proof
  fix blk
  obtain offs bound where p: "ext3_block_to_path (addr_bits E) blk = (offs, bound)" by fastforce
  have "offs \<noteq> [] \<Longrightarrow> offs \<in> tree_places (addr_bits E)" using path_is_ok [OF p _ assms(1)] by (simp add: path_ok_def)
  then show "ext3_bmap E s' blk = ext3_bmap E s blk" using assms(2) p by (simp add: tree_same_def ext3_bmap_def)
qed

definition handle_post :: "'a ext3_env \<Rightarrow> 'a ext3_inode \<Rightarrow> nat \<Rightarrow> nat \<Rightarrow> bool \<Rightarrow> errcode \<times> nat \<times> 'a ext3_inode \<Rightarrow> bool" where
  "handle_post E s iblock maxblocks create r =
     (case r of (ret, nr, s') \<Rightarrow>
        ext3_inv E s' \<and> tree_grows E s s' \<and> (\<not> create \<longrightarrow> s' = s) \<and>
        (ret < 0 \<and> ext3_bmap E s' = ext3_bmap E s \<or> ret = 0 \<and> \<not> create \<and> ext3_bmap E s' iblock = 0 \<or>
         0 < ret \<and> nat ret \<le> maxblocks \<and> nr \<noteq> 0 \<and> (\<forall>j < nat ret. ext3_bmap E s' (iblock + j) = nr + j)))"

lemma tree_grows_refl [simp]: "tree_grows E s s"
  by (simp add: tree_grows_def)

lemma handle_found:
  assumes E: "ext3_env_ok E" and inv: "ext3_inv E s" and path: "ext3_block_to_path (addr_bits E) iblock = (offs, bound)"
    and ne: "offs \<noteq> []" and z: "upto_nonzero s offs (length offs - 1)" "node s offs \<noteq> 0" and mb: "0 < maxblocks"
  shows "handle_post E s iblock maxblocks create
    (int (count_same s (slot_of s offs) (node s offs) (min maxblocks (bound + 1) - 1)), node s offs, s)"
proof -
  let ?m = "min maxblocks (bound + 1) - 1" and ?P = "\<lambda>c. slot_read s (slot_shift (slot_of s offs) c) = node s offs + c"
  define c where "c = count_same s (slot_of s offs) (node s offs) ?m"
  have b: "1 \<le> c" "c \<le> 1 + ?m" using count_while_bounds [where c = 1 and P = ?P and m = ?m] by (simp_all add: c_def count_same_def)
  then have cb: "c \<le> maxblocks" "c \<le> bound + 1" using mb by linarith+
  have "ext3_bmap E s (iblock + j) = node s offs + j" if "j < c" for j
  proof (cases "j = 0")
    case True
    then show ?thesis using path ne by (simp add: ext3_bmap_def)
  next
    case False
    then have "?P j" using that by (intro count_while_holds [where c = 1 and P = ?P and j = j and m = ?m]) (simp_all add: c_def count_same_def)
    then have "node s (butlast offs @ [last offs + j]) = node s offs + j" using slot_shift_node [OF ne z(1)] by simp
    then show ?thesis using bmap_beside [OF path ne _ env_signs(5) [OF E], of j s] that cb(2) by simp
  qed
  then show ?thesis unfolding c_def [symmetric] using inv z(2) b(1) cb(1) by (simp add: handle_post_def)
qed

lemma handle_ok:
  assumes E: "ext3_env_ok E" and inv: "ext3_inv E s" and mb: "0 < maxblocks"
  shows "handle_post E s iblock maxblocks create (ext3_get_blocks_handle E s iblock maxblocks create)"
proof -
  note b4 = env_signs(5) [OF E]
  obtain offs bound where path: "ext3_block_to_path (addr_bits E) iblock = (offs, bound)" by fastforce
  show ?thesis
  proof (cases "offs = []")
    case True
    then show ?thesis using path inv by (simp add: ext3_get_blocks_handle_def handle_post_def)
  next
    case ne: False
    have pok: "path_ok (addr_bits E) offs bound" by (rule path_is_ok [OF path ne b4])
    from ext3_get_branch_run [OF ne, of s E] obtain m where m: "0 < m" "m \<le> length offs" "upto_nonzero s offs (m - 1)"
      and r: "ext3_get_branch E s offs = (chain_of s offs m, False, - EIO) \<or>
         ext3_get_branch E s offs = (chain_of s offs m, False, 0) \<and> node s (take m offs) = 0 \<or>
         ext3_get_branch E s offs = (chain_of s offs m, True, 0) \<and> m = length offs \<and> node s offs \<noteq> 0"
      unfolding branch_result_def by blast
    have v: "verify_chain s (chain_of s offs m)" by (rule verify_chain_of [OF m(2,3)])
    have l: "last (chain_of s offs m) = \<lparr>ind_p = slot_of s (take m offs), ind_key = node s (take m offs)\<rparr>"
      using m(1) by (simp add: chain_of_def last_map)
    have ag: "EAGAIN \<noteq> 0" "EAGAIN \<noteq> EIO" by (simp_all add: EAGAIN_def)
    from r show ?thesis
    proof (elim disjE conjE)
      assume "ext3_get_branch E s offs = (chain_of s offs m, False, - EIO)"
      then show ?thesis using path ne inv ag by (simp add: ext3_get_blocks_handle_def handle_post_def)
    next
      assume g: "ext3_get_branch E s offs = (chain_of s offs m, False, 0)" and z: "node s (take m offs) = 0"
      have "node s (take (length offs) offs) = 0" by (rule node_take_zero [OF m(1,2) z ne])
      then have hole: "ext3_bmap E s iblock = 0" using path ne by (simp add: ext3_bmap_def)
      show ?thesis
      proof (cases create)
        case False
        then show ?thesis using path ne inv g hole ag by (simp add: ext3_get_blocks_handle_def handle_post_def)
      next
        case True
        then have "ext3_get_blocks_handle E s iblock maxblocks create =
            ext3_allocate E s iblock maxblocks offs bound (chain_of s offs m)"
          using path ne g v ag by (simp add: ext3_get_blocks_handle_def)
        then show ?thesis
          using ext3_allocate_ok [OF E inv pok m z mb, of iblock] bmap_beside [OF path ne _ b4] bmap_same [OF b4] True
          by (auto simp: mapped_post_def handle_post_def split: prod.splits)
      qed
    next
      assume g: "ext3_get_branch E s offs = (chain_of s offs m, True, 0)" and f: "m = length offs" "node s offs \<noteq> 0"
      then show ?thesis
        using path ne v ag l handle_found [OF E inv path ne _ f(2) mb, of create] m(3)
        by (simp add: ext3_get_blocks_handle_def Let_def)
    qed
  qed
qed

text \<open>A call of \<^verbatim>\<open>ext3_get_block\<close> for \<open>n\<close> blocks.\<close>

lemma ext3_get_block_run:
  assumes "ext3_env_ok E" and inv: "ext3_inv E s" and n: "0 < n"
    and g: "ext3_get_block E blkbits s blk (n * 2 ^ blkbits) cr = (ret, nr, sz, s')"
  shows "ext3_inv E s' \<and> tree_grows E s s' \<and> (\<not> cr \<longrightarrow> s' = s) \<and> (ret \<noteq> 0 \<longrightarrow> ext3_bmap E s' = ext3_bmap E s) \<and>
      (ret = 0 \<longrightarrow> (if nr = 0 then \<not> cr \<and> sz = n * 2 ^ blkbits \<and> ext3_bmap E s' blk = 0
        else 0 < sz div 2 ^ blkbits \<and> sz div 2 ^ blkbits \<le> n \<and> (\<forall>j < sz div 2 ^ blkbits. ext3_bmap E s' (blk + j) = nr + j)))"
proof (cases "cr \<and> journal_start_err E \<noteq> 0")
  case True
  then show ?thesis using g inv by (auto simp: ext3_get_block_def)
next
  case False
  define mb where "mb = (if cr then min n DIO_MAX_BLOCKS else n)"
  have mb: "0 < mb" "mb \<le> n" using n by (simp_all add: mb_def DIO_MAX_BLOCKS_def)
  obtain c b t where h: "ext3_get_blocks_handle E s blk mb cr = (c, b, t)" using prod_cases3 by blast
  have "(ret, nr, sz, s') = (if 0 < c then (0, b, nat c * 2 ^ blkbits, t) else (c, 0, n * 2 ^ blkbits, t))"
    using g h False by (simp add: ext3_get_block_def mb_def)
  then show ?thesis
    using handle_ok [OF assms(1) inv mb(1), of blk cr, unfolded h] mb(2) by (auto simp: handle_post_def split: if_splits)
qed

lemma ext3_block_mapper_aux:
  assumes "ext3_env_ok E"
  shows "block_mapper (ext3_get_block E blkbits) (ext3_bmap E) blkbits (ext3_inv E)"
proof -
  note main = ext3_get_block_run [OF assms] and b4 = env_signs(5) [OF assms]
  show ?thesis
  proof unfold_locales
    fix s n blk cr sz s'
    assume "ext3_inv E s" "0 < n" "ext3_get_block E blkbits s blk (n * 2 ^ blkbits) cr = (0, 0, sz, s')"
    from main [OF this] \<open>0 < n\<close> show "\<not> cr \<and> 0 < sz div 2 ^ blkbits \<and> ext3_bmap E s' blk = 0" by auto
  qed (use main bmap_grows [OF b4] in \<open>metis (mono_tags, lifting)\<close>)+
qed

text \<open>With all pointer blocks readable the walk down the tree succeeds, and a read of a block within its range
  does not fail.\<close>

lemma branch_readable:
  assumes "\<forall>b. bread_ok E b" and "offs \<noteq> []"
  obtains chain f where "ext3_get_branch E s offs = (chain, f, 0)" and "verify_chain s chain"
proof -
  have "snd (snd (get_branch_from E s chain xs)) \<noteq> - EIO" for chain xs
    using assms(1) by (induction E s chain xs rule: get_branch_from.induct) (auto simp: Let_def EAGAIN_def)
  then have "snd (snd (ext3_get_branch E s offs)) \<noteq> - EIO" by (simp add: ext3_get_branch_def Let_def)
  with ext3_get_branch_run [OF assms(2), of s E] obtain m f where m: "m \<le> length offs" "upto_nonzero s offs (m - 1)"
    and g: "ext3_get_branch E s offs = (chain_of s offs m, f, 0)"
    unfolding branch_result_def by auto
  show thesis by (rule that [OF g verify_chain_of [OF m]])
qed

lemma ext3_read_ok:
  assumes "\<forall>b. bread_ok E b" and "fst (ext3_block_to_path (addr_bits E) blk) \<noteq> []"
  shows "fst (ext3_get_block E blkbits s blk sz False) = 0"
proof -
  obtain offs bound where p: "ext3_block_to_path (addr_bits E) blk = (offs, bound)" by fastforce
  then have ne: "offs \<noteq> []" using assms(2) by simp
  obtain chain f where "ext3_get_branch E s offs = (chain, f, 0)" "verify_chain s chain"
    by (rule branch_readable [OF assms(1) ne])
  then show ?thesis using p ne by (auto simp: ext3_get_block_def ext3_get_blocks_handle_def EAGAIN_def Let_def)
qed

text \<open>C2. The host file system keeps the contract of the translation path.  If the block allocator gives out runs
  of free blocks, takes them back, and reports errors as negative numbers, \<^verbatim>\<open>ext3_get_block\<close> satisfies the
  interface \<open>block_mapper\<close>: a successful call maps a contiguous run of at least one and at most the requested
  number of blocks; only a call without \<open>create\<close> may report a hole, and it changes nothing; no call, successful
  or not, moves or unmaps a block; and the tree keeps its invariant, by which all its blocks are distinct and
  allocated.  A call that returns an error leaves the block map as it was.\<close>

theorem ext3_block_mapper:
  assumes "ext3_env_ok E"
  shows "block_mapper (ext3_get_block E blkbits) (ext3_bmap E) blkbits (ext3_inv E) \<and>
    (\<forall>s n blk cr ret nr sz s'. ext3_inv E s \<and> 0 < n \<and> ret \<noteq> 0 \<and>
       ext3_get_block E blkbits s blk (n * 2 ^ blkbits) cr = (ret, nr, sz, s') \<longrightarrow> ext3_bmap E s' = ext3_bmap E s)"
  using ext3_block_mapper_aux [OF assms] ext3_get_block_run [OF assms] by blast

text \<open>A file system whose allocator hands out blocks in ascending order, with blocks of 4096 bytes and an
  inode that maps nothing yet.\<close>

definition seq_env :: "(nat \<times> nat set) ext3_env" where
  "seq_env = \<lparr>addr_bits = 10, new_blocks = (\<lambda>(h, F) goal n. (0, Suc h, n, (h + n, F - {Suc h..<Suc h + n}))),
     free_blocks = (\<lambda>(h, F) b n. (h, F \<union> {b..<b + n})), used = (\<lambda>(h, F). {..h} - F), bread_ok = (\<lambda>_. True),
     journal_start_err = 0, branch_err = (\<lambda>_. 0), access_err = (\<lambda>_. 0), dirty_err = (\<lambda>_. 0), home_block = 0,
     init_alloc_info = None\<rparr>"

definition empty_file :: "(nat \<times> nat set) ext3_inode" where
  "empty_file = \<lparr>i_data = (\<lambda>_. 0), b_data = (\<lambda>_ _. 0), i_block_alloc_info = None, e3_alloc = (1000, {})\<rparr>"

lemma seq_env_ok: "ext3_env_ok seq_env"
  unfolding ext3_env_ok_def new_blocks_post_def by (auto simp: seq_env_def split: prod.splits)

lemma empty_node: "pos \<noteq> [] \<Longrightarrow> node empty_file pos = 0"
proof -
  have "foldl (\<lambda>b x. if b = 0 then 0 else f b x) 0 xs = 0" for f :: "nat \<Rightarrow> nat \<Rightarrow> nat" and xs by (induction xs) auto
  then show ?thesis by (simp add: node_def empty_file_def)
qed

lemma empty_file_inv: "ext3_inv seq_env empty_file"
  using empty_node by (auto simp: ext3_inv_def inj_on_def tree_places_def)

interpretation e3: block_mapper "ext3_get_block seq_env 12" "ext3_bmap seq_env" 12 "ext3_inv seq_env"
  by (rule ext3_block_mapper_aux [OF seq_env_ok])

text \<open>This file system never fails for a block that the tree can hold.\<close>

lemma seq_simps [simp]:
  "bread_ok seq_env b" "branch_err seq_env b = 0" "access_err seq_env b = 0" "dirty_err seq_env b = 0"
  "journal_start_err seq_env = 0" "addr_bits seq_env = 10"
  by (simp_all add: seq_env_def)

lemma seq_write_branch: "fst (write_branch seq_env nb offs num s) = 0"
  by (induction seq_env nb offs num s rule: write_branch.induct) (simp_all add: Let_def)

lemma seq_alloc_branch: "0 < blks \<Longrightarrow> fst (ext3_alloc_branch seq_env k blks goal offs s) = 0"
  using seq_write_branch by (cases "e3_alloc s")
    (auto simp: ext3_alloc_branch_def ext3_alloc_blocks_def seq_env_def [THEN arg_cong, of new_blocks] split: prod.splits,
     metis fst_conv)

lemma seq_splice: "fst (ext3_splice_branch seq_env block p nb num s) = 0"
  by (simp add: ext3_splice_branch_def Let_def split: slot.split)

lemma seq_allocate:
  assumes "0 < maxblocks"
  shows "0 \<le> fst (ext3_allocate seq_env s blk maxblocks offs bound chain)"
proof -
  have b: "0 < ext3_blks_to_allocate s1 p k maxblocks bound" for s1 p k
    using assms count_while_bounds(1) [of 1] by (auto simp: ext3_blks_to_allocate_def Suc_le_eq)
  show ?thesis by (simp add: ext3_allocate_def Let_def split_beta seq_alloc_branch [OF b] seq_splice)
qed

lemma seq_no_error:
  assumes "fst (ext3_block_to_path 10 blk) \<noteq> []" and "0 < n"
  shows "fst (ext3_get_block seq_env k s blk (n * 2 ^ k) cr) = 0"
proof -
  obtain offs bound where p: "ext3_block_to_path 10 blk = (offs, bound)" by fastforce
  then have ne: "offs \<noteq> []" using assms(1) by simp
  obtain chain f where g: "ext3_get_branch seq_env s offs = (chain, f, 0)" "verify_chain s chain"
    by (rule branch_readable [of seq_env offs s]) (simp_all add: ne)
  let ?m = "if cr then min n DIO_MAX_BLOCKS else n"
  have "0 \<le> fst (ext3_get_blocks_handle seq_env s blk ?m cr)"
    using p ne g seq_allocate [of ?m s blk offs bound chain] assms(2)
    by (auto simp: ext3_get_blocks_handle_def EAGAIN_def Let_def DIO_MAX_BLOCKS_def)
  then show ?thesis by (auto simp: ext3_get_block_def Let_def split: prod.splits)
qed

text \<open>The same file system with a full disk: every allocation fails.\<close>

definition nospace_env :: "(nat \<times> nat set) ext3_env" where
  "nospace_env = seq_env\<lparr>new_blocks := (\<lambda>a goal n. (- ENOSPC, 0, 0, a))\<rparr>"

lemma nospace_env_ok: "ext3_env_ok nospace_env"
  unfolding ext3_env_ok_def new_blocks_post_def by (auto simp: nospace_env_def seq_env_def split: prod.splits)

theorem ext3_block_mapper_witness:
  "block_mapper (ext3_get_block seq_env 12) (ext3_bmap seq_env) 12 (ext3_inv seq_env) \<and> ext3_inv seq_env empty_file \<and>
   fst (ext3_get_block nospace_env 12 empty_file 3 (1 * 2 ^ 12) True) = - ENOSPC \<and>
   ext3_bmap nospace_env (snd (snd (snd (ext3_get_block nospace_env 12 empty_file 3 (1 * 2 ^ 12) True)))) = ext3_bmap nospace_env empty_file"
proof -
  have i: "ext3_inv nospace_env empty_file" using empty_file_inv by (simp add: ext3_inv_def nospace_env_def)
  have g: "fst (ext3_get_block nospace_env 12 empty_file 3 (1 * 2 ^ 12) True) = - ENOSPC"
    by (simp add: ext3_get_block_def ext3_get_blocks_handle_def path_direct ext3_get_branch_def add_chain_def empty_file_def
        nospace_env_def seq_env_def Let_def verify_chain_def ext3_allocate_def ext3_alloc_branch_def ext3_alloc_blocks_def
        EAGAIN_def)
  obtain ret nr sz s' where c: "ext3_get_block nospace_env 12 empty_file 3 (1 * 2 ^ 12) True = (ret, nr, sz, s')"
    using prod_cases4 by blast
  with g have "ret \<noteq> 0" by simp
  then have "ext3_bmap nospace_env s' = ext3_bmap nospace_env empty_file"
    using i c by (intro ext3_block_mapper [OF nospace_env_ok, of 12, THEN conjunct2, rule_format, of empty_file 1]) blast
  with c g show ?thesis using ext3_block_mapper [OF seq_env_ok, of 12] empty_file_inv by simp
qed

section \<open>No two blocks of a file share a block of the disk\<close>

lemma bmap_inj:
  assumes "ext3_inv E s" and "4 \<le> addr_bits E" and "ext3_bmap E s a \<noteq> 0" and "ext3_bmap E s a = ext3_bmap E s b"
  shows "a = b"
proof -
  let ?k = "addr_bits E"
  have path: "fst (ext3_block_to_path ?k x) \<noteq> [] \<and> fst (ext3_block_to_path ?k x) \<in> tree_places ?k \<and>
      ext3_bmap E s x = node s (fst (ext3_block_to_path ?k x))" if "ext3_bmap E s x \<noteq> 0" for x
  proof -
    obtain offs bound where p: "ext3_block_to_path ?k x = (offs, bound)" by fastforce
    then have "offs \<noteq> []" using that by (auto simp: ext3_bmap_def)
    then show ?thesis using p path_is_ok [OF p _ assms(2)] by (simp add: ext3_bmap_def path_ok_def)
  qed
  note pa = path [OF assms(3)] and pb = path [of b]
  have "fst (ext3_block_to_path ?k a) = fst (ext3_block_to_path ?k b)"
    using assms(1,3,4) pa pb unfolding ext3_inv_def inj_on_def by simp
  then show ?thesis using path_block_path [of ?k a] path_block_path [of ?k b] pa by simp
qed

text \<open>A sequence of calls of \<^verbatim>\<open>ext3_get_block\<close>, each for a block, a number of blocks and with or without \<open>create\<close>,
  whatever each of them returns.\<close>

fun ext3_calls :: "'a ext3_env \<Rightarrow> nat \<Rightarrow> (nat \<times> nat \<times> bool) list \<Rightarrow> 'a ext3_inode \<Rightarrow> 'a ext3_inode" where
  "ext3_calls E blkbits [] s = s"
| "ext3_calls E blkbits ((blk, n, cr) # cs) s =
     ext3_calls E blkbits cs (snd (snd (snd (ext3_get_block E blkbits s blk (n * 2 ^ blkbits) cr))))"

definition new_file :: "'a ext3_inode \<Rightarrow> bool" where
  "new_file s \<longleftrightarrow> (\<forall>x. i_data s x = 0)"

lemma new_file_inv: "new_file s \<Longrightarrow> ext3_inv E s"
proof -
  have z: "foldl (\<lambda>b x. if b = 0 then 0 else f b x) 0 xs = 0" for f :: "nat \<Rightarrow> nat \<Rightarrow> nat" and xs by (induction xs) auto
  assume "new_file s"
  then have "node s pos = 0" for pos by (simp add: node_def new_file_def z)
  then show ?thesis by (simp add: ext3_inv_def)
qed

lemma ext3_calls_inv:
  "ext3_env_ok E \<Longrightarrow> ext3_inv E s \<Longrightarrow> list_all (\<lambda>(blk, n, cr). 0 < n) cs \<Longrightarrow> ext3_inv E (ext3_calls E blkbits cs s)"
proof (induction E blkbits cs s rule: ext3_calls.induct)
  case (2 E blkbits blk n cr cs s)
  obtain ret nr sz s' where g: "ext3_get_block E blkbits s blk (n * 2 ^ blkbits) cr = (ret, nr, sz, s')"
    using prod_cases4 by blast
  then show ?case using 2 ext3_get_block_run [OF 2(2,3) _ g] by simp
qed simp

text \<open>C9. No two blocks of a file share a block of the disk.  Start with a file that maps nothing, and let
  \<^verbatim>\<open>ext3_get_block\<close> be called any number of times, for any blocks and with any result: the block map is then
  injective on mapped blocks, over direct, indirect, double and triple indirect blocks.\<close>

theorem ext3_bmap_inj:
  assumes "ext3_env_ok E" and "new_file s0" and "list_all (\<lambda>(blk, n, cr). 0 < n) cs"
    and "ext3_bmap E (ext3_calls E blkbits cs s0) a \<noteq> 0" and "a \<noteq> b"
  shows "ext3_bmap E (ext3_calls E blkbits cs s0) b \<noteq> ext3_bmap E (ext3_calls E blkbits cs s0) a"
  using bmap_inj [OF ext3_calls_inv [OF assms(1) new_file_inv [OF assms(2)] assms(3)] env_signs(5) [OF assms(1)] assms(4)] assms(5)
  by metis

lemmas ext3_compute = ext3_get_block_def ext3_get_blocks_handle_def ext3_block_to_path_def ext3_consts ext3_get_branch_def
  add_chain_def verify_chain_def ext3_allocate_def ext3_blks_to_allocate_def ext3_alloc_branch_def ext3_alloc_blocks_def
  ext3_splice_branch_def run_content_def DIO_MAX_BLOCKS_def EAGAIN_def

theorem ext3_bmap_inj_witness:
  "ext3_bmap seq_env (ext3_calls seq_env 12 [(3, 2, True), (2, 1, True), (20, 1, True)] empty_file) 3 = 1001 \<and>
   ext3_bmap seq_env (ext3_calls seq_env 12 [(3, 2, True), (2, 1, True), (20, 1, True)] empty_file) 20 \<noteq> 1001"
proof -
  have "ext3_bmap seq_env (ext3_calls seq_env 12 [(3, 2, True), (2, 1, True), (20, 1, True)] empty_file) 3 = 1001"
    by (simp add: ext3_compute ext3_bmap_def node_def seq_env_def empty_file_def Let_def)
  then show ?thesis
    using ext3_bmap_inj [OF seq_env_ok, of empty_file "[(3, 2, True), (2, 1, True), (20, 1, True)]" 12 3 20]
    by (simp add: new_file_def empty_file_def)
qed

text \<open>The path of a block determines it: decoding the offsets that \<^verbatim>\<open>ext3_block_to_path\<close> computes gives the
  block back, for every block the tree can hold.\<close>

theorem ext3_path_roundtrip:
  assumes "fst (ext3_block_to_path k blk) \<noteq> []"
  shows "path_block k (fst (ext3_block_to_path k blk)) = blk"
  by (rule path_block_path [OF assms])

theorem ext3_path_roundtrip_witness:
  "path_block 10 (fst (ext3_block_to_path 10 2000000)) = 2000000"
  by (rule ext3_path_roundtrip) (simp add: ext3_block_to_path_def ext3_consts Let_def)

end
