(* ===== verification/Loop_Redirect.thy ===== *)
theory Loop_Redirect
  imports Loop_Translate
begin

text \<open>
  \<^verbatim>\<open>redirect_bio\<close> of \<^verbatim>\<open>drivers/block/loop.c\<close>: a request for the virtualized device becomes requests for
  the host disk.  Each block of the request is translated, physically contiguous blocks share one new
  request, and the new requests together carry each sector of the old one to its place on the disk.

  The definitions follow the function from top to bottom: \<open>lookup_block\<close> and \<open>begin_bio\<close> are the head of
  the loop over blocks, \<open>fill_block\<close> the inner loop over segments, \<open>redirect_loop\<close> the loop itself,
  \<open>submit_parts\<close> and \<open>redirect_bio\<close> the flushes, the submission and the early returns.

  \<^verbatim>\<open>loop_handle_bio\<close> appears as the events it causes; what a switch does to the device is \<open>do_loop_switch\<close> of the theory
  \<open>Loop_Device\<close>.  The allocations of the head, of its slices and of a flush request, whose results the source does not
  test, are taken to succeed; those of the new requests, which it tests, may fail (\<open>env_alloc\<close>).
\<close>

section \<open>State and results\<close>

text \<open>The environment of a call: the host file system, the geometry, the module parameter
  \<^verbatim>\<open>prefetch_blocks\<close>, the queue of the host disk, and which bio allocations succeed.\<close>

record 's redirect_env =
  env_get_block :: "'s get_block_fn"
  env_fsync :: "'s fsync_fn"
  env_blkbits :: nat
  env_prefetch :: nat
  env_queue :: queue
  env_bdev :: nat
  env_alloc :: "nat \<Rightarrow> bool"

text \<open>The local variables of the function.\<close>

record 's redir =
  rd_dev :: "'s lo_trans"
  rd_head :: lo_bio_head
  rd_new :: "bio option"
  rd_count :: nat
  rd_next :: sector_t
  rd_i :: nat
  rd_page :: nat
  rd_off :: nat
  rd_len :: nat
  rd_allocs :: nat

datatype event = Switched | Put | Submit bio | SubmitFlush u64 | EndIO errcode

text \<open>The ways to leave the loops early: \<open>LO_ASSERT\<close>, an access outside the segments or through a
  null pointer, and \<^verbatim>\<open>bio_endio\<close> followed by \<^verbatim>\<open>return\<close> (the value is \<open>None\<close> where the source
  returns none).\<close>

datatype 's stop = Bug | BadAccess | Ended errcode "errcode option" "'s lo_trans"

section \<open>New requests\<close>

definition BIO_MAX_PAGES :: nat where "BIO_MAX_PAGES = 256"

text \<open>\<^verbatim>\<open>bio_alloc\<close> takes \<open>nr\<close> as the bio's \<^verbatim>\<open>bi_max_vecs\<close>.\<close>

definition bio_alloc :: "nat \<Rightarrow> bio" where
  "bio_alloc nr = \<lparr>bi_bdev = None, bi_sector = 0, bi_rw = 0, bi_io_vec = [], bi_idx = 0,
     bi_max_vecs = nr, bi_phys_segments = 0, bi_cloned = False\<rparr>"

definition lo_new_bio :: "nat \<Rightarrow> sector_t \<Rightarrow> nat \<Rightarrow> u64 \<Rightarrow> bio" where
  "lo_new_bio bd sec nr_segs rw =
     (bio_alloc (min nr_segs BIO_MAX_PAGES))\<lparr>bi_sector := sec, bi_bdev := Some bd, bi_rw := rw\<rparr>"

definition alloc_new :: "'s redirect_env \<Rightarrow> bio \<Rightarrow> sector_t \<Rightarrow> 's redir \<Rightarrow> 's stop + 's redir" where
  "alloc_new E old sec st =
     (if env_alloc E (rd_allocs st)
      then Inr (st\<lparr>rd_new := Some (lo_new_bio (env_bdev E) sec (length (bi_io_vec old)) (bi_rw old)),
                   rd_allocs := Suc (rd_allocs st)\<rparr>)
      else Inl (Ended (- ENOMEM) (Some (- ENOMEM)) (rd_dev st)))"

section \<open>The loop over the segments of one block\<close>

definition load_segment :: "bio \<Rightarrow> 's redir \<Rightarrow> 's redir option" where
  "load_segment old st =
     (if rd_len st = 0 then
        (if rd_i st < length (bi_io_vec old) then
           (let v = bi_io_vec old ! rd_i st
            in Some (st\<lparr>rd_page := bv_page v, rd_off := bv_offset v, rd_len := bv_len v, rd_i := Suc (rd_i st)\<rparr>))
         else None)
      else Some st)"

definition add_piece :: "'s redirect_env \<Rightarrow> bio \<Rightarrow> sector_t \<Rightarrow> nat \<Rightarrow> 's redir \<Rightarrow> 's stop + 's redir" where
  "add_piece E old sec len st =
     (case rd_new st of
        None \<Rightarrow> Inl BadAccess
      | Some b \<Rightarrow>
          (let (ret, b1) = bio_add_page (env_queue E) b (rd_page st) len (rd_off st) in
           if ret = len then Inr (st\<lparr>rd_new := Some b1\<rparr>)
           else
             (case alloc_new E old sec (st\<lparr>rd_head := lo_send_bio (rd_head st) b1\<rparr>) of
                Inl x \<Rightarrow> Inl x
              | Inr st1 \<Rightarrow>
                  (case rd_new st1 of
                     None \<Rightarrow> Inl BadAccess
                   | Some nb \<Rightarrow>
                       (let (ret, b2) = bio_add_page (env_queue E) nb (rd_page st) len (rd_off st) in
                        if ret = len then Inr (st1\<lparr>rd_new := Some b2\<rparr>) else Inl Bug)))))"

text \<open>\<^verbatim>\<open>while (remaining_sectors > 0)\<close>.  A segment shorter than a sector makes no progress, hence the
  option.\<close>

partial_function (option) fill_block ::
  "'s redirect_env \<Rightarrow> bio \<Rightarrow> sector_t \<Rightarrow> nat \<Rightarrow> 's redir \<Rightarrow> ('s stop + 's redir) option" where
  "fill_block E old sec rem st =
     (if rem = 0 then Some (Inr st)
      else
        (case load_segment old st of
           None \<Rightarrow> Some (Inl BadAccess)
         | Some st1 \<Rightarrow>
             (case add_piece E old sec (512 * min rem (rd_len st1 div 512)) st1 of
                Inl x \<Rightarrow> Some (Inl x)
              | Inr st2 \<Rightarrow>
                  fill_block E old sec (rem - min rem (rd_len st1 div 512))
                    (st2\<lparr>rd_off := rd_off st1 + 512 * min rem (rd_len st1 div 512),
                         rd_len := rd_len st1 - 512 * min rem (rd_len st1 div 512)\<rparr>))))"

section \<open>The loop over the blocks of the request\<close>

definition sectors_per_block :: "nat \<Rightarrow> nat" where
  "sectors_per_block blkbits = 2 ^ (blkbits - 9)"

definition lookup_block ::
  "'s redirect_env \<Rightarrow> bio \<Rightarrow> sector_t \<Rightarrow> 's redir \<Rightarrow> ('s stop + sector_t \<times> 's redir) option" where
  "lookup_block E old blk st =
     (let b = block_cache_lookup (lo_cache (rd_dev st)) blk in
      if b \<noteq> 0 then Some (Inr (b, st))
      else
        (case translate_block (env_get_block E) (env_fsync E) (env_blkbits E) (env_prefetch E)
                (bi_rw old) blk (rd_dev st) of
           None \<Rightarrow> None
         | Some (e, b, d) \<Rightarrow>
             (if e \<noteq> 0 then Some (Inl (Ended (- EIO) None d)) else Some (Inr (b, st\<lparr>rd_dev := d\<rparr>)))))"

definition begin_bio :: "'s redirect_env \<Rightarrow> bio \<Rightarrow> sector_t \<Rightarrow> 's redir \<Rightarrow> 's stop + 's redir" where
  "begin_bio E old sec st =
     (case rd_new st of
        None \<Rightarrow> (if rd_count st \<noteq> 0 \<and> sec \<noteq> rd_next st then Inl BadAccess else alloc_new E old sec st)
      | Some b \<Rightarrow>
          (if rd_count st \<noteq> 0 \<and> sec \<noteq> rd_next st
           then alloc_new E old sec (st\<lparr>rd_head := lo_send_bio (rd_head st) b, rd_new := None\<rparr>)
           else Inr st))"

definition place_block ::
  "'s redirect_env \<Rightarrow> bio \<Rightarrow> sector_t \<Rightarrow> nat \<Rightarrow> 's redir \<Rightarrow> ('s stop + 's redir) option" where
  "place_block E old sec rem st =
     (case begin_bio E old sec st of
        Inl x \<Rightarrow> Some (Inl x)
      | Inr st1 \<Rightarrow>
          fill_block E old sec rem (st1\<lparr>rd_count := Suc (rd_count st1), rd_next := sec + rem\<rparr>))"

text \<open>One round: \<open>nr\<close> sectors are left, \<open>sec\<close> is the next one.\<close>

definition redirect_block ::
  "'s redirect_env \<Rightarrow> bio \<Rightarrow> nat \<Rightarrow> sector_t \<Rightarrow> 's redir \<Rightarrow> ('s stop + 's redir) option" where
  "redirect_block E old nr sec st =
     (let spb = sectors_per_block (env_blkbits E); rem = min nr (spb - sec mod spb) in
      case lookup_block E old (sec div spb) st of
        None \<Rightarrow> None
      | Some (Inl x) \<Rightarrow> Some (Inl x)
      | Some (Inr (b, st1)) \<Rightarrow> place_block E old (b * spb + sec mod spb) rem st1)"

lemma sectors_per_block_pos [simp]: "0 < sectors_per_block k"
  by (simp add: sectors_per_block_def)

lemma block_rest_pos [simp]: "0 < sectors_per_block k - sec mod sectors_per_block k"
  by simp

function redirect_loop ::
  "'s redirect_env \<Rightarrow> bio \<Rightarrow> nat \<Rightarrow> sector_t \<Rightarrow> 's redir \<Rightarrow> ('s stop + 's redir) option" where
  "redirect_loop E old nr sec st =
     (if nr = 0 then Some (Inr st)
      else
        (case redirect_block E old nr sec st of
           None \<Rightarrow> None
         | Some (Inl x) \<Rightarrow> Some (Inl x)
         | Some (Inr st1) \<Rightarrow>
             (let spb = sectors_per_block (env_blkbits E); rem = min nr (spb - sec mod spb)
              in redirect_loop E old (nr - rem) (sec + rem) st1)))"
  by pat_completeness auto

termination
  by (relation "measure (\<lambda>(E, old, nr, sec, st). nr)") (simp_all add: Suc_le_eq)

declare redirect_loop.simps [simp del]

section \<open>The function\<close>

definition init_redir :: "bio \<Rightarrow> 's lo_trans \<Rightarrow> 's redir" where
  "init_redir old d = \<lparr>rd_dev = d, rd_head = init_head old, rd_new = None, rd_count = 0, rd_next = 0,
     rd_i = bi_idx old, rd_page = 0, rd_off = 0, rd_len = 0, rd_allocs = 0\<rparr>"

definition flush_if_dirty ::
  "'s redirect_env \<Rightarrow> u64 \<Rightarrow> 's lo_trans \<Rightarrow> (errcode \<times> 's lo_trans) option" where
  "flush_if_dirty E rw d =
     (if lo_dirty d
      then flush_blocks (env_get_block E) (env_fsync E) (env_blkbits E) (env_prefetch E) rw d
      else Some (0, d))"

type_synonym 's redirect_result = "('s stop + event list \<times> errcode option \<times> 's lo_trans) option"

definition submit_parts :: "'s redirect_env \<Rightarrow> bio \<Rightarrow> 's redir \<Rightarrow> 's redirect_result" where
  "submit_parts E old st =
     (if rd_count st \<noteq> 0 \<and> rd_new st = None then Some (Inl BadAccess)
      else
      let ev = (if rd_count st = 0 then [EndIO 0]
                else map Submit (head_list (case rd_new st of Some b \<Rightarrow> lo_send_bio (rd_head st) b
                                                            | None \<Rightarrow> rd_head st))) in
      if flagged (bi_rw old) REQ_FUA then
        (case flush_if_dirty E (bi_rw old) (rd_dev st) of
           None \<Rightarrow> None
         | Some (e, d) \<Rightarrow>
             (if e \<noteq> 0 then Some (Inr (ev @ [EndIO e], Some e, d)) else Some (Inr (ev, Some 0, d))))
      else Some (Inr (ev, Some 0, rd_dev st)))"

definition bio_segments :: "bio \<Rightarrow> bio_vec list" where
  "bio_segments b = drop (bi_idx b) (bi_io_vec b)"

definition nr_sectors :: "bio \<Rightarrow> nat" where
  "nr_sectors b = sum_list (map (\<lambda>v. bv_len v div 512) (bio_segments b))"

definition redirect_empty :: "'s redirect_env \<Rightarrow> bio \<Rightarrow> 's lo_trans \<Rightarrow> 's redirect_result" where
  "redirect_empty E old d =
     (case flush_if_dirty E (bi_rw old) d of
        None \<Rightarrow> None
      | Some (e, d1) \<Rightarrow>
          (if e \<noteq> 0 then Some (Inr ([EndIO (- EIO)], None, d1))
           else Some (Inr ([SubmitFlush (bi_rw old)], Some 0, d1))))"

definition redirect_data :: "'s redirect_env \<Rightarrow> bio \<Rightarrow> 's lo_trans \<Rightarrow> 's redirect_result" where
  "redirect_data E old d =
     (case redirect_loop E old (nr_sectors old) (bi_sector old) (init_redir old d) of
        None \<Rightarrow> None
      | Some (Inl (Ended e r d1)) \<Rightarrow> Some (Inr ([EndIO e], r, d1))
      | Some (Inl x) \<Rightarrow> Some (Inl x)
      | Some (Inr st) \<Rightarrow> submit_parts E old st)"

definition loop_handle_bio :: "bio \<Rightarrow> event list" where
  "loop_handle_bio b = (if bi_bdev b = None then [Switched, Put] else [])"

definition after :: "event list \<Rightarrow> 's redirect_result \<Rightarrow> 's redirect_result" where
  "after ev r = map_option (map_sum id (\<lambda>(es, x). (ev @ es, x))) r"

definition redirect_bio :: "'s redirect_env \<Rightarrow> bio \<Rightarrow> 's lo_trans \<Rightarrow> 's redirect_result" where
  "redirect_bio E old d =
     after (loop_handle_bio old)
       (if nr_sectors old = 0 \<and> flagged (bi_rw old) (REQ_FLUSH OR REQ_FUA) then redirect_empty E old d
        else if flagged (bi_rw old) REQ_FLUSH then
          (case flush_if_dirty E (bi_rw old) d of
             None \<Rightarrow> None
           | Some (e, d1) \<Rightarrow>
               (if e \<noteq> 0 then Some (Inr ([EndIO (- EIO)], Some e, d1)) else redirect_data E old d1))
        else redirect_data E old d)"

section \<open>What is left to transfer, and what the parts transfer\<close>

definition rest_mem :: "bio \<Rightarrow> 's redir \<Rightarrow> (nat \<times> nat) list" where
  "rest_mem old st =
     bvec_sectors \<lparr>bv_page = rd_page st, bv_offset = rd_off st, bv_len = rd_len st\<rparr> @
     mem_sectors (drop (rd_i st) (bi_io_vec old))"

definition out_map :: "'s redir \<Rightarrow> (sector_t \<times> (nat \<times> nat)) list" where
  "out_map st = concat (map io_map (head_list (rd_head st))) @
     (case rd_new st of None \<Rightarrow> [] | Some b \<Rightarrow> io_map b)"

definition bio_end :: "bio \<Rightarrow> sector_t" where
  "bio_end b = bi_sector b + length (mem_sectors (bi_io_vec b))"

definition segs_ok :: "bio_vec list \<Rightarrow> bool" where
  "segs_ok vs \<longleftrightarrow> (\<forall>v \<in> set vs. 512 dvd bv_len v \<and> 0 < bv_len v)"

definition seg_st :: "bio \<Rightarrow> 's redir \<Rightarrow> bool" where
  "seg_st old st \<longleftrightarrow> segs_ok (drop (rd_i st) (bi_io_vec old)) \<and> 512 dvd rd_len st"

definition redir_ok :: "bio \<Rightarrow> nat \<Rightarrow> 's redir \<Rightarrow> bool" where
  "redir_ok old nr st \<longleftrightarrow>
     length (rest_mem old st) = nr \<and> segs_ok (drop (rd_i st) (bi_io_vec old)) \<and> 512 dvd rd_len st \<and>
     (case rd_new st of None \<Rightarrow> rd_count st = 0
      | Some b \<Rightarrow> rd_count st \<noteq> 0 \<and> whole_sectors (bi_io_vec b) \<and> bio_end b = rd_next st)"

lemma zip_upt_append:
  "zip [a..<a + length (xs @ ys)] (xs @ ys) =
   zip [a..<a + length xs] xs @ zip [a + length xs..<a + length xs + length ys] ys"
proof -
  have "[a..<a + length (xs @ ys)] = [a..<a + length xs] @ [a + length xs..<a + length xs + length ys]"
    using upt_add_eq_append [of a "a + length xs" "length ys"] by (simp add: add.assoc)
  then show ?thesis by simp
qed

lemma io_map_extend:
  assumes "mem_sectors (bi_io_vec b') = mem_sectors (bi_io_vec b) @ xs" and "bi_sector b' = bi_sector b"
  shows "io_map b' = io_map b @ zip [bio_end b..<bio_end b + length xs] xs"
    and "bio_end b' = bio_end b + length xs"
  using assms zip_upt_append [of "bi_sector b" "mem_sectors (bi_io_vec b)" xs]
  by (simp_all add: io_map_def bio_end_def Let_def)

lemma io_map_new [simp]: "io_map (lo_new_bio bd sec n rw) = []" "bio_end (lo_new_bio bd sec n rw) = sec"
  "bi_io_vec (lo_new_bio bd sec n rw) = []"
  by (simp_all add: io_map_def bio_end_def lo_new_bio_def bio_alloc_def mem_sectors_def)

text \<open>Adding one piece, whether the current request takes it or a new one has to be started at
  \<open>sec\<close>.  The second case is right only where the current request ends at \<open>sec\<close>.\<close>

lemma bio_add_page_io_map:
  assumes "bio_add_page q b page len off = (len, b')" and "0 < len" and "512 dvd len" and "whole_sectors (bi_io_vec b)"
  shows "io_map b' = io_map b @ zip [bio_end b..<bio_end b + len div 512]
           (bvec_sectors \<lparr>bv_page = page, bv_offset = off, bv_len = len\<rparr>)"
    and "bio_end b' = bio_end b + len div 512" and "whole_sectors (bi_io_vec b')"
  using io_map_extend [OF bio_add_page_sectors(1) [OF assms]] bio_add_page_fields [OF assms(1)]
    bio_add_page_sectors(2) [OF assms] by auto

lemma add_piece_accepted:
  assumes "rd_new st = Some b" and "bio_add_page (env_queue E) b (rd_page st) len (rd_off st) = (len, b')"
  shows "add_piece E old sec len st = Inr (st\<lparr>rd_new := Some b'\<rparr>)"
  using assms by (simp add: add_piece_def)

lemma add_piece_refused:
  assumes "rd_new st = Some b" and "bio_add_page (env_queue E) b (rd_page st) len (rd_off st) = (n, b')" and "n \<noteq> len"
    and "env_alloc E (rd_allocs st)"
    and "bio_add_page (env_queue E) (lo_new_bio (env_bdev E) sec (length (bi_io_vec old)) (bi_rw old))
           (rd_page st) len (rd_off st) = (len, b2)"
  shows "add_piece E old sec len st =
    Inr (st\<lparr>rd_head := lo_send_bio (rd_head st) b', rd_new := Some b2, rd_allocs := Suc (rd_allocs st)\<rparr>)"
  using assms by (simp add: add_piece_def alloc_new_def)

lemma bvec_sectors_split:
  assumes "k * 512 \<le> len"
  shows "bvec_sectors \<lparr>bv_page = p, bv_offset = off, bv_len = len\<rparr> =
         bvec_sectors \<lparr>bv_page = p, bv_offset = off, bv_len = 512 * k\<rparr> @
         bvec_sectors \<lparr>bv_page = p, bv_offset = off + 512 * k, bv_len = len - 512 * k\<rparr>"
  using bvec_sectors_merge [of "\<lparr>bv_page = p, bv_offset = off, bv_len = 512 * k\<rparr>" "len - 512 * k"] assms by simp

lemma rest_mem_load:
  assumes "load_segment old st = Some st1"
  shows "rest_mem old st1 = rest_mem old st" and "st1 = st\<lparr>rd_page := rd_page st1, rd_off := rd_off st1,
    rd_len := rd_len st1, rd_i := rd_i st1\<rparr>"
  using assms
  by (auto simp: load_segment_def rest_mem_def bvec_sectors_def bio_simps Let_def Cons_nth_drop_Suc [symmetric]
      split: if_splits)

lemma load_segment_ok:
  assumes "seg_st old st" and "rest_mem old st \<noteq> []"
  shows "\<exists>st1. load_segment old st = Some st1 \<and> 0 < rd_len st1 \<and> seg_st old st1 \<and>
    (rd_len st = 0 \<longrightarrow> rd_i st1 = Suc (rd_i st) \<and> rd_i st < length (bi_io_vec old) \<and>
       rd_len st1 = bv_len (bi_io_vec old ! rd_i st)) \<and> (rd_len st \<noteq> 0 \<longrightarrow> st1 = st)"
proof (cases "rd_len st = 0")
  case False
  then show ?thesis using assms by (simp add: load_segment_def)
next
  case True
  have i: "rd_i st < length (bi_io_vec old)"
  proof (rule ccontr)
    assume "\<not> ?thesis"
    then have "rest_mem old st = []" using True by (simp add: rest_mem_def bvec_sectors_def mem_sectors_def)
    then show False using assms by simp
  qed
  have so: "segs_ok (bi_io_vec old ! rd_i st # drop (Suc (rd_i st)) (bi_io_vec old))"
    using assms(1) i by (simp add: seg_st_def Cons_nth_drop_Suc)
  then show ?thesis using True i by (simp add: load_segment_def Let_def segs_ok_def seg_st_def)
qed

section \<open>The loop over blocks, for any way of placing a block that works\<close>

text \<open>The rounds of the loop, \<open>nr\<close> sectors left at \<open>sec\<close>; \<open>J\<close> is what the caller keeps of the segments.\<close>

definition block_rest :: "nat \<Rightarrow> nat \<Rightarrow> sector_t \<Rightarrow> nat" where
  "block_rest blkbits nr sec = min nr (sectors_per_block blkbits - sec mod sectors_per_block blkbits)"

definition place_post :: "bio \<Rightarrow> sector_t \<Rightarrow> nat \<Rightarrow> nat \<Rightarrow> 's redir \<Rightarrow> 's redir \<Rightarrow> bool" where
  "place_post old phys rem nr st st' \<longleftrightarrow>
     redir_ok old (nr - rem) st' \<and> rd_dev st' = rd_dev st \<and> rd_count st' = Suc (rd_count st) \<and>
     rest_mem old st' = drop rem (rest_mem old st) \<and>
     out_map st' = out_map st @ zip [phys..<phys + rem] (take rem (rest_mem old st))"

definition places :: "'s redirect_env \<Rightarrow> bio \<Rightarrow> (nat \<Rightarrow> sector_t \<Rightarrow> 's redir \<Rightarrow> bool) \<Rightarrow> bool" where
  "places E old J \<longleftrightarrow>
     (\<forall>nr sec st d. J nr sec st \<longrightarrow> J nr sec (st\<lparr>rd_dev := d\<rparr>)) \<and>
     (\<forall>nr sec phys st. 0 < nr \<and> J nr sec st \<and> redir_ok old nr st \<longrightarrow>
        (\<exists>st'. place_block E old phys (block_rest (env_blkbits E) nr sec) st = Some (Inr st') \<and>
           J (nr - block_rest (env_blkbits E) nr sec) (sec + block_rest (env_blkbits E) nr sec) st' \<and>
           place_post old phys (block_rest (env_blkbits E) nr sec) nr st st'))"

text \<open>The place on the disk of a sector of the device under block map \<open>M\<close>.\<close>

definition disk_sector :: "nat \<Rightarrow> (sector_t \<Rightarrow> sector_t) \<Rightarrow> sector_t \<Rightarrow> sector_t" where
  "disk_sector blkbits M s =
     M (s div sectors_per_block blkbits) * sectors_per_block blkbits + s mod sectors_per_block blkbits"

lemma block_rest_bounds:
  "0 < nr \<Longrightarrow> 0 < block_rest k nr sec" "block_rest k nr sec \<le> nr"
  "sec mod sectors_per_block k + block_rest k nr sec \<le> sectors_per_block k"
  by (auto simp: block_rest_def min_def) (metis diff_is_0_eq mod_less_divisor nat_le_linear not_le sectors_per_block_pos less_imp_le_nat le_add_diff_inverse add_le_mono1 le_diff_conv2 add.commute)+

lemma disk_sector_block:
  assumes "j < block_rest k nr sec"
  shows "disk_sector k M (sec + j) =
    M (sec div sectors_per_block k) * sectors_per_block k + sec mod sectors_per_block k + j"
proof -
  let ?b = "sectors_per_block k"
  have lt: "sec mod ?b + j < ?b" using assms block_rest_bounds(3) [of sec k nr] by linarith
  have "sec + j = sec div ?b * ?b + (sec mod ?b + j)" by (simp add: add.assoc [symmetric])
  then have "(sec + j) div ?b = sec div ?b" and "(sec + j) mod ?b = sec mod ?b + j"
    using lt by (metis div_mult_self3 div_less add.right_neutral add.commute sectors_per_block_pos
        less_numeral_extra(3), metis lt mod_less mod_mult_self3)
  then show ?thesis by (simp add: disk_sector_def)
qed

lemma disk_sectors_block:
  "map (disk_sector k M) [sec..<sec + block_rest k nr sec] =
   (let a = M (sec div sectors_per_block k) * sectors_per_block k + sec mod sectors_per_block k
    in [a..<a + block_rest k nr sec])"
  by (rule nth_equalityI) (simp_all add: disk_sector_block Let_def)

definition env_ok :: "'s redirect_env \<Rightarrow> ('s \<Rightarrow> sector_t \<Rightarrow> sector_t) \<Rightarrow> ('s \<Rightarrow> bool) \<Rightarrow> bool" where
  "env_ok E bmap fs_inv \<longleftrightarrow>
     block_mapper (env_get_block E) bmap (env_blkbits E) fs_inv \<and> fsync_keeps (env_fsync E) bmap fs_inv \<and>
     0 < env_prefetch E"

text \<open>What a call may do to the device: keep the invariant and the empty queue, and extend the map
  only for a write.\<close>

definition dev_step :: "('s \<Rightarrow> sector_t \<Rightarrow> sector_t) \<Rightarrow> ('s \<Rightarrow> bool) \<Rightarrow> u64 \<Rightarrow> 's lo_trans \<Rightarrow> 's lo_trans \<Rightarrow> bool" where
  "dev_step bmap fs_inv rw d d' \<longleftrightarrow>
     trans_inv bmap fs_inv d' \<and> lo_cio_list d' = [] \<and> map_grows (bmap (lo_fs d)) (bmap (lo_fs d')) \<and>
     (\<not> flagged rw REQ_WRITE \<longrightarrow> bmap (lo_fs d') = bmap (lo_fs d))"

lemma dev_step_refl: "trans_inv bmap fs_inv d \<Longrightarrow> lo_cio_list d = [] \<Longrightarrow> dev_step bmap fs_inv rw d d"
  by (simp add: dev_step_def)

lemma dev_step_trans: "dev_step bmap fs_inv rw d e \<Longrightarrow> dev_step bmap fs_inv rw e f \<Longrightarrow> dev_step bmap fs_inv rw d f"
  by (auto simp: dev_step_def intro: map_grows_trans)

text \<open>The steps before the flush also keep the dirty mark.\<close>

definition walk_step :: "('s \<Rightarrow> sector_t \<Rightarrow> sector_t) \<Rightarrow> ('s \<Rightarrow> bool) \<Rightarrow> u64 \<Rightarrow> 's lo_trans \<Rightarrow> 's lo_trans \<Rightarrow> bool" where
  "walk_step bmap fs_inv rw d d' \<longleftrightarrow> dev_step bmap fs_inv rw d d' \<and> (lo_dirty d \<longrightarrow> lo_dirty d')"

lemma walk_step_dev: "walk_step bmap fs_inv rw d d' \<Longrightarrow> dev_step bmap fs_inv rw d d'"
  by (simp add: walk_step_def)

lemma walk_step_refl: "trans_inv bmap fs_inv d \<Longrightarrow> lo_cio_list d = [] \<Longrightarrow> walk_step bmap fs_inv rw d d"
  by (simp add: walk_step_def dev_step_refl)

lemma walk_step_trans: "walk_step bmap fs_inv rw d e \<Longrightarrow> walk_step bmap fs_inv rw e f \<Longrightarrow> walk_step bmap fs_inv rw d f"
  by (auto simp: walk_step_def intro: dev_step_trans)

text \<open>\<open>block_fails\<close>: the file system reports an error for a block of the \<open>nr\<close> sectors from \<open>sec\<close>, asked for with
  the prefetch length, in a state that the device \<open>d\<close> can be in while the request is served.\<close>

definition block_fails ::
  "'s redirect_env \<Rightarrow> ('s \<Rightarrow> sector_t \<Rightarrow> sector_t) \<Rightarrow> ('s \<Rightarrow> bool) \<Rightarrow> u64 \<Rightarrow> 's lo_trans \<Rightarrow> sector_t \<Rightarrow> nat \<Rightarrow> bool" where
  "block_fails E bmap fs_inv rw d sec nr \<longleftrightarrow>
     (\<exists>d1 q. dev_step bmap fs_inv rw d d1 \<and> sec \<le> q \<and> q < sec + nr \<and>
        fst (env_get_block E (lo_fs d1) (q div sectors_per_block (env_blkbits E))
               (env_prefetch E * 2 ^ env_blkbits E) (flagged rw REQ_WRITE)) \<noteq> 0)"

lemma block_fails_later:
  assumes "dev_step bmap fs_inv rw d d1" and "block_fails E bmap fs_inv rw d1 (sec + m) n" and "m + n \<le> nr"
  shows "block_fails E bmap fs_inv rw d sec nr"
proof -
  from assms(2) obtain d2 q where "dev_step bmap fs_inv rw d1 d2" and "sec + m \<le> q" and "q < sec + m + n"
    and "fst (env_get_block E (lo_fs d2) (q div sectors_per_block (env_blkbits E))
               (env_prefetch E * 2 ^ env_blkbits E) (flagged rw REQ_WRITE)) \<noteq> 0"
    unfolding block_fails_def by blast
  with dev_step_trans [OF assms(1)] assms(3) show ?thesis unfolding block_fails_def
    by (intro exI [of _ d2] exI [of _ q]) auto
qed

lemma lookup_block_run:
  assumes "env_ok E bmap fs_inv" and "trans_inv bmap fs_inv (rd_dev st)" and "lo_cio_list (rd_dev st) = []"
  shows "(\<exists>d. lookup_block E old blk st = Some (Inl (Ended (- EIO) None d)) \<and>
            walk_step bmap fs_inv (bi_rw old) (rd_dev st) d \<and>
            fst (env_get_block E (lo_fs (rd_dev st)) blk (env_prefetch E * 2 ^ env_blkbits E)
                   (flagged (bi_rw old) REQ_WRITE)) \<noteq> 0) \<or>
         (\<exists>d. lookup_block E old blk st = Some (Inr (bmap (lo_fs d) blk, st\<lparr>rd_dev := d\<rparr>)) \<and>
            walk_step bmap fs_inv (bi_rw old) (rd_dev st) d \<and>
            (flagged (bi_rw old) REQ_WRITE \<longrightarrow> bmap (lo_fs d) blk \<noteq> 0))"
proof (cases "block_cache_lookup (lo_cache (rd_dev st)) blk = 0")
  case False
  then have "block_cache_lookup (lo_cache (rd_dev st)) blk = bmap (lo_fs (rd_dev st)) blk"
    using bc.lookup_coherent assms(2) by (simp add: trans_inv_def)
  then show ?thesis
    using False assms(2,3) by (intro disjI2 exI [of _ "rd_dev st"]) (simp add: lookup_block_def Let_def walk_step_refl)
next
  case True
  have bm: "block_mapper (env_get_block E) bmap (env_blkbits E) fs_inv" and fk: "fsync_keeps (env_fsync E) bmap fs_inv"
    and pf: "0 < env_prefetch E" using assms(1) by (simp_all add: env_ok_def)
  from block_mapper.translate_block_run [OF bm assms(2) fk pf, of "bi_rw old" blk] assms(3) obtain e b d
    where t: "translate_block (env_get_block E) (env_fsync E) (env_blkbits E) (env_prefetch E)
                (bi_rw old) blk (rd_dev st) = Some (e, b, d)"
      and post: "trans_inv bmap fs_inv d" "map_grows (bmap (lo_fs (rd_dev st))) (bmap (lo_fs d))" "lo_cio_list d = []"
      and eb: "e = 0 \<longrightarrow> b = bmap (lo_fs d) blk \<and> (flagged (bi_rw old) REQ_WRITE \<longrightarrow> b \<noteq> 0)" by auto
  note al = block_mapper.translate_block_alone [OF bm assms(2) pf assms(3) t]
  have "walk_step bmap fs_inv (bi_rw old) (rd_dev st) d"
    using post al by (auto simp: dev_step_def walk_step_def)
  then show ?thesis using True t eb al by (cases "e = 0") (auto simp: lookup_block_def Let_def)
qed

text \<open>The sectors of a written or read range are at the same place under every later map.\<close>

lemma disk_sectors_later:
  assumes "dev_step bmap fs_inv rw d d'" and "flagged rw REQ_WRITE \<longrightarrow> bmap (lo_fs d) (sec div sectors_per_block k) \<noteq> 0"
  shows "map (disk_sector k (bmap (lo_fs d))) [sec..<sec + block_rest k nr sec] =
         map (disk_sector k (bmap (lo_fs d'))) [sec..<sec + block_rest k nr sec]"
  using assms unfolding disk_sectors_block dev_step_def map_grows_def by (cases "flagged rw REQ_WRITE") auto

lemma disk_zip_step:
  assumes "dev_step bmap fs_inv rw d d'" and "flagged rw REQ_WRITE \<longrightarrow> bmap (lo_fs d) (sec div sectors_per_block k) \<noteq> 0"
    and "a = bmap (lo_fs d) (sec div sectors_per_block k) * sectors_per_block k + sec mod sectors_per_block k"
    and "r = block_rest k nr sec" and "length mem = nr"
  shows "zip [a..<a + r] (take r mem) @ zip (map (disk_sector k (bmap (lo_fs d'))) [sec + r..<sec + nr]) (drop r mem) =
         zip (map (disk_sector k (bmap (lo_fs d'))) [sec..<sec + nr]) mem"
proof -
  let ?D = "disk_sector k (bmap (lo_fs d'))"
  have "r \<le> nr" using assms(4) block_rest_bounds(2) by simp
  then have "[sec..<sec + nr] = [sec..<sec + r] @ [sec + r..<sec + nr]"
    using upt_add_eq_append [of sec "sec + r" "nr - r"] by simp
  moreover have "[a..<a + r] = map ?D [sec..<sec + r]"
    using disk_sectors_later [OF assms(1,2), of nr] disk_sectors_block [of k "bmap (lo_fs d)" sec nr] assms(3,4)
    by (simp add: Let_def)
  ultimately show ?thesis using \<open>r \<le> nr\<close> assms(5) by (simp add: zip_append1)
qed

lemma redirect_loop_run:
  assumes "env_ok E bmap fs_inv" and "places E old J" and "J nr sec st" and "redir_ok old nr st"
    and "trans_inv bmap fs_inv (rd_dev st)" and "lo_cio_list (rd_dev st) = []"
  shows "(\<exists>d. redirect_loop E old nr sec st = Some (Inl (Ended (- EIO) None d)) \<and>
            walk_step bmap fs_inv (bi_rw old) (rd_dev st) d \<and> block_fails E bmap fs_inv (bi_rw old) (rd_dev st) sec nr) \<or>
         (\<exists>st'. redirect_loop E old nr sec st = Some (Inr st') \<and>
            walk_step bmap fs_inv (bi_rw old) (rd_dev st) (rd_dev st') \<and> redir_ok old 0 st' \<and>
            (0 < nr \<or> 0 < rd_count st \<longrightarrow> 0 < rd_count st') \<and>
            out_map st' = out_map st @
              zip (map (disk_sector (env_blkbits E) (bmap (lo_fs (rd_dev st')))) [sec..<sec + nr]) (rest_mem old st))"
  using assms(3-6)
proof (induction nr arbitrary: sec st rule: less_induct)
  case (less nr)
  let ?k = "env_blkbits E" let ?b = "sectors_per_block ?k" let ?r = "block_rest ?k nr sec"
  let ?ph = "\<lambda>M. M (sec div ?b) * ?b + sec mod ?b"
  note unf = redirect_loop.simps [of E old nr] redirect_block_def Let_def block_rest_def [symmetric]
  show ?case
  proof (cases "nr = 0")
    case True
    then have "rest_mem old st = []" using less.prems(2) by (simp add: redir_ok_def)
    then show ?thesis using True less.prems(2-4) by (simp add: redirect_loop.simps [of E old 0] walk_step_refl)
  next
    case False
    note r = block_rest_bounds(1) [of nr ?k sec] block_rest_bounds(2) [of ?k nr sec]
    from lookup_block_run [OF assms(1) less.prems(3,4), of old "sec div ?b"]
    consider (err) d where "lookup_block E old (sec div ?b) st = Some (Inl (Ended (- EIO) None d))"
        "walk_step bmap fs_inv (bi_rw old) (rd_dev st) d"
        "fst (env_get_block E (lo_fs (rd_dev st)) (sec div ?b) (env_prefetch E * 2 ^ ?k)
           (flagged (bi_rw old) REQ_WRITE)) \<noteq> 0"
      | (ok) d where "lookup_block E old (sec div ?b) st = Some (Inr (bmap (lo_fs d) (sec div ?b), st\<lparr>rd_dev := d\<rparr>))"
        "walk_step bmap fs_inv (bi_rw old) (rd_dev st) d"
        "flagged (bi_rw old) REQ_WRITE \<longrightarrow> bmap (lo_fs d) (sec div ?b) \<noteq> 0" by blast
    then show ?thesis
    proof cases
      case err
      have "block_fails E bmap fs_inv (bi_rw old) (rd_dev st) sec nr"
        using err(3) False dev_step_refl [OF less.prems(3,4)] unfolding block_fails_def
        by (intro exI [of _ "rd_dev st"] exI [of _ sec]) simp
      with err(1,2) show ?thesis using False by (simp add: unf)
    next
      case ok
      let ?s = "st\<lparr>rd_dev := d\<rparr>"
      have "redir_ok old nr ?s" using less.prems(2) by (simp add: redir_ok_def rest_mem_def cong: option.case_cong)
      then obtain st1 where p: "place_block E old (?ph (bmap (lo_fs d))) ?r ?s = Some (Inr st1)"
        and j: "J (nr - ?r) (sec + ?r) st1" and post: "place_post old (?ph (bmap (lo_fs d))) ?r nr ?s st1"
        using assms(2) False less.prems(1) unfolding places_def by blast
      have dev: "rd_dev st1 = d" and ok1: "redir_ok old (nr - ?r) st1" and mem: "rest_mem old st1 = drop ?r (rest_mem old st)"
        and out: "out_map st1 = out_map st @ zip [?ph (bmap (lo_fs d))..<?ph (bmap (lo_fs d)) + ?r] (take ?r (rest_mem old st))"
        and cnt: "0 < rd_count st1"
        using post by (simp_all add: place_post_def rest_mem_def out_map_def)
      have step: "redirect_loop E old nr sec st = redirect_loop E old (nr - ?r) (sec + ?r) st1"
        using False ok(1) p by (simp add: unf)
      have "trans_inv bmap fs_inv (rd_dev st1)" and "lo_cio_list (rd_dev st1) = []"
        using ok(2) dev by (simp_all add: walk_step_def dev_step_def)
      note IH = less.IH [OF _ j ok1 this]
      have len: "length (rest_mem old st) = nr" using less.prems(2) by (simp add: redir_ok_def)
      have "nr - ?r < nr" and "sec + ?r + (nr - ?r) = sec + nr" using r False by simp_all
      note IH' = IH [OF this(1), unfolded this(2) dev mem out, folded step]
      have zs: "dev_step bmap fs_inv (bi_rw old) d d' \<Longrightarrow>
          zip [?ph (bmap (lo_fs d))..<?ph (bmap (lo_fs d)) + ?r] (take ?r (rest_mem old st)) @
          zip (map (disk_sector ?k (bmap (lo_fs d'))) [sec + ?r..<sec + nr]) (drop ?r (rest_mem old st)) =
          zip (map (disk_sector ?k (bmap (lo_fs d'))) [sec..<sec + nr]) (rest_mem old st)" for d'
        by (rule disk_zip_step [where bmap = bmap and d = d, OF _ ok(3) refl refl len])
      from IH' show ?thesis
      proof (elim disjE exE conjE, goal_cases)
        case (1 d')
        then show ?case using walk_step_trans [OF ok(2)] block_fails_later [OF walk_step_dev [OF ok(2)] 1(3), of nr] r(2)
          by auto
      next
        case (2 st')
        then show ?case using walk_step_trans [OF ok(2) 2(2)] cnt zs [OF walk_step_dev [OF 2(2)]]
          by (intro disjI2 exI [of _ st']) simp
      qed
    qed
  qed
qed

section \<open>Placing one block\<close>

definition new_ok :: "sector_t \<Rightarrow> 's redir \<Rightarrow> bool" where
  "new_ok cur st \<longleftrightarrow> (\<exists>b. rd_new st = Some b \<and> whole_sectors (bi_io_vec b) \<and> bio_end b = cur)"

text \<open>A piece of \<open>tw\<close> sectors goes to disk sector \<open>cur\<close>, where the parts built so far end.\<close>

definition placed :: "bio \<Rightarrow> sector_t \<Rightarrow> nat \<Rightarrow> 's redir \<Rightarrow> 's redir \<Rightarrow> bool" where
  "placed old cur tw st st' \<longleftrightarrow>
     new_ok (cur + tw) st' \<and> rest_mem old st' = drop tw (rest_mem old st) \<and>
     out_map st' = out_map st @ zip [cur..<cur + tw] (take tw (rest_mem old st)) \<and>
     rd_dev st' = rd_dev st \<and> rd_count st' = rd_count st \<and> rd_next st' = rd_next st"

lemma add_piece_out:
  assumes "add_piece E old sec (512 * tw) st = Inr st'" and "rd_new st = Some b" and "whole_sectors (bi_io_vec b)"
    and "0 < tw" and "fst (bio_add_page (env_queue E) b (rd_page st) (512 * tw) (rd_off st)) = 512 * tw \<or> bio_end b = sec"
  shows "new_ok (bio_end b + tw) st' \<and> out_map st' = out_map st @ zip [bio_end b..<bio_end b + tw]
      (bvec_sectors \<lparr>bv_page = rd_page st, bv_offset = rd_off st, bv_len = 512 * tw\<rparr>)"
proof -
  obtain n b1 where a: "bio_add_page (env_queue E) b (rd_page st) (512 * tw) (rd_off st) = (n, b1)" by fastforce
  have d: "0 < 512 * tw" "512 dvd 512 * tw" using assms(4) by simp_all
  show ?thesis
  proof (cases "n = 512 * tw")
    case True
    with a have "bio_add_page (env_queue E) b (rd_page st) (512 * tw) (rd_off st) = (512 * tw, b1)" by simp
    from bio_add_page_io_map [OF this d assms(3)] add_piece_accepted [OF assms(2) this] show ?thesis
      using assms(1,2) by (auto simp: new_ok_def out_map_def)
  next
    case False
    then have sec: "bio_end b = sec" using assms(5) a by simp
    have "n = 0" using bio_add_page_len [OF a] False by simp
    then have io: "io_map b1 = io_map b"
      using a bio_add_page_refused [of _ b _ "512 * tw"] bio_add_page_fields [OF a] d(1) by (simp add: io_map_def)
    obtain n2 b2 where a2: "bio_add_page (env_queue E) (lo_new_bio (env_bdev E) sec (length (bi_io_vec old)) (bi_rw old))
        (rd_page st) (512 * tw) (rd_off st) = (n2, b2)" by fastforce
    then have n2: "n2 = 512 * tw" and al: "env_alloc E (rd_allocs st)"
      and st': "st' = st\<lparr>rd_head := lo_send_bio (rd_head st) b1, rd_new := Some b2, rd_allocs := Suc (rd_allocs st)\<rparr>"
      using assms(1,2) a False by (auto simp: add_piece_def alloc_new_def split: if_splits)
    from bio_add_page_io_map [OF a2 [unfolded n2] d] show ?thesis
      using io sec assms(2) by (simp add: st' new_ok_def out_map_def)
  qed
qed

lemma add_piece_fields:
  "add_piece E old sec len st = Inr st' \<Longrightarrow> rd_dev st' = rd_dev st \<and> rd_count st' = rd_count st \<and>
     rd_next st' = rd_next st \<and> rd_i st' = rd_i st \<and> rd_page st' = rd_page st"
  by (auto simp: add_piece_def alloc_new_def split: option.splits prod.splits if_splits sum.splits)

lemma piece_placed:
  assumes "load_segment old st = Some st1" and "add_piece E old sec (512 * tw) st1 = Inr st2"
    and "new_ok cur st" and "0 < tw" and "512 * tw \<le> rd_len st1"
    and "\<forall>b. rd_new st = Some b \<longrightarrow>
           fst (bio_add_page (env_queue E) b (rd_page st1) (512 * tw) (rd_off st1)) = 512 * tw \<or> cur = sec"
  shows "placed old cur tw st (st2\<lparr>rd_off := rd_off st1 + 512 * tw, rd_len := rd_len st1 - 512 * tw\<rparr>)"
proof -
  obtain b where b: "rd_new st = Some b" "whole_sectors (bi_io_vec b)" "bio_end b = cur"
    using assms(3) by (auto simp: new_ok_def)
  note l = rest_mem_load [OF assms(1)]
  have "rd_new st1 = Some b" by (subst l(2)) (simp add: b)
  from add_piece_out [OF assms(2) this b(2) assms(4)] assms(6) b
  have o: "new_ok (cur + tw) st2" "out_map st2 = out_map st1 @ zip [cur..<cur + tw]
      (bvec_sectors \<lparr>bv_page = rd_page st1, bv_offset = rd_off st1, bv_len = 512 * tw\<rparr>)" by auto
  have f: "rd_dev st1 = rd_dev st" "rd_count st1 = rd_count st" "rd_next st1 = rd_next st" "out_map st1 = out_map st"
    by (subst l(2); simp add: out_map_def)+
  have rm: "rest_mem old st = bvec_sectors \<lparr>bv_page = rd_page st1, bv_offset = rd_off st1, bv_len = 512 * tw\<rparr> @
      bvec_sectors \<lparr>bv_page = rd_page st1, bv_offset = rd_off st1 + 512 * tw, bv_len = rd_len st1 - 512 * tw\<rparr> @
      mem_sectors (drop (rd_i st1) (bi_io_vec old))"
    using bvec_sectors_split [of tw "rd_len st1" "rd_page st1" "rd_off st1"] assms(5)
    by (subst l(1) [symmetric]) (simp add: rest_mem_def)
  show ?thesis
    using o f add_piece_fields [OF assms(2)] rm by (simp add: placed_def new_ok_def out_map_def rest_mem_def)
qed

lemma placed_trans:
  assumes "placed old cur m st st1" and "placed old (cur + m) n st1 st2" and "m + n \<le> length (rest_mem old st)"
  shows "placed old cur (m + n) st st2"
proof -
  let ?r = "rest_mem old st"
  have "take (m + n) ?r = take m ?r @ take n (drop m ?r)" by (simp add: take_add)
  moreover have "[cur..<cur + (m + n)] = [cur..<cur + m] @ [cur + m..<cur + m + n]"
    using upt_add_eq_append [of cur "cur + m" n] by (simp add: add.assoc)
  ultimately have "zip [cur..<cur + (m + n)] (take (m + n) ?r) =
      zip [cur..<cur + m] (take m ?r) @ zip [cur + m..<cur + m + n] (take n (drop m ?r))"
    using assms(3) by (simp del: append_assoc)
  then show ?thesis using assms(1,2) by (simp add: placed_def add.assoc add.commute [of m])
qed

lemma begin_bio_ok:
  assumes "redir_ok old nr st" and "\<forall>n. env_alloc E n"
  shows "\<exists>st1. begin_bio E old phys st = Inr st1 \<and> new_ok phys st1 \<and> out_map st1 = out_map st \<and>
    rest_mem old st1 = rest_mem old st \<and> rd_dev st1 = rd_dev st \<and> rd_count st1 = rd_count st \<and>
    rd_i st1 = rd_i st \<and> rd_page st1 = rd_page st \<and> rd_off st1 = rd_off st \<and> rd_len st1 = rd_len st \<and>
    (rd_new st1 = rd_new st \<or>
     rd_new st1 = Some (lo_new_bio (env_bdev E) phys (length (bi_io_vec old)) (bi_rw old)))"
proof (cases "rd_new st")
  case None
  then show ?thesis using assms by (auto simp: begin_bio_def alloc_new_def redir_ok_def new_ok_def out_map_def rest_mem_def)
next
  case (Some b)
  then show ?thesis
    using assms by (cases "phys = rd_next st")
      (auto simp: begin_bio_def alloc_new_def redir_ok_def new_ok_def out_map_def rest_mem_def)
qed

lemma fill_block_piece:
  assumes "0 < rem" and "load_segment old st = Some st1" and "tw = min rem (rd_len st1 div 512)"
    and "add_piece E old sec (512 * tw) st1 = Inr st2"
  shows "fill_block E old sec rem st = fill_block E old sec (rem - tw)
    (st2\<lparr>rd_off := rd_off st1 + 512 * tw, rd_len := rd_len st1 - 512 * tw\<rparr>)"
  using assms by (simp add: fill_block.simps [of E old sec rem])

lemma fill_block_done: "fill_block E old sec 0 st = Some (Inr st)"
  by (simp add: fill_block.simps)

lemma places_from_fill:
  assumes "\<forall>n. env_alloc E n" and "redir_ok old nr st" and "rem \<le> nr"
    and fill: "\<And>st1. new_ok phys st1 \<Longrightarrow> seg_st old st1 \<Longrightarrow> rest_mem old st1 = rest_mem old st \<Longrightarrow>
       rd_i st1 = rd_i st \<Longrightarrow> rd_page st1 = rd_page st \<Longrightarrow> rd_off st1 = rd_off st \<Longrightarrow> rd_len st1 = rd_len st \<Longrightarrow>
       rd_new st1 = rd_new st \<or> rd_new st1 = Some (lo_new_bio (env_bdev E) phys (length (bi_io_vec old)) (bi_rw old)) \<Longrightarrow>
       \<exists>st'. fill_block E old phys rem st1 = Some (Inr st') \<and> placed old phys rem st1 st' \<and> seg_st old st' \<and> Q st'"
  shows "\<exists>st'. place_block E old phys rem st = Some (Inr st') \<and> Q st' \<and> place_post old phys rem nr st st'"
proof -
  from begin_bio_ok [OF assms(2,1), of phys] obtain st1 where b: "begin_bio E old phys st = Inr st1" "new_ok phys st1"
    "out_map st1 = out_map st" "rest_mem old st1 = rest_mem old st" "rd_dev st1 = rd_dev st" "rd_count st1 = rd_count st"
    and f: "rd_i st1 = rd_i st" "rd_page st1 = rd_page st" "rd_off st1 = rd_off st" "rd_len st1 = rd_len st"
    "rd_new st1 = rd_new st \<or> rd_new st1 = Some (lo_new_bio (env_bdev E) phys (length (bi_io_vec old)) (bi_rw old))"
    by blast
  let ?s = "st1\<lparr>rd_count := Suc (rd_count st1), rd_next := phys + rem\<rparr>"
  have "new_ok phys ?s" "seg_st old ?s" "rest_mem old ?s = rest_mem old st" "out_map ?s = out_map st"
    using b f assms(2) by (simp_all add: new_ok_def seg_st_def redir_ok_def rest_mem_def out_map_def)
  then obtain st' where "fill_block E old phys rem ?s = Some (Inr st')" "placed old phys rem ?s st'" "seg_st old st'" "Q st'"
    using fill [of ?s] f by auto
  then show ?thesis
    using b \<open>rest_mem old ?s = rest_mem old st\<close> \<open>out_map ?s = out_map st\<close> assms(2,3)
    by (auto simp: place_block_def place_post_def placed_def redir_ok_def seg_st_def new_ok_def)
qed

subsection \<open>Segments of one block each\<close>

text \<open>The usual request of a file system: it starts at a block and each segment is a block.  Then any
  queue that takes one block in a fresh request will do: a refusal starts a request at the right place.\<close>

definition block_segments :: "nat \<Rightarrow> bio \<Rightarrow> bool" where
  "block_segments k old \<longleftrightarrow> bi_sector old mod sectors_per_block k = 0 \<and>
     (\<forall>v \<in> set (bio_segments old). bv_len v = 512 * sectors_per_block k)"

definition takes_block :: "'s redirect_env \<Rightarrow> bio \<Rightarrow> bool" where
  "takes_block E old \<longleftrightarrow>
     (\<forall>sec page off. fst (bio_add_page (env_queue E) (lo_new_bio (env_bdev E) sec (length (bi_io_vec old)) (bi_rw old))
        page (512 * sectors_per_block (env_blkbits E)) off) = 512 * sectors_per_block (env_blkbits E))"

definition J_block :: "nat \<Rightarrow> bio \<Rightarrow> nat \<Rightarrow> sector_t \<Rightarrow> 's redir \<Rightarrow> bool" where
  "J_block k old nr sec st \<longleftrightarrow> rd_len st = 0 \<and> sec mod sectors_per_block k = 0 \<and>
     (\<forall>v \<in> set (drop (rd_i st) (bi_io_vec old)). bv_len v = 512 * sectors_per_block k)"

lemma length_mem_sectors_const:
  "\<forall>v \<in> set vs. bv_len v = 512 * n \<Longrightarrow> length (mem_sectors vs) = n * length vs"
  by (induction vs) (simp_all add: bio_simps)

lemma block_segments_whole:
  assumes "J_block k old nr sec st" and "redir_ok old nr st" and "0 < nr"
  shows "block_rest k nr sec = sectors_per_block k"
proof -
  let ?v = "drop (rd_i st) (bi_io_vec old)"
  have "nr = sectors_per_block k * length ?v"
    using assms(1,2) length_mem_sectors_const [of ?v "sectors_per_block k"]
    by (simp add: J_block_def redir_ok_def rest_mem_def bvec_sectors_def)
  then have "sectors_per_block k \<le> nr" using assms(3) by (cases "length ?v") auto
  then show ?thesis using assms(1) by (simp add: block_rest_def J_block_def)
qed

lemma add_piece_takes:
  assumes "\<forall>n. env_alloc E n" and "takes_block E old" and "rd_new st = Some b"
  shows "\<exists>st'. add_piece E old sec (512 * sectors_per_block (env_blkbits E)) st = Inr st'"
proof -
  let ?l = "512 * sectors_per_block (env_blkbits E)"
  obtain n b1 where a: "bio_add_page (env_queue E) b (rd_page st) ?l (rd_off st) = (n, b1)" by fastforce
  obtain b2 where "bio_add_page (env_queue E) (lo_new_bio (env_bdev E) sec (length (bi_io_vec old)) (bi_rw old))
      (rd_page st) ?l (rd_off st) = (?l, b2)"
    using assms(2) by (metis prod.collapse takes_block_def)
  then show ?thesis
    using add_piece_accepted [OF assms(3)] add_piece_refused [OF assms(3) a] a assms(1) by (cases "n = ?l") auto
qed

lemma fill_one_block:
  assumes "\<forall>n. env_alloc E n" and "takes_block E old" and "J_block (env_blkbits E) old nr sec st"
    and "new_ok phys st" and "seg_st old st" and "rest_mem old st \<noteq> []"
  defines "b \<equiv> sectors_per_block (env_blkbits E)"
  shows "\<exists>st'. fill_block E old phys b st = Some (Inr st') \<and> placed old phys b st st' \<and> seg_st old st' \<and>
           J_block (env_blkbits E) old (nr - b) (sec + b) st'"
proof -
  from load_segment_ok [OF assms(5,6)] assms(3) obtain st1 where ld: "load_segment old st = Some st1"
    and s1: "seg_st old st1" and i1: "rd_i st1 = Suc (rd_i st)" and l1: "rd_len st1 = 512 * b"
    by (auto simp: J_block_def b_def Cons_nth_drop_Suc [symmetric])
  obtain nb where "rd_new st1 = Some nb"
    using assms(4) rest_mem_load(2) [OF ld] by (metis (no_types, lifting) new_ok_def redir.select_convs(3) redir.surjective redir.update_convs)
  from add_piece_takes [OF assms(1,2) this] obtain st2 where ap: "add_piece E old phys (512 * b) st1 = Inr st2"
    by (auto simp: b_def)
  let ?s = "st2\<lparr>rd_off := rd_off st1 + 512 * b, rd_len := rd_len st1 - 512 * b\<rparr>"
  have "0 < b" by (simp add: b_def)
  have "fill_block E old phys b st = Some (Inr ?s)"
    using fill_block_piece [OF \<open>0 < b\<close> ld _ ap] l1 by (simp add: fill_block_done)
  moreover have "placed old phys b st ?s"
    using piece_placed [OF ld ap assms(4) \<open>0 < b\<close>] l1 by simp
  moreover have "seg_st old ?s" using s1 add_piece_fields [OF ap] l1 by (simp add: seg_st_def)
  moreover have "J_block (env_blkbits E) old (nr - b) (sec + b) ?s"
    using assms(3) i1 l1 add_piece_fields [OF ap] set_drop_subset_set_drop [of "rd_i st" "Suc (rd_i st)" "bi_io_vec old"]
    by (auto simp: J_block_def b_def)
  ultimately show ?thesis by blast
qed

lemma places_blocks:
  fixes E :: "'s redirect_env"
  assumes "\<forall>n. env_alloc E n" and "takes_block E old"
  shows "places E old (J_block (env_blkbits E) old)"
  unfolding places_def
proof (intro conjI allI impI)
  fix nr sec phys and st :: "'s redir"
  assume a: "0 < nr \<and> J_block (env_blkbits E) old nr sec st \<and> redir_ok old nr st"
  let ?b = "sectors_per_block (env_blkbits E)"
  have rest: "block_rest (env_blkbits E) nr sec = ?b" using block_segments_whole a by blast
  have "?b \<le> nr" using rest block_rest_bounds(2) by metis
  have ne: "rest_mem old st \<noteq> []" using a by (auto simp: redir_ok_def)
  show "\<exists>st'. place_block E old phys (block_rest (env_blkbits E) nr sec) st = Some (Inr st') \<and>
           J_block (env_blkbits E) old (nr - block_rest (env_blkbits E) nr sec)
             (sec + block_rest (env_blkbits E) nr sec) st' \<and>
           place_post old phys (block_rest (env_blkbits E) nr sec) nr st st'"
    unfolding rest
  proof (rule places_from_fill [OF assms(1) _ \<open>?b \<le> nr\<close>])
    fix st1 :: "'s redir"
    assume "new_ok phys st1" and "seg_st old st1" and m: "rest_mem old st1 = rest_mem old st"
      and i: "rd_i st1 = rd_i st" "rd_len st1 = rd_len st"
    moreover have "J_block (env_blkbits E) old nr sec st1" using a i by (simp add: J_block_def)
    moreover have "rest_mem old st1 \<noteq> []" using m ne by simp
    ultimately show "\<exists>st'. fill_block E old phys ?b st1 = Some (Inr st') \<and> placed old phys ?b st1 st' \<and>
        seg_st old st' \<and> J_block (env_blkbits E) old (nr - ?b) (sec + ?b) st'"
      by (intro fill_one_block [OF assms])
  qed (use a in simp)
qed (simp add: J_block_def)

subsection \<open>A queue with room\<close>

text \<open>Segments of any whole number of sectors, for a queue whose limits the request respects.  Pieces of
  one segment merge again, so a new request never needs more segments than the old one has.\<close>

definition roomy :: "queue \<Rightarrow> bio \<Rightarrow> bool" where
  "roomy q old \<longleftrightarrow> merge_bvec_fn q = None \<and> nr_sectors old \<le> max_sectors q \<and>
     length (bi_io_vec old) \<le> max_segments q \<and> length (bi_io_vec old) \<le> BIO_MAX_PAGES"

definition adjoins :: "bio \<Rightarrow> 's redir \<Rightarrow> bool" where
  "adjoins b st \<longleftrightarrow> bi_io_vec b \<noteq> [] \<and> rd_page st = bv_page (last (bi_io_vec b)) \<and>
     rd_off st = bv_offset (last (bi_io_vec b)) + bv_len (last (bi_io_vec b))"

definition bio_room :: "queue \<Rightarrow> bio \<Rightarrow> 's redir \<Rightarrow> bio \<Rightarrow> bool" where
  "bio_room q old st b \<longleftrightarrow>
     \<not> bi_cloned b \<and> bi_phys_segments b = length (bi_io_vec b) \<and> bi_max_vecs b = length (bi_io_vec old) \<and>
     length (mem_sectors (bi_io_vec b)) + length (rest_mem old st) \<le> max_sectors q \<and>
     length (bi_io_vec b) \<le> rd_i st \<and> (0 < rd_len st \<and> \<not> adjoins b st \<longrightarrow> length (bi_io_vec b) < rd_i st)"

definition J_room :: "'s redirect_env \<Rightarrow> bio \<Rightarrow> nat \<Rightarrow> sector_t \<Rightarrow> 's redir \<Rightarrow> bool" where
  "J_room E old nr sec st \<longleftrightarrow> rd_i st \<le> length (bi_io_vec old) \<and> (0 < rd_len st \<longrightarrow> 0 < rd_i st) \<and>
     length (rest_mem old st) \<le> nr_sectors old \<and> (\<forall>b. rd_new st = Some b \<longrightarrow> bio_room (env_queue E) old st b)"

lemma bi_size_sectors: "whole_sectors (bi_io_vec b) \<Longrightarrow> bi_size b = 512 * length (mem_sectors (bi_io_vec b))"
proof -
  have "whole_sectors vs \<Longrightarrow> sum_list (map bv_len vs) = 512 * length (mem_sectors vs)" for vs
    by (induction vs) (auto simp: bio_simps)
  then show "whole_sectors (bi_io_vec b) \<Longrightarrow> ?thesis" by (simp add: bi_size_def)
qed

lemma bio_add_page_fresh:
  assumes "\<not> bi_cloned b" and "(bi_size b + len) div 512 \<le> max_sectors q" and "merge_bvec_fn q = None"
    and "\<not> (bi_io_vec b \<noteq> [] \<and> page = bv_page (last (bi_io_vec b)) \<and>
             off = bv_offset (last (bi_io_vec b)) + bv_len (last (bi_io_vec b)))"
    and "length (bi_io_vec b) < bi_max_vecs b" and "bi_phys_segments b < max_segments q"
  shows "bio_add_page q b page len off = (len, b\<lparr>bi_io_vec := bi_io_vec b @ [\<lparr>bv_page = page, bv_offset = off, bv_len = len\<rparr>],
    bi_phys_segments := Suc (bi_phys_segments b)\<rparr>)"
  using assms(1,2,3,5,6) unfolding bio_add_page_def if_not_P [OF assms(4)]
  by (simp add: add_fresh_def merge_ok_def Let_def not_less not_le)

text \<open>A request with room takes the piece and still has room for what follows.\<close>

lemma bio_room_accepts:
  assumes "roomy q old" and "bio_room q old st b" and "whole_sectors (bi_io_vec b)" and "rd_i st \<le> length (bi_io_vec old)"
    and "0 < tw" and "512 * tw \<le> rd_len st" and "rd_len st' = rd_len st - 512 * tw" and "rd_off st' = rd_off st + 512 * tw"
    and "rd_page st' = rd_page st" and "rd_i st' = rd_i st"
    and "length (rest_mem old st) = tw + length (rest_mem old st')"
  shows "\<exists>b'. bio_add_page q b (rd_page st) (512 * tw) (rd_off st) = (512 * tw, b') \<and> bio_room q old st' b'"
proof -
  let ?len = "512 * tw"
  have size: "(bi_size b + ?len) div 512 \<le> max_sectors q"
    using assms(2,11) bi_size_sectors [OF assms(3)] by (simp add: bio_room_def)
  have mok: "merge_ok q x y z v" for x y z v using assms(1) by (simp add: merge_ok_def roomy_def)
  obtain b' where add: "bio_add_page q b (rd_page st) ?len (rd_off st) = (?len, b')"
    and b': "bi_cloned b' = bi_cloned b" "bi_max_vecs b' = bi_max_vecs b" "bi_phys_segments b' = length (bi_io_vec b')"
      "bi_io_vec b' \<noteq> []" "rd_page st = bv_page (last (bi_io_vec b'))"
      "rd_off st + ?len = bv_offset (last (bi_io_vec b')) + bv_len (last (bi_io_vec b'))"
      "length (bi_io_vec b') \<le> rd_i st"
  proof (cases "adjoins b st")
    case True
    then have "length (butlast (bi_io_vec b)) + 1 = length (bi_io_vec b)" by (simp add: adjoins_def)
    with True that assms(2) size mok show thesis
      by (simp add: bio_add_page_def adjoins_def bio_room_def Let_def not_less)
  next
    case False
    have "length (bi_io_vec b) < rd_i st" using assms(2,5,6) False by (simp add: bio_room_def)
    then have "length (bi_io_vec b) < bi_max_vecs b" "bi_phys_segments b < max_segments q"
      using assms(1,2,4) by (auto simp: bio_room_def roomy_def)
    from bio_add_page_fresh [OF _ size _ _ this, of "rd_page st" "rd_off st"] show thesis
      using False assms(1,2) \<open>length (bi_io_vec b) < rd_i st\<close>
      by (intro that) (auto simp: adjoins_def bio_room_def roomy_def)
  qed
  have "length (mem_sectors (bi_io_vec b')) = length (mem_sectors (bi_io_vec b)) + tw"
    using bio_add_page_sectors(1) [OF add _ _ assms(3)] assms(5) by simp
  then have "bio_room q old st' b'"
    using assms(2,8-11) b' by (simp add: bio_room_def adjoins_def)
  then show ?thesis using add by blast
qed

lemma bio_room_load:
  assumes "load_segment old st = Some st1" and "bio_room q old st b"
  shows "bio_room q old st1 b"
  using assms rest_mem_load(1) [OF assms(1)]
  by (auto simp: load_segment_def bio_room_def adjoins_def Let_def split: if_splits)

lemma fill_room:
  assumes "roomy (env_queue E) old"
  shows "J_room E old nr sec st \<Longrightarrow> new_ok cur st \<Longrightarrow> seg_st old st \<Longrightarrow> rem \<le> length (rest_mem old st) \<Longrightarrow>
    \<exists>st'. fill_block E old phys rem st = Some (Inr st') \<and> placed old cur rem st st' \<and> seg_st old st' \<and> J_room E old nr' sec' st'"
proof (induction rem arbitrary: cur st rule: less_induct)
  case (less rem)
  show ?case
  proof (cases "rem = 0")
    case True
    then show ?thesis using less.prems by (simp add: fill_block_done placed_def J_room_def)
  next
    case False
    then have "rest_mem old st \<noteq> []" using less.prems(4) by auto
    from load_segment_ok [OF less.prems(3) this] obtain st1 where ld: "load_segment old st = Some st1"
      and l1: "0 < rd_len st1" and s1: "seg_st old st1" and i1: "0 < rd_i st1" "rd_i st1 \<le> length (bi_io_vec old)"
      using less.prems(1) by (fastforce simp: J_room_def)
    obtain b where b: "rd_new st = Some b" "whole_sectors (bi_io_vec b)"
      using less.prems(2) by (auto simp: new_ok_def)
    have b1: "rd_new st1 = Some b" using rest_mem_load(2) [OF ld] b(1)
      by (metis (no_types, lifting) redir.select_convs(3) redir.surjective redir.update_convs)
    have room: "bio_room (env_queue E) old st1 b"
      using bio_room_load [OF ld] less.prems(1) b(1) by (simp add: J_room_def)
    define tw where "tw = min rem (rd_len st1 div 512)"
    have tw: "0 < tw" "512 * tw \<le> rd_len st1" "tw \<le> rem"
      using False l1 s1 by (auto simp: tw_def seg_st_def dvd_div_eq_0_iff)
    let ?st = "\<lambda>s. s\<lparr>rd_off := rd_off st1 + 512 * tw, rd_len := rd_len st1 - 512 * tw\<rparr>"
    have len: "length (rest_mem old st1) = tw + length (rest_mem old (?st st1))"
      using bvec_sectors_split [of tw "rd_len st1" "rd_page st1" "rd_off st1"] tw(2) by (simp add: rest_mem_def)
    from bio_room_accepts [OF assms room b(2) i1(2) tw(1,2) _ _ _ _ len] obtain b'
      where add: "bio_add_page (env_queue E) b (rd_page st1) (512 * tw) (rd_off st1) = (512 * tw, b')"
        and room': "bio_room (env_queue E) old (?st st1) b'" by auto
    note ap = add_piece_accepted [OF b1 add, of old phys]
    let ?s = "?st (st1\<lparr>rd_new := Some b'\<rparr>)"
    have step: "fill_block E old phys rem st = fill_block E old phys (rem - tw) ?s"
      using fill_block_piece [OF _ ld tw_def ap] False by simp
    have pl: "placed old cur tw st ?s"
      using piece_placed [OF ld ap less.prems(2) tw(1,2)] b(1) add by simp
    have seg: "seg_st old ?s" using s1 tw(2) by (simp add: seg_st_def dvd_diff_nat)
    have "rest_mem old ?s = rest_mem old (?st st1)" by (simp add: rest_mem_def)
    moreover have "length (rest_mem old ?s) \<le> nr_sectors old"
      using pl less.prems(1) by (auto simp: placed_def J_room_def)
    ultimately have J: "J_room E old nr sec ?s"
      using i1 room' by (simp add: J_room_def bio_room_def adjoins_def)
    have "rem - tw < rem" and "new_ok (cur + tw) ?s" and "rem - tw \<le> length (rest_mem old ?s)"
      using tw pl less.prems(4) by (simp_all add: placed_def)
    from less.IH [OF this(1) J this(2) seg this(3)] show ?thesis
      using step placed_trans [OF pl] tw(3) less.prems(4) by fastforce
  qed
qed

lemma places_room:
  fixes E :: "'s redirect_env"
  assumes "\<forall>n. env_alloc E n" and "roomy (env_queue E) old"
  shows "places E old (J_room E old)"
  unfolding places_def
proof (intro conjI allI impI)
  fix nr sec phys and st :: "'s redir"
  assume a: "0 < nr \<and> J_room E old nr sec st \<and> redir_ok old nr st"
  let ?r = "block_rest (env_blkbits E) nr sec"
  have "?r \<le> nr" by (rule block_rest_bounds)
  then show "\<exists>st'. place_block E old phys ?r st = Some (Inr st') \<and> J_room E old (nr - ?r) (sec + ?r) st' \<and>
           place_post old phys ?r nr st st'"
  proof (rule places_from_fill [OF assms(1), rotated])
    fix st1 :: "'s redir"
    assume st1: "new_ok phys st1" "seg_st old st1" "rest_mem old st1 = rest_mem old st"
      "rd_i st1 = rd_i st" "rd_page st1 = rd_page st" "rd_off st1 = rd_off st" "rd_len st1 = rd_len st"
      "rd_new st1 = rd_new st \<or> rd_new st1 = Some (lo_new_bio (env_bdev E) phys (length (bi_io_vec old)) (bi_rw old))"
    have "bio_room (env_queue E) old st1 (lo_new_bio (env_bdev E) phys (length (bi_io_vec old)) (bi_rw old))"
      using a assms(2) st1(3,4,7)
      by (auto simp: J_room_def bio_room_def roomy_def lo_new_bio_def bio_alloc_def mem_sectors_def)
    then have "J_room E old nr sec st1"
      using a st1(3-8) by (auto simp: J_room_def bio_room_def adjoins_def)
    moreover have "?r \<le> length (rest_mem old st1)" using a st1(3) \<open>?r \<le> nr\<close> by (simp add: redir_ok_def)
    ultimately show "\<exists>st'. fill_block E old phys ?r st1 = Some (Inr st') \<and> placed old phys ?r st1 st' \<and>
        seg_st old st' \<and> J_room E old (nr - ?r) (sec + ?r) st'"
      using fill_room [OF assms(2)] st1(1,2) by blast
  qed (use a in simp)
qed (simp add: J_room_def bio_room_def adjoins_def rest_mem_def)

section \<open>The whole function\<close>

text \<open>A request that reaches the loop: its segments are whole sectors, and either each is one block
  or the queue of the disk has room.\<close>

definition servable :: "'s redirect_env \<Rightarrow> bio \<Rightarrow> bool" where
  "servable E old \<longleftrightarrow> segs_ok (bio_segments old) \<and> (\<forall>n. env_alloc E n) \<and>
     (block_segments (env_blkbits E) old \<and> takes_block E old \<or>
      roomy (env_queue E) old \<and> bi_idx old \<le> length (bi_io_vec old))"

lemma length_mem_sectors: "length (mem_sectors vs) = sum_list (map (\<lambda>v. bv_len v div 512) vs)"
  by (simp add: mem_sectors_def length_concat comp_def)

lemma init_redir_ok:
  assumes "segs_ok (bio_segments old)"
  shows "redir_ok old (nr_sectors old) (init_redir old d)" and "rest_mem old (init_redir old d) = mem_sectors (bio_segments old)"
    and "out_map (init_redir old d) = []"
  using assms
  by (simp_all add: redir_ok_def init_redir_def rest_mem_def out_map_def init_head_def nr_sectors_def bio_segments_def
      length_mem_sectors bvec_sectors_def)

lemma init_places:
  fixes d :: "'s lo_trans"
  assumes "servable E old"
  obtains J where "places E old J" and "J (nr_sectors old) (bi_sector old) (init_redir old d)"
proof -
  note init_redir_ok(2) [of old d]
  then have "block_segments (env_blkbits E) old \<Longrightarrow>
      J_block (env_blkbits E) old (nr_sectors old) (bi_sector old) (init_redir old d)"
    and "bi_idx old \<le> length (bi_io_vec old) \<Longrightarrow> J_room E old (nr_sectors old) (bi_sector old) (init_redir old d)"
    using assms
    by (simp_all add: J_block_def J_room_def init_redir_def block_segments_def bio_segments_def servable_def
        nr_sectors_def length_mem_sectors)
  then show thesis using that assms places_blocks places_room unfolding servable_def by metis
qed

definition transfers :: "event list \<Rightarrow> (sector_t \<times> (nat \<times> nat)) list" where
  "transfers ev = concat (map (\<lambda>e. case e of Submit b \<Rightarrow> io_map b | _ \<Rightarrow> []) ev)"

lemma transfers_Submit: "transfers (map Submit bs) = concat (map io_map bs)"
  by (simp add: transfers_def comp_def)

text \<open>The loop on a servable request: it fails with \<^verbatim>\<open>-EIO\<close> or leaves a non-empty list of parts that
  transfer the request.\<close>

lemma redirect_data_loop:
  assumes "env_ok E bmap fs_inv" and "servable E old" and "0 < nr_sectors old"
    and "trans_inv bmap fs_inv d" and "lo_cio_list d = []"
  obtains (failed) d' where "redirect_data E old d = Some (Inr ([EndIO (- EIO)], None, d'))"
      and "dev_step bmap fs_inv (bi_rw old) d d'"
      and "block_fails E bmap fs_inv (bi_rw old) d (bi_sector old) (nr_sectors old)"
  | (parts) st b where "redirect_data E old d = submit_parts E old st" and "rd_new st = Some b" and "0 < rd_count st"
      and "walk_step bmap fs_inv (bi_rw old) d (rd_dev st)"
      and "transfers (map Submit (head_list (rd_head st) @ [b])) =
        zip (map (disk_sector (env_blkbits E) (bmap (lo_fs (rd_dev st))))
          [bi_sector old..<bi_sector old + nr_sectors old]) (mem_sectors (bio_segments old))"
proof -
  from assms(2) obtain J where J: "places E old J" "J (nr_sectors old) (bi_sector old) (init_redir old d)"
    by (rule init_places)
  have so: "segs_ok (bio_segments old)" using assms(2) by (simp add: servable_def)
  note i = init_redir_ok [OF so, of d]
  have dev: "rd_dev (init_redir old d) = d" by (simp add: init_redir_def)
  from redirect_loop_run [OF assms(1) J i(1), unfolded dev, OF assms(4,5)]
  show thesis
  proof (elim disjE exE conjE, goal_cases)
    case (1 d')
    then show ?case using walk_step_dev [OF 1(2)] by (intro failed) (simp_all add: redirect_data_def)
  next
    case (2 st)
    then obtain b where b: "rd_new st = Some b" using assms(3) by (auto simp: redir_ok_def split: option.splits)
    have "transfers (map Submit (head_list (rd_head st) @ [b])) = out_map st"
      unfolding transfers_Submit by (simp add: out_map_def b)
    then show ?case using 2 i(2,3) b assms(3) by (intro parts) (simp_all add: redirect_data_def)
  qed
qed

lemma submit_parts_plain:
  assumes "rd_new st = Some b" and "0 < rd_count st"
  shows "submit_parts E old st =
    (let ev = map Submit (head_list (rd_head st) @ [b]) in
     if flagged (bi_rw old) REQ_FUA then
       (case flush_if_dirty E (bi_rw old) (rd_dev st) of
          None \<Rightarrow> None
        | Some (e, d) \<Rightarrow>
            (if e \<noteq> 0 then Some (Inr (ev @ [EndIO e], Some e, d)) else Some (Inr (ev, Some 0, d))))
     else Some (Inr (ev, Some 0, rd_dev st)))"
  using assms by (simp add: submit_parts_def Let_def)

lemma redirect_data_run:
  assumes "env_ok E bmap fs_inv" and "servable E old" and "0 < nr_sectors old" and "\<not> flagged (bi_rw old) REQ_FUA"
    and "trans_inv bmap fs_inv d" and "lo_cio_list d = []"
  shows "\<exists>ev r d'. redirect_data E old d = Some (Inr (ev, r, d')) \<and> dev_step bmap fs_inv (bi_rw old) d d' \<and>
    (ev = [EndIO (- EIO)] \<and> block_fails E bmap fs_inv (bi_rw old) d (bi_sector old) (nr_sectors old) \<or>
     (\<exists>bs. bs \<noteq> [] \<and> ev = map Submit bs \<and> r = Some 0 \<and>
        transfers ev = zip (map (disk_sector (env_blkbits E) (bmap (lo_fs d')))
          [bi_sector old..<bi_sector old + nr_sectors old]) (mem_sectors (bio_segments old))))"
  using assms(1-3,5,6)
proof (cases rule: redirect_data_loop)
  case (parts st b)
  then show ?thesis using assms(4) submit_parts_plain [OF parts(2,3), of E old]
    by (intro exI conjI) (auto simp: Let_def walk_step_def intro!: exI [of _ "head_list (rd_head st) @ [b]"])
qed auto

text \<open>The flush request, with no other request pending: a dirty device is written back, and is clean if that
  succeeded; a clean one is left alone.\<close>

definition sync_err :: "'s redirect_env \<Rightarrow> 's lo_trans \<Rightarrow> errcode" where
  "sync_err E d = (if lo_dirty d then fst (env_fsync E (lo_fs d)) else 0)"

definition synced :: "'s redirect_env \<Rightarrow> 's lo_trans \<Rightarrow> 's lo_trans" where
  "synced E d =
     (if lo_dirty d
      then d\<lparr>lo_fs := snd (env_fsync E (lo_fs d)), lo_dirty := (fst (env_fsync E (lo_fs d)) \<noteq> 0)\<rparr>
      else d)"

lemma flush_if_dirty_run:
  assumes "lo_cio_list d = []"
  shows "flush_if_dirty E rw d = Some (sync_err E d, synced E d)"
proof (cases "lo_dirty d")
  case True
  have "d\<lparr>lo_cio_list := []\<rparr> = d" using assms by simp
  then show ?thesis
    using True assms
    by (simp add: flush_if_dirty_def flush_blocks_def cio_make_request_flush_def serve_cio_def complete_def
        wait_result_def synced_def sync_err_def split_beta)
qed (simp add: flush_if_dirty_def synced_def sync_err_def)

lemma synced_step:
  assumes "env_ok E bmap fs_inv" and "trans_inv bmap fs_inv d" and "lo_cio_list d = []"
  shows "dev_step bmap fs_inv rw d (synced E d)" and "bmap (lo_fs (synced E d)) = bmap (lo_fs d)"
  using assms by (simp_all add: dev_step_def synced_def trans_inv_def env_ok_def fsync_keeps_def)

lemma dirty_synced: "lo_dirty (synced E d) = (sync_err E d \<noteq> 0)"
  by (simp add: synced_def sync_err_def)

lemma after_Nil [simp]: "after [] r = r"
proof (cases r)
  case (Some x)
  then show ?thesis by (cases x) (auto simp: after_def)
qed (simp add: after_def)

lemma redirect_bio_data:
  assumes "bi_bdev old \<noteq> None" and "0 < nr_sectors old"
  shows "redirect_bio E old d =
    (if flagged (bi_rw old) REQ_FLUSH then
       (case flush_if_dirty E (bi_rw old) d of
          None \<Rightarrow> None
        | Some (e, d1) \<Rightarrow>
            (if e \<noteq> 0 then Some (Inr ([EndIO (- EIO)], Some e, d1)) else redirect_data E old d1))
     else redirect_data E old d)"
  using assms by (auto simp: redirect_bio_def loop_handle_bio_def)

section \<open>Properties\<close>

definition lin_env :: "unit redirect_env" where
  "lin_env = \<lparr>env_get_block = lin_get_block, env_fsync = lin_fsync, env_blkbits = 12, env_prefetch = 512,
     env_queue = \<lparr>max_sectors = 1024, max_segments = 128, merge_bvec_fn = None, recount_segments = length\<rparr>,
     env_bdev = 8, env_alloc = (\<lambda>_. True)\<rparr>"

definition two_page_write :: bio where
  "two_page_write = \<lparr>bi_bdev = Some 7, bi_sector = 21, bi_rw = REQ_WRITE,
     bi_io_vec = [\<lparr>bv_page = 1, bv_offset = 512, bv_len = 3584\<rparr>, \<lparr>bv_page = 2, bv_offset = 0, bv_len = 4096\<rparr>],
     bi_idx = 0, bi_max_vecs = 2, bi_phys_segments = 2, bi_cloned = False\<rparr>"

lemma lin_env_ok: "env_ok lin_env lin_map (\<lambda>_. True)"
  using lin_mapper lin_fsync_keeps by (simp add: env_ok_def lin_env_def)

lemma two_page_servable: "servable lin_env two_page_write"
  by (simp add: servable_def segs_ok_def bio_segments_def two_page_write_def lin_env_def roomy_def nr_sectors_def BIO_MAX_PAGES_def)

lemma redirect_bio_run:
  assumes "env_ok E bmap fs_inv" and "servable E old" and "bi_bdev old \<noteq> None" and "0 < nr_sectors old"
    and "\<not> flagged (bi_rw old) REQ_FUA" and "trans_inv bmap fs_inv d" and "lo_cio_list d = []"
  shows "\<exists>ev r d'. redirect_bio E old d = Some (Inr (ev, r, d')) \<and> dev_step bmap fs_inv (bi_rw old) d d' \<and>
    (ev = [EndIO (- EIO)] \<and> (block_fails E bmap fs_inv (bi_rw old) d (bi_sector old) (nr_sectors old) \<or>
                               flagged (bi_rw old) REQ_FLUSH \<and> sync_err E d \<noteq> 0) \<or>
     (\<exists>bs. bs \<noteq> [] \<and> ev = map Submit bs \<and>
        transfers ev = zip (map (disk_sector (env_blkbits E) (bmap (lo_fs d')))
          [bi_sector old..<bi_sector old + nr_sectors old]) (mem_sectors (bio_segments old))))"
proof (cases "flagged (bi_rw old) REQ_FLUSH")
  case False
  then show ?thesis
    using redirect_data_run [OF assms(1,2,4-7)] redirect_bio_data [OF assms(3,4), of E d] by fastforce
next
  case True
  note rb = redirect_bio_data [OF assms(3,4), of E d] flush_if_dirty_run [OF assms(7), of E "bi_rw old"] True
  note s = synced_step(1) [OF assms(1,6,7), of "bi_rw old"]
  have d1: "trans_inv bmap fs_inv (synced E d)" "lo_cio_list (synced E d) = []" using s by (simp_all add: dev_step_def)
  show ?thesis
  proof (cases "sync_err E d = 0")
    case True
    then show ?thesis
      using redirect_data_run [OF assms(1,2,4,5) d1] rb dev_step_trans [OF s]
        block_fails_later [OF s, of E "bi_sector old" 0 "nr_sectors old" "nr_sectors old"] by fastforce
  next
    case False
    then show ?thesis using rb s by auto
  qed
qed

text \<open>C1. Redirection is correct.  For every request with data and without \<^verbatim>\<open>REQ_FUA\<close> whose segments are
  whole sectors (each one a block, or the queue of the disk with room for the request), \<^verbatim>\<open>redirect_bio\<close>
  returns.  Either the file system failed, for a block of this request or, under \<^verbatim>\<open>REQ_FLUSH\<close>, in the \<^verbatim>\<open>fsync\<close>
  of a dirty device, and the request is ended once with \<^verbatim>\<open>-EIO\<close>, nothing being submitted; or requests are
  submitted that together transfer, in order, each memory sector of the request to or from the disk sector
  the block map gives for its sector of the device.  The cache stays coherent, no block moves, and only a
  write extends the block map.\<close>

theorem redirect_bio_correct:
  assumes "env_ok E bmap fs_inv" and "servable E old" and "bi_bdev old \<noteq> None" and "0 < nr_sectors old"
    and "\<not> flagged (bi_rw old) REQ_FUA" and "trans_inv bmap fs_inv d" and "lo_cio_list d = []"
  shows "\<exists>ev r d'. redirect_bio E old d = Some (Inr (ev, r, d')) \<and> dev_step bmap fs_inv (bi_rw old) d d' \<and>
    (ev = [EndIO (- EIO)] \<and> (block_fails E bmap fs_inv (bi_rw old) d (bi_sector old) (nr_sectors old) \<or>
                               flagged (bi_rw old) REQ_FLUSH \<and> sync_err E d \<noteq> 0) \<or>
     (\<exists>bs. bs \<noteq> [] \<and> ev = map Submit bs \<and>
        transfers ev = zip (map (disk_sector (env_blkbits E) (bmap (lo_fs d')))
          [bi_sector old..<bi_sector old + nr_sectors old]) (mem_sectors (bio_segments old))))"
  by (rule redirect_bio_run [OF assms])

theorem redirect_bio_correct_witness:
  "\<exists>ev r d'. redirect_bio lin_env two_page_write new_dev = Some (Inr (ev, r, d')) \<and>
     transfers ev = zip (map (disk_sector 12 (lin_map (lo_fs d'))) [21..<36]) (mem_sectors (bio_segments two_page_write))"
proof -
  have n: "nr_sectors two_page_write = 15" and b: "bi_sector two_page_write = 21" "env_blkbits lin_env = 12"
    and nf: "\<not> block_fails lin_env m i rw d sec nr" "sync_err lin_env d = 0" for m i rw d sec nr
    by (simp_all add: nr_sectors_def bio_segments_def two_page_write_def lin_env_def block_fails_def lin_get_block_def
        sync_err_def lin_fsync_def)
  have "bi_bdev two_page_write \<noteq> None" "0 < nr_sectors two_page_write" "\<not> flagged (bi_rw two_page_write) REQ_FUA"
    by (simp_all add: n) (simp_all add: two_page_write_def REQ_WRITE_def REQ_FUA_def)
  from redirect_bio_correct [OF lin_env_ok two_page_servable this new_dev_ok] show ?thesis
    unfolding n b using nf by auto
qed

text \<open>The image of one piece again, on a file system that counts the calls of \<^verbatim>\<open>fsync\<close> and answers each of them
  with \<open>e\<close>.\<close>

definition count_get_block :: "nat get_block_fn" where
  "count_get_block s blk sz cr = (0, blk + 100, sz, s)"

definition count_env :: "errcode \<Rightarrow> nat redirect_env" where
  "count_env e = \<lparr>env_get_block = count_get_block, env_fsync = (\<lambda>s. (e, Suc s)), env_blkbits = 12, env_prefetch = 512,
     env_queue = env_queue lin_env, env_bdev = 8, env_alloc = (\<lambda>_. True)\<rparr>"

definition dirty_dev :: "nat lo_trans" where
  "dirty_dev = \<lparr>lo_cache = zero_cache, lo_dirty = True, lo_cio_list = [], lo_fs = 0\<rparr>"

lemma count_env_ok: "env_ok (count_env e) (\<lambda>_ blk. blk + 100) (\<lambda>_. True)"
  by (auto simp: env_ok_def count_env_def block_mapper_def count_get_block_def fsync_keeps_def)

lemma dirty_dev_ok: "trans_inv (\<lambda>_ blk. blk + 100) (\<lambda>_. True) dirty_dev" "lo_cio_list dirty_dev = []"
  by (simp_all add: trans_inv_def dirty_dev_def cache_inv_zero) (simp add: entries_def zero_cache_def)

text \<open>C10. Flush requests without data.  \<^verbatim>\<open>redirect_bio\<close> returns.  A dirty device is written back by one \<^verbatim>\<open>fsync\<close> of
  its backing file, a clean one is left as it is.  If the \<^verbatim>\<open>fsync\<close> fails the request is ended with \<^verbatim>\<open>-EIO\<close> and the
  device stays dirty; otherwise an empty request with the same flags is sent to the disk, and the device is
  clean: \<open>synced\<close> is the device after the \<^verbatim>\<open>fsync\<close>, \<open>sync_err\<close> its error.\<close>

theorem redirect_bio_flush:
  assumes "env_ok E bmap fs_inv" and "bi_bdev old \<noteq> None" and "nr_sectors old = 0"
    and "flagged (bi_rw old) (REQ_FLUSH OR REQ_FUA)" and "trans_inv bmap fs_inv d" and "lo_cio_list d = []"
  shows "redirect_bio E old d =
      Some (Inr (if sync_err E d \<noteq> 0 then ([EndIO (- EIO)], None, synced E d)
                 else ([SubmitFlush (bi_rw old)], Some 0, synced E d))) \<and>
    dev_step bmap fs_inv (bi_rw old) d (synced E d) \<and> lo_dirty (synced E d) = (sync_err E d \<noteq> 0)"
proof -
  have "redirect_bio E old d = redirect_empty E old d"
    using assms(2-4) by (auto simp: redirect_bio_def loop_handle_bio_def)
  then show ?thesis
    using flush_if_dirty_run [OF assms(6), of E "bi_rw old"] synced_step(1) [OF assms(1,5,6)]
    by (simp add: redirect_empty_def dirty_synced)
qed

definition flush_request :: bio where
  "flush_request = two_page_write\<lparr>bi_rw := REQ_WRITE OR REQ_FLUSH, bi_io_vec := []\<rparr>"

theorem redirect_bio_flush_witness:
  "redirect_bio (count_env 0) flush_request dirty_dev =
     Some (Inr ([SubmitFlush (bi_rw flush_request)], Some 0, dirty_dev\<lparr>lo_fs := 1, lo_dirty := False\<rparr>)) \<and>
   redirect_bio (count_env (- EIO)) flush_request dirty_dev = Some (Inr ([EndIO (- EIO)], None, dirty_dev\<lparr>lo_fs := 1\<rparr>))"
proof -
  have q: "bi_bdev flush_request \<noteq> None" "nr_sectors flush_request = 0"
    "flagged (bi_rw flush_request) (REQ_FLUSH OR REQ_FUA)"
    by (simp_all add: flush_request_def two_page_write_def nr_sectors_def bio_segments_def REQ_FLUSH_def REQ_FUA_def REQ_WRITE_def)
  have s: "sync_err (count_env e) dirty_dev = e"
    "synced (count_env e) dirty_dev = dirty_dev\<lparr>lo_fs := 1, lo_dirty := e \<noteq> 0\<rparr>" for e
    by (simp_all add: sync_err_def synced_def dirty_dev_def count_env_def)
  note f = redirect_bio_flush [OF count_env_ok q dirty_dev_ok, unfolded s]
  show ?thesis using f [of 0] f [of "- EIO"] by (simp add: dirty_dev_def)
qed

text \<open>C11. Forced writes.  For a servable request with \<^verbatim>\<open>REQ_FUA\<close> and without \<^verbatim>\<open>REQ_FLUSH\<close>, \<^verbatim>\<open>redirect_bio\<close>
  returns.  It ends the request with \<^verbatim>\<open>-EIO\<close> because a block of the request could not be mapped, or it submits
  parts that transfer the sectors to the right places and then writes the device \<open>d1\<close> back if that is dirty.
  If the \<^verbatim>\<open>fsync\<close> fails, the request is ended with its error as well, although its parts are still in flight
  and will end it a second time; otherwise the device is clean.\<close>

theorem redirect_bio_fua:
  assumes "env_ok E bmap fs_inv" and "servable E old" and "bi_bdev old \<noteq> None" and "0 < nr_sectors old"
    and "flagged (bi_rw old) REQ_FUA" and "\<not> flagged (bi_rw old) REQ_FLUSH"
    and "trans_inv bmap fs_inv d" and "lo_cio_list d = []"
  shows "(\<exists>r d'. redirect_bio E old d = Some (Inr ([EndIO (- EIO)], r, d')) \<and> dev_step bmap fs_inv (bi_rw old) d d' \<and>
        block_fails E bmap fs_inv (bi_rw old) d (bi_sector old) (nr_sectors old)) \<or>
    (\<exists>bs d1. bs \<noteq> [] \<and> walk_step bmap fs_inv (bi_rw old) d d1 \<and>
        transfers (map Submit bs) = zip (map (disk_sector (env_blkbits E) (bmap (lo_fs d1)))
          [bi_sector old..<bi_sector old + nr_sectors old]) (mem_sectors (bio_segments old)) \<and>
        redirect_bio E old d =
          Some (Inr (if sync_err E d1 \<noteq> 0 then (map Submit bs @ [EndIO (sync_err E d1)], Some (sync_err E d1), synced E d1)
                     else (map Submit bs, Some 0, synced E d1))) \<and>
        dev_step bmap fs_inv (bi_rw old) d (synced E d1) \<and> bmap (lo_fs (synced E d1)) = bmap (lo_fs d1) \<and>
        lo_dirty (synced E d1) = (sync_err E d1 \<noteq> 0))"
proof -
  have rb: "redirect_bio E old d = redirect_data E old d"
    using assms(6) redirect_bio_data [OF assms(3,4), of E d] by simp
  from assms(1,2,4,7,8) show ?thesis
  proof (cases rule: redirect_data_loop)
    case failed
    then show ?thesis using rb by auto
  next
    case (parts st b)
    have w: "trans_inv bmap fs_inv (rd_dev st)" "lo_cio_list (rd_dev st) = []"
      using parts(4) by (simp_all add: walk_step_def dev_step_def)
    note s = synced_step [OF assms(1) w]
    have "redirect_bio E old d = Some (Inr (let bs = head_list (rd_head st) @ [b] in
        if sync_err E (rd_dev st) \<noteq> 0
        then (map Submit bs @ [EndIO (sync_err E (rd_dev st))], Some (sync_err E (rd_dev st)), synced E (rd_dev st))
        else (map Submit bs, Some 0, synced E (rd_dev st))))"
      using rb parts(1) submit_parts_plain [OF parts(2,3), of E old] flush_if_dirty_run [OF w(2), of E "bi_rw old"] assms(5)
      by (simp add: Let_def)
    then show ?thesis
      using parts(4,5) s(1,2) dev_step_trans [OF walk_step_dev [OF parts(4)] s(1)] unfolding Let_def
      by (intro disjI2 exI [of _ "head_list (rd_head st) @ [b]"] exI [of _ "rd_dev st"]) (simp add: dirty_synced)
  qed
qed

definition fua_write :: bio where
  "fua_write = two_page_write\<lparr>bi_rw := REQ_WRITE OR REQ_FUA\<rparr>"

theorem redirect_bio_fua_witness:
  "\<exists>bs d'. bs \<noteq> [] \<and> lo_dirty d' \<and>
     redirect_bio (count_env (- EIO)) fua_write dirty_dev = Some (Inr (map Submit bs @ [EndIO (- EIO)], Some (- EIO), d'))"
proof -
  have sv: "servable (count_env (- EIO)) fua_write"
    by (simp add: servable_def segs_ok_def bio_segments_def fua_write_def two_page_write_def count_env_def lin_env_def roomy_def
        nr_sectors_def BIO_MAX_PAGES_def)
  have q: "bi_bdev fua_write \<noteq> None" "0 < nr_sectors fua_write" "flagged (bi_rw fua_write) REQ_FUA"
    "\<not> flagged (bi_rw fua_write) REQ_FLUSH"
    by (simp_all add: fua_write_def two_page_write_def nr_sectors_def bio_segments_def REQ_WRITE_def REQ_FUA_def REQ_FLUSH_def)
  have nf: "\<not> block_fails (count_env (- EIO)) m i rw d sec nr" for m i rw d sec nr
    by (simp add: block_fails_def count_env_def count_get_block_def)
  have s: "walk_step m i rw dirty_dev d \<Longrightarrow> sync_err (count_env (- EIO)) d = - EIO" for m i rw d
    by (simp add: walk_step_def dirty_dev_def sync_err_def count_env_def)
  from redirect_bio_fua [OF count_env_ok sv q dirty_dev_ok] nf s show ?thesis by fastforce
qed

text \<open>Reading a hole: a read of unmapped blocks goes to the sectors of block 0.\<close>

lemma redirect_bio_unmapped:
  assumes "env_ok E bmap fs_inv" and "servable E old" and "bi_bdev old \<noteq> None" and "0 < nr_sectors old"
    and "bi_rw old = 0" and "\<not> block_fails E bmap fs_inv 0 d (bi_sector old) (nr_sectors old)"
    and "trans_inv bmap fs_inv d" and "lo_cio_list d = []"
    and "\<forall>s \<in> {bi_sector old..<bi_sector old + nr_sectors old}. bmap (lo_fs d) (s div sectors_per_block (env_blkbits E)) = 0"
  shows "\<exists>bs r d'. redirect_bio E old d = Some (Inr (map Submit bs, r, d')) \<and> bs \<noteq> [] \<and>
    transfers (map Submit bs) =
      zip (map (\<lambda>s. s mod sectors_per_block (env_blkbits E)) [bi_sector old..<bi_sector old + nr_sectors old])
        (mem_sectors (bio_segments old))"
proof -
  have fl: "\<not> flagged (bi_rw old) REQ_FUA" "\<not> flagged (bi_rw old) REQ_FLUSH" "\<not> flagged (bi_rw old) REQ_WRITE"
    using assms(5) by simp_all
  from redirect_bio_run [OF assms(1-4) fl(1) assms(7,8)] assms(5,6) fl(2) obtain bs r d'
    where r: "redirect_bio E old d = Some (Inr (map Submit bs, r, d'))" "bs \<noteq> []" and m: "bmap (lo_fs d') = bmap (lo_fs d)"
      and t: "transfers (map Submit bs) = zip (map (disk_sector (env_blkbits E) (bmap (lo_fs d')))
          [bi_sector old..<bi_sector old + nr_sectors old]) (mem_sectors (bio_segments old))"
    using fl(3) by (auto simp: dev_step_def)
  have "map (disk_sector (env_blkbits E) (bmap (lo_fs d'))) [bi_sector old..<bi_sector old + nr_sectors old] =
      map (\<lambda>s. s mod sectors_per_block (env_blkbits E)) [bi_sector old..<bi_sector old + nr_sectors old]"
    using assms(9) by (auto simp: disk_sector_def m)
  with t r show ?thesis by auto
qed

text \<open>The request by which \<^verbatim>\<open>loop_switch\<close> asks for a new backing file has no device and no data.
  \<^verbatim>\<open>redirect_bio\<close> switches, drops its reference, and then still ends the request it has released.\<close>

theorem redirect_bio_switch:
  assumes "bi_bdev old = None" and "bi_io_vec old = []" and "bi_rw old = 0"
  shows "redirect_bio E old d = Some (Inr ([Switched, Put, EndIO 0], Some 0, d))"
  using assms
  by (simp add: redirect_bio_def redirect_data_def nr_sectors_def bio_segments_def redirect_loop.simps submit_parts_def
      init_redir_def after_def loop_handle_bio_def)

theorem redirect_bio_switch_witness:
  "redirect_bio lin_env (bio_alloc 0) new_dev = Some (Inr ([Switched, Put, EndIO 0], Some 0, new_dev))"
  by (rule redirect_bio_switch) (simp_all add: bio_alloc_def)

section \<open>A refusal in the middle of a block\<close>

text \<open>A disk that takes one segment per request.\<close>

definition one_segment :: "queue \<Rightarrow> bool" where
  "one_segment q \<longleftrightarrow> max_segments q = 1 \<and> merge_bvec_fn q = None \<and> (\<forall>v. recount_segments q [v] = 1)"

definition adjacent :: "bio_vec \<Rightarrow> bio_vec \<Rightarrow> bool" where
  "adjacent v w \<longleftrightarrow> bv_page w = bv_page v \<and> bv_offset w = bv_offset v + bv_len v"

lemma one_segment_first:
  assumes "one_segment q" and "bv_len v div 512 \<le> max_sectors q" and "0 < n"
  shows "bio_add_page q (lo_new_bio bd sec n rw) (bv_page v) (bv_len v) (bv_offset v) =
    (bv_len v, (lo_new_bio bd sec n rw)\<lparr>bi_io_vec := [v], bi_phys_segments := 1\<rparr>)"
  using assms by (cases v) (simp add: one_segment_def bio_add_page_def add_fresh_def lo_new_bio_def bio_alloc_def bi_size_def
      merge_ok_def BIO_MAX_PAGES_def)

lemma one_segment_second:
  assumes "one_segment q" and "\<not> adjacent v w" and "0 < bv_len w" and "b = (lo_new_bio bd sec n rw)\<lparr>bi_io_vec := [v], bi_phys_segments := 1\<rparr>"
  shows "bio_add_page q b (bv_page w) (bv_len w) (bv_offset w) = (0, b)"
  using assms by (auto simp: one_segment_def bio_add_page_def add_fresh_def lo_new_bio_def bio_alloc_def adjacent_def)

text \<open>The two segments of a block on such a disk: both are placed from the block's first sector on.\<close>

lemma place_two_segments:
  assumes "bio_segments old = [v, w]" and "bv_len v = 512 * a" and "bv_len w = 512 * b" and "0 < a" and "0 < b"
    and "one_segment (env_queue E)" and "a \<le> max_sectors (env_queue E)" and "b \<le> max_sectors (env_queue E)"
    and "\<not> adjacent v w" and "\<forall>n. env_alloc E n"
  obtains st nb where "place_block E old P (a + b) ((init_redir old d)\<lparr>rd_dev := d1\<rparr>) = Some (Inr st)"
    and "rd_new st = Some nb" and "0 < rd_count st" and "rd_dev st = d1"
    and "transfers (map Submit (head_list (rd_head st) @ [nb])) =
      zip [P..<P + a] (bvec_sectors v) @ zip [P..<P + b] (bvec_sectors w)"
proof -
  let ?i = "bi_idx old"
  have d: "drop ?i (bi_io_vec old) = [v, w]" using assms(1) by (simp add: bio_segments_def)
  have l: "length (bi_io_vec old) = ?i + 2" using arg_cong [OF d, of length] unfolding length_drop by simp
  have n: "bi_io_vec old ! ?i = v" "bi_io_vec old ! Suc ?i = w"
    using nth_drop [of ?i "bi_io_vec old" 0] nth_drop [of ?i "bi_io_vec old" 1] l d by simp_all
  let ?nb = "\<lambda>x. (lo_new_bio (env_bdev E) P (?i + 2) (bi_rw old))\<lparr>bi_io_vec := [x], bi_phys_segments := 1\<rparr>"
  have f: "bio_add_page (env_queue E) (lo_new_bio (env_bdev E) P (?i + 2) (bi_rw old)) (bv_page x) (bv_len x) (bv_offset x) =
      (bv_len x, ?nb x)" if "x \<in> {v, w}" for x
    using that assms(2,3,6-8) by (intro one_segment_first) auto
  have s: "bio_add_page (env_queue E) (?nb v) (bv_page w) (bv_len w) (bv_offset w) = (0, ?nb v)"
    using assms(3,5,6,9) by (intro one_segment_second) auto
  have io: "io_map (?nb x) = zip [P..<P + bv_len x div 512] (bvec_sectors x)" for x
    by (simp add: io_map_def mem_sectors_def lo_new_bio_def bio_alloc_def)
  let ?st = "\<lparr>rd_dev = d1, rd_head = lo_send_bio (init_head old) (?nb v), rd_new = Some (?nb w), rd_count = 1,
    rd_next = P + (a + b), rd_i = ?i + 2, rd_page = bv_page w, rd_off = bv_offset w + 512 * b, rd_len = 0, rd_allocs = 2\<rparr>"
  have "place_block E old P (a + b) ((init_redir old d)\<lparr>rd_dev := d1\<rparr>) = Some (Inr ?st)"
    using assms(2-5,10) l n f [of v] f [of w] s
    by (simp add: place_block_def begin_bio_def alloc_new_def init_redir_def fill_block.simps load_segment_def add_piece_def)
  moreover have "transfers (map Submit (head_list (rd_head ?st) @ [?nb w])) =
      zip [P..<P + a] (bvec_sectors v) @ zip [P..<P + b] (bvec_sectors w)"
    using assms(2,3) io [of v] io [of w] by (simp add: transfers_def init_head_def)
  ultimately show thesis using that [of ?st "?nb w"] by simp
qed

text \<open>C13. A refusal in the middle of a block.  Take a plain request whose two segments \<open>v\<close> and \<open>w\<close>, of \<open>a\<close> and \<open>b\<close> sectors
  and not adjacent in memory, lie in one block, on a disk that takes one segment per request.  Unless the block
  cannot be mapped, the refused second segment starts its new request where the first one started, at the
  place \<open>P\<close> of the request's first sector, instead of at \<open>P + a\<close>.\<close>

theorem redirect_bio_midblock:
  assumes "env_ok E bmap fs_inv" and "bi_bdev old \<noteq> None" and "\<not> flagged (bi_rw old) REQ_FLUSH" and "\<not> flagged (bi_rw old) REQ_FUA"
    and "bio_segments old = [v, w]" and "bv_len v = 512 * a" and "bv_len w = 512 * b" and "0 < a" and "0 < b"
    and "bi_sector old mod sectors_per_block (env_blkbits E) + a + b \<le> sectors_per_block (env_blkbits E)"
    and "one_segment (env_queue E)" and "a \<le> max_sectors (env_queue E)" and "b \<le> max_sectors (env_queue E)"
    and "\<not> adjacent v w" and "\<forall>n. env_alloc E n" and "trans_inv bmap fs_inv d" and "lo_cio_list d = []"
  shows "\<exists>ev r d'. redirect_bio E old d = Some (Inr (ev, r, d')) \<and> dev_step bmap fs_inv (bi_rw old) d d' \<and>
    (ev = [EndIO (- EIO)] \<and> block_fails E bmap fs_inv (bi_rw old) d (bi_sector old) (nr_sectors old) \<or>
     (let P = disk_sector (env_blkbits E) (bmap (lo_fs d')) (bi_sector old)
      in transfers ev = zip [P..<P + a] (bvec_sectors v) @ zip [P..<P + b] (bvec_sectors w)))"
proof -
  let ?b = "sectors_per_block (env_blkbits E)" let ?blk = "bi_sector old div ?b" let ?s = "init_redir old d"
  have n: "nr_sectors old = a + b" using assms(5-7) by (simp add: nr_sectors_def)
  have rem: "min (a + b) (?b - bi_sector old mod ?b) = a + b" using assms(10) by simp
  have rd: "redirect_bio E old d = redirect_data E old d"
    using redirect_bio_data [OF assms(2), of E d] n assms(3,8) by simp
  have dev: "rd_dev ?s = d" by (simp add: init_redir_def)
  note unf = rd redirect_data_def n redirect_loop.simps [of E old "a + b"] redirect_block_def rem
  from lookup_block_run [OF assms(1), of ?s old ?blk, unfolded dev, OF assms(16,17)] show ?thesis
  proof (elim disjE exE conjE, goal_cases)
    case (1 d')
    have "block_fails E bmap fs_inv (bi_rw old) d (bi_sector old) (nr_sectors old)"
      using 1(3) dev_step_refl [OF assms(16,17)] n assms(8) unfolding block_fails_def
      by (intro exI [of _ d] exI [of _ "bi_sector old"]) simp
    moreover have "redirect_bio E old d = Some (Inr ([EndIO (- EIO)], None, d'))"
      using 1(1) assms(8) by (simp add: unf Let_def)
    ultimately show ?case using walk_step_dev [OF 1(2)] by blast
  next
    case (2 d1)
    let ?P = "disk_sector (env_blkbits E) (bmap (lo_fs d1)) (bi_sector old)"
    obtain st nb where p: "place_block E old ?P (a + b) (?s\<lparr>rd_dev := d1\<rparr>) = Some (Inr st)"
      "rd_new st = Some nb" "0 < rd_count st" "rd_dev st = d1"
      "transfers (map Submit (head_list (rd_head st) @ [nb])) = zip [?P..<?P + a] (bvec_sectors v) @ zip [?P..<?P + b] (bvec_sectors w)"
      by (rule place_two_segments [OF assms(5-9,11-15)])
    have "redirect_bio E old d = submit_parts E old st"
      using 2(1) p(1) assms(8) by (simp add: unf Let_def disk_sector_def redirect_loop.simps [of E old 0])
    then show ?case
      using p(4,5) submit_parts_plain [OF p(2,3), of E old] assms(4) walk_step_dev [OF 2(2)]
      by (intro exI [of _ "map Submit (head_list (rd_head st) @ [nb])"] exI [of _ "Some 0"] exI [of _ d1] conjI disjI2)
        (simp_all add: Let_def del: map_append)
  qed
qed

definition tight_env :: "unit redirect_env" where
  "tight_env = lin_env\<lparr>env_queue := \<lparr>max_sectors = 1024, max_segments = 1, merge_bvec_fn = None, recount_segments = length\<rparr>\<rparr>"

definition half_page_write :: bio where
  "half_page_write = \<lparr>bi_bdev = Some 7, bi_sector = 0, bi_rw = REQ_WRITE,
     bi_io_vec = [\<lparr>bv_page = 1, bv_offset = 0, bv_len = 2048\<rparr>, \<lparr>bv_page = 2, bv_offset = 0, bv_len = 2048\<rparr>],
     bi_idx = 0, bi_max_vecs = 2, bi_phys_segments = 2, bi_cloned = False\<rparr>"

text \<open>The sectors of the second page are written over the first one, to sectors 800 to 803 of the disk; sectors 804
  to 807 are not written.\<close>

theorem redirect_bio_midblock_witness:
  "\<exists>ev r d'. redirect_bio tight_env half_page_write new_dev = Some (Inr (ev, r, d')) \<and>
     transfers ev = [(800, 1, 0), (801, 1, 512), (802, 1, 1024), (803, 1, 1536),
                     (800, 2, 0), (801, 2, 512), (802, 2, 1024), (803, 2, 1536)]"
proof -
  let ?v = "\<lparr>bv_page = 1, bv_offset = 0, bv_len = 2048\<rparr>" let ?w = "\<lparr>bv_page = 2, bv_offset = 0, bv_len = 2048\<rparr>"
  have e: "env_ok tight_env lin_map (\<lambda>_. True)" using lin_env_ok by (simp add: env_ok_def tight_env_def)
  have q: "bi_bdev half_page_write \<noteq> None" "\<not> flagged (bi_rw half_page_write) REQ_FLUSH" "\<not> flagged (bi_rw half_page_write) REQ_FUA"
    "bio_segments half_page_write = [?v, ?w]" "bv_len ?v = 512 * 4" "bv_len ?w = 512 * 4" "0 < (4 :: nat)"
    "bi_sector half_page_write mod sectors_per_block (env_blkbits tight_env) + 4 + 4 \<le> sectors_per_block (env_blkbits tight_env)"
    "one_segment (env_queue tight_env)" "4 \<le> max_sectors (env_queue tight_env)" "\<not> adjacent ?v ?w" "\<forall>n. env_alloc tight_env n"
    by (simp_all add: half_page_write_def REQ_WRITE_def REQ_FLUSH_def REQ_FUA_def bio_segments_def tight_env_def lin_env_def
        sectors_per_block_def one_segment_def adjacent_def)
  have nf: "\<not> block_fails tight_env m i rw d sec nr" for m i rw d sec nr
    by (simp add: block_fails_def tight_env_def lin_env_def lin_get_block_def)
  have p: "disk_sector (env_blkbits tight_env) (lin_map s) (bi_sector half_page_write) = 800" for s
    by (simp add: disk_sector_def tight_env_def lin_env_def sectors_per_block_def lin_map_def half_page_write_def)
  from redirect_bio_midblock [OF e q(1-7) q(7-10) q(10-12) new_dev_ok] nf show ?thesis
    unfolding p Let_def by (auto simp: bvec_sectors_def upt_rec)
qed

end
