(* ===== verification/Loop_Transfer.thy ===== *)
theory Loop_Transfer
  imports Loop_Redirect
begin

text \<open>
  The transfer functions of the loop driver and the path that writes a request through the backing file
  (\<^verbatim>\<open>drivers/block/loop.c\<close>, \<^verbatim>\<open>transfer_none\<close> to \<^verbatim>\<open>lo_send\<close>, \<^verbatim>\<open>do_bio_filebacked\<close>).  Memory
  maps a page and an offset to a byte.  The write, fsync and fallocate operations of the backing file, and the transfer
  functions of other modules, are arguments of the definitions.

  A transfer that can be undone and that does not depend on how a request is cut at sector boundaries is the locale
  \<open>sector_cipher\<close>; the two transfers of the driver provide it.
\<close>

section \<open>Transfer functions\<close>

type_synonym mem = "nat \<Rightarrow> nat \<Rightarrow> u8"

datatype cmd = READ | WRITE

text \<open>The value of the function pointer \<^verbatim>\<open>lo->transfer\<close>; \<open>TransferExt n\<close> is the function of another module.\<close>

datatype transfer_fn = TransferNone | TransferXor | TransferExt nat

record loop_crypt =
  transfer :: "transfer_fn option"
  lo_encrypt_key :: "u8 list"
  lo_encrypt_key_size :: int

definition LO_KEY_SIZE :: nat where "LO_KEY_SIZE = 32"

definition memcpy :: "nat \<Rightarrow> nat \<Rightarrow> nat \<Rightarrow> nat \<Rightarrow> nat \<Rightarrow> mem \<Rightarrow> mem" where
  "memcpy dpage doff spage soff n M =
     M(dpage := (\<lambda>x. if doff \<le> x \<and> x < doff + n then M spage (soff + (x - doff)) else M dpage x))"

definition transfer_none :: "cmd \<Rightarrow> nat \<Rightarrow> nat \<Rightarrow> nat \<Rightarrow> nat \<Rightarrow> nat \<Rightarrow> mem \<Rightarrow> errcode \<times> mem" where
  "transfer_none cmd raw_page raw_off loop_page loop_off n M =
     (0, case cmd of READ \<Rightarrow> memcpy loop_page loop_off raw_page raw_off n M
                   | WRITE \<Rightarrow> memcpy raw_page raw_off loop_page loop_off n M)"

text \<open>The key byte for the \<open>i\<close>th byte; \<open>keysize\<close> is positive and within the key where the function is called.\<close>

definition key_byte :: "'z loop_crypt_scheme \<Rightarrow> nat \<Rightarrow> u8" where
  "key_byte lo i = lo_encrypt_key lo ! ((i AND 511) mod nat (lo_encrypt_key_size lo))"

text \<open>The byte loop, in the order of the code: byte \<open>i\<close> of the source, xor the key, to byte \<open>i\<close> of the destination.\<close>

definition xor_step :: "'z loop_crypt_scheme \<Rightarrow> nat \<Rightarrow> nat \<Rightarrow> nat \<Rightarrow> nat \<Rightarrow> nat \<Rightarrow> mem \<Rightarrow> mem" where
  "xor_step lo opage ooff ipage ioff i M =
     M(opage := (M opage)(ooff + i := M ipage (ioff + i) XOR key_byte lo i))"

definition transfer_xor ::
  "'z loop_crypt_scheme \<Rightarrow> cmd \<Rightarrow> nat \<Rightarrow> nat \<Rightarrow> nat \<Rightarrow> nat \<Rightarrow> nat \<Rightarrow> mem \<Rightarrow> errcode \<times> mem" where
  "transfer_xor lo cmd raw_page raw_off loop_page loop_off n M =
     (0, case cmd of READ \<Rightarrow> fold (xor_step lo loop_page loop_off raw_page raw_off) [0..<n] M
                   | WRITE \<Rightarrow> fold (xor_step lo raw_page raw_off loop_page loop_off) [0..<n] M)"

definition xor_init :: "int \<Rightarrow> errcode" where
  "xor_init key_size = (if key_size \<le> 0 then - EINVAL else 0)"

type_synonym ext_transfer = "nat \<Rightarrow> cmd \<Rightarrow> nat \<Rightarrow> nat \<Rightarrow> nat \<Rightarrow> nat \<Rightarrow> nat \<Rightarrow> nat \<Rightarrow> mem \<Rightarrow> errcode \<times> mem"

definition lo_do_transfer ::
  "ext_transfer \<Rightarrow> 'z loop_crypt_scheme \<Rightarrow> cmd \<Rightarrow> nat \<Rightarrow> nat \<Rightarrow> nat \<Rightarrow> nat \<Rightarrow> nat \<Rightarrow> nat \<Rightarrow> mem \<Rightarrow> errcode \<times> mem" where
  "lo_do_transfer ext lo cmd rpage roffs lpage loffs n rblock M =
     (case transfer lo of
        None \<Rightarrow> (0, M)
      | Some TransferNone \<Rightarrow> transfer_none cmd rpage roffs lpage loffs n M
      | Some TransferXor \<Rightarrow> transfer_xor lo cmd rpage roffs lpage loffs n M
      | Some (TransferExt k) \<Rightarrow> ext k cmd rpage roffs lpage loffs n rblock M)"

section \<open>Writing through the backing file\<close>

text \<open>What the path uses of the backing file and of memory allocation.  \<open>f_write s bytes pos\<close> returns the number of
  bytes written or an error.\<close>

record 's send_env =
  f_write :: "'s \<Rightarrow> u8 list \<Rightarrow> int \<Rightarrow> int \<times> 's"
  f_fsync :: "'s \<Rightarrow> errcode \<times> 's"
  f_fallocate :: "('s \<Rightarrow> int \<Rightarrow> nat \<Rightarrow> errcode \<times> 's) option"
  x_transfer :: ext_transfer
  bounce_page :: "nat option"

definition bytes_at :: "mem \<Rightarrow> nat \<Rightarrow> nat \<Rightarrow> nat \<Rightarrow> u8 list" where
  "bytes_at M page off n = map (\<lambda>i. M page (off + i)) [0..<n]"

definition do_lo_send_write0 :: "'s send_env \<Rightarrow> u8 list \<Rightarrow> int \<Rightarrow> 's \<Rightarrow> errcode \<times> 's" where
  "do_lo_send_write0 E buf pos s =
     (let (bw, s1) = f_write E s buf pos
      in if bw = int (length buf) then (0, s1) else if 0 \<le> bw then (- EIO, s1) else (bw, s1))"

definition do_lo_send_direct_write ::
  "'s send_env \<Rightarrow> bio_vec \<Rightarrow> int \<Rightarrow> mem \<times> 's \<Rightarrow> errcode \<times> mem \<times> 's" where
  "do_lo_send_direct_write E bvec pos ms =
     (let (ret, s1) = do_lo_send_write0 E (bytes_at (fst ms) (bv_page bvec) (bv_offset bvec) (bv_len bvec)) pos (snd ms)
      in (ret, fst ms, s1))"

definition do_lo_send_write ::
  "'s send_env \<Rightarrow> 'z loop_crypt_scheme \<Rightarrow> nat \<Rightarrow> bio_vec \<Rightarrow> int \<Rightarrow> mem \<times> 's \<Rightarrow> errcode \<times> mem \<times> 's" where
  "do_lo_send_write E lo page bvec pos ms =
     (let (ret, M) = lo_do_transfer (x_transfer E) lo WRITE page 0 (bv_page bvec) (bv_offset bvec) (bv_len bvec)
                       (nat pos div 512) (fst ms)
      in if ret = 0 then (let (r, s1) = do_lo_send_write0 E (bytes_at M page 0 (bv_len bvec)) pos (snd ms) in (r, M, s1))
         else if 0 < ret then (- EIO, M, snd ms) else (ret, M, snd ms))"

text \<open>The loop over the segments, with the value \<open>ret\<close> of the last round.\<close>

primrec send_segments ::
  "(bio_vec \<Rightarrow> int \<Rightarrow> mem \<times> 's \<Rightarrow> errcode \<times> mem \<times> 's) \<Rightarrow> errcode \<Rightarrow> bio_vec list \<Rightarrow> int \<Rightarrow> mem \<times> 's \<Rightarrow>
   errcode \<times> mem \<times> 's" where
  "send_segments do_lo_send ret [] pos ms = (ret, ms)"
| "send_segments do_lo_send ret (v # vs) pos ms =
     (case do_lo_send v pos ms of (ret, ms1) \<Rightarrow>
        if ret < 0 then (ret, ms1) else send_segments do_lo_send ret vs (pos + int (bv_len v)) ms1)"

definition lo_send ::
  "'s send_env \<Rightarrow> 'z loop_crypt_scheme \<Rightarrow> bio \<Rightarrow> int \<Rightarrow> mem \<times> 's \<Rightarrow> errcode \<times> mem \<times> 's" where
  "lo_send E lo b pos ms =
     (if transfer lo \<noteq> Some TransferNone then
        (case bounce_page E of
           None \<Rightarrow> (- ENOMEM, ms)
         | Some page \<Rightarrow> send_segments (do_lo_send_write E lo page) 0 (bio_segments b) pos ms)
      else send_segments (do_lo_send_direct_write E) 0 (bio_segments b) pos ms)"

definition REQ_RAHEAD :: u64 where "REQ_RAHEAD = 8192"

definition bio_rw :: "bio \<Rightarrow> u64" where
  "bio_rw b = bi_rw b AND (REQ_WRITE OR REQ_RAHEAD)"

text \<open>A write goes through the backing file; any other request is redirected.\<close>

definition sync_backing :: "'s send_env \<Rightarrow> mem \<times> 's \<Rightarrow> errcode \<times> mem \<times> 's" where
  "sync_backing E ms =
     (let (ret, s1) = f_fsync E (snd ms) in (if ret \<noteq> 0 \<and> ret \<noteq> - EINVAL then - EIO else ret, fst ms, s1))"

definition write_filebacked ::
  "'s send_env \<Rightarrow> 'z loop_crypt_scheme \<Rightarrow> int \<Rightarrow> bio \<Rightarrow> mem \<times> 's \<Rightarrow> errcode \<times> mem \<times> 's" where
  "write_filebacked E lo pos b ms =
     (if flagged (bi_rw b) REQ_DISCARD then
        (case f_fallocate E of
           None \<Rightarrow> (- EOPNOTSUPP, ms)
         | Some punch \<Rightarrow>
             if lo_encrypt_key_size lo \<noteq> 0 then (- EOPNOTSUPP, ms)
             else (let (ret, s1) = punch (snd ms) pos (bi_size b)
                   in (if ret \<noteq> 0 \<and> ret \<noteq> - EINVAL \<and> ret \<noteq> - EOPNOTSUPP then - EIO else ret, fst ms, s1)))
      else
        (case lo_send E lo b pos ms of (ret, ms1) \<Rightarrow>
           if flagged (bi_rw b) REQ_FUA \<and> ret = 0 then sync_backing E ms1 else (ret, ms1)))"

definition do_bio_filebacked ::
  "'s send_env \<Rightarrow> 'z loop_crypt_scheme \<Rightarrow> int \<Rightarrow> bio \<Rightarrow> (bio \<Rightarrow> 'r) \<Rightarrow> mem \<times> 's \<Rightarrow> (errcode \<times> mem \<times> 's) + 'r" where
  "do_bio_filebacked E lo lo_offset b redirect ms =
     (let pos = int (bi_sector b) * 512 + lo_offset in
      if bio_rw b = REQ_WRITE then
        (if flagged (bi_rw b) REQ_FLUSH then
           (case sync_backing E ms of (ret, ms1) \<Rightarrow>
              if ret \<noteq> 0 \<and> ret \<noteq> - EINVAL then Inl (- EIO, ms1) else Inl (write_filebacked E lo pos b ms1))
         else Inl (write_filebacked E lo pos b ms))
      else Inr (redirect b))"

section \<open>What a transfer does to the bytes\<close>

definition xor_code :: "'z loop_crypt_scheme \<Rightarrow> u8 list \<Rightarrow> u8 list" where
  "xor_code lo xs = map (\<lambda>i. xs ! i XOR key_byte lo i) [0..<length xs]"

lemma length_xor_code [simp]: "length (xor_code lo xs) = length xs"
  by (simp add: xor_code_def)

lemma xor_code_invol: "xor_code lo (xor_code lo xs) = xs"
  by (rule nth_equalityI) (simp_all add: xor_code_def xor.assoc)

lemma key_byte_sector: "512 dvd n \<Longrightarrow> key_byte lo (n + i) = key_byte lo i"
  using take_bit_eq_mask [of 9 "n + i"] take_bit_eq_mask [of 9 i]
  by (auto simp: key_byte_def take_bit_eq_mod mask_eq_exp_minus_1 elim!: dvdE)

lemma xor_code_append:
  assumes "512 dvd length xs"
  shows "xor_code lo (xs @ ys) = xor_code lo xs @ xor_code lo ys"
proof (rule nth_equalityI)
  fix i assume "i < length (xor_code lo (xs @ ys))"
  then show "xor_code lo (xs @ ys) ! i = (xor_code lo xs @ xor_code lo ys) ! i"
    using key_byte_sector [OF assms, of lo "i - length xs"]
    by (cases "i < length xs") (simp_all add: xor_code_def nth_append less_diff_conv2 add.commute)
qed simp

lemma length_bytes_at [simp]: "length (bytes_at M p off n) = n"
  by (simp add: bytes_at_def)

lemma fold_xor_step:
  assumes "op \<noteq> ip"
  shows "fold (xor_step lo op ooff ip ioff) [0..<n] M =
    M(op := (\<lambda>x. if ooff \<le> x \<and> x < ooff + n then M ip (ioff + (x - ooff)) XOR key_byte lo (x - ooff) else M op x))"
  using assms by (induction n) (auto simp: xor_step_def fun_eq_iff not_less less_Suc_eq)

lemma transfer_xor_bytes:
  assumes "rp \<noteq> lp"
  shows "bytes_at (snd (transfer_xor lo WRITE rp ro lp lof n M)) rp ro n = xor_code lo (bytes_at M lp lof n)"
    and "bytes_at (snd (transfer_xor lo READ rp ro lp lof n M)) lp lof n = xor_code lo (bytes_at M rp ro n)"
  using assms by (auto simp: transfer_xor_def fold_xor_step bytes_at_def xor_code_def)

lemma transfer_xor_frame:
  assumes "rp \<noteq> lp" and "q \<noteq> rp"
  shows "snd (transfer_xor lo WRITE rp ro lp lof n M) q = M q"
  using assms by (simp add: transfer_xor_def fold_xor_step)

section \<open>Transfers that can be undone and cut at sectors\<close>

locale sector_cipher =
  fixes enc dec :: "u8 list \<Rightarrow> u8 list"
  assumes enc_length: "length (enc xs) = length xs"
    and dec_enc: "dec (enc xs) = xs"
    and enc_append: "512 dvd length xs \<Longrightarrow> enc (xs @ ys) = enc xs @ enc ys"
begin

lemma enc_inj: "enc xs = enc ys \<Longrightarrow> xs = ys"
  by (metis dec_enc)

lemma enc_Nil: "enc [] = []"
  using enc_length [of "[]"] by simp

lemma enc_concat:
  assumes "\<forall>xs \<in> set xss. 512 dvd length xs"
  shows "concat (map enc xss) = enc (concat xss)"
  using assms by (induction xss) (simp_all add: enc_append enc_Nil)

lemma cut_free:
  assumes "\<forall>xs \<in> set xss. 512 dvd length xs" and "\<forall>ys \<in> set yss. 512 dvd length ys" and "concat xss = concat yss"
  shows "concat (map enc xss) = concat (map enc yss)"
  using assms by (simp add: enc_concat)

end

interpretation plain: sector_cipher "\<lambda>xs. xs" "\<lambda>xs. xs"
  by unfold_locales simp_all

interpretation xorc: sector_cipher "xor_code lo" "xor_code lo" for lo
  by unfold_locales (simp_all add: xor_code_invol xor_code_append)

text \<open>The code of the transfer a device is set to.\<close>

definition lo_encode :: "'z loop_crypt_scheme \<Rightarrow> u8 list \<Rightarrow> u8 list" where
  "lo_encode lo = (if transfer lo = Some TransferXor then xor_code lo else (\<lambda>xs. xs))"

interpretation dev: sector_cipher "lo_encode lo" "lo_encode lo" for lo
  by (cases "transfer lo = Some TransferXor")
    (simp_all add: lo_encode_def plain.sector_cipher_axioms xorc.sector_cipher_axioms)

section \<open>Sending a request\<close>

definition seg_bytes :: "mem \<Rightarrow> bio_vec \<Rightarrow> u8 list" where
  "seg_bytes M v = bytes_at M (bv_page v) (bv_offset v) (bv_len v)"

definition crypt_ok :: "'z loop_crypt_scheme \<Rightarrow> bool" where
  "crypt_ok lo \<longleftrightarrow> transfer lo = Some TransferNone \<or>
     transfer lo = Some TransferXor \<and> 0 < lo_encrypt_key_size lo \<and> lo_encrypt_key_size lo \<le> int LO_KEY_SIZE \<and>
     length (lo_encrypt_key lo) = LO_KEY_SIZE"

text \<open>A backing file that takes every write whole, with \<open>put\<close> its effect.\<close>

definition file_puts :: "'s send_env \<Rightarrow> ('s \<Rightarrow> u8 list \<Rightarrow> int \<Rightarrow> 's) \<Rightarrow> bool" where
  "file_puts E put \<longleftrightarrow>
     (\<forall>s buf pos. f_write E s buf pos = (int (length buf), put s buf pos)) \<and>
     (\<forall>s pos. put s [] pos = s) \<and>
     (\<forall>s xs ys pos. put s (xs @ ys) pos = put (put s xs pos) ys (pos + int (length xs)))"

lemma send_write0_puts: "file_puts E put \<Longrightarrow> do_lo_send_write0 E buf pos s = (0, put s buf pos)"
  by (simp add: do_lo_send_write0_def file_puts_def)

lemma send_segments_puts:
  assumes puts: "file_puts E put"
    and step: "\<And>v pos M s. v \<in> set vs \<Longrightarrow> (\<forall>p. p \<notin> G \<longrightarrow> M p = M0 p) \<Longrightarrow>
      \<exists>M1. send v pos (M, s) = (0, M1, put s (f v) pos) \<and> (\<forall>p. p \<notin> G \<longrightarrow> M1 p = M0 p)"
    and len: "\<And>v. v \<in> set vs \<Longrightarrow> length (f v) = bv_len v"
    and M: "\<forall>p. p \<notin> G \<longrightarrow> M p = M0 p"
  shows "\<exists>M1. send_segments send 0 vs pos (M, s) = (0, M1, put s (concat (map f vs)) pos) \<and> (\<forall>p. p \<notin> G \<longrightarrow> M1 p = M0 p)"
  using step len M
proof (induction vs arbitrary: pos M s)
  case Nil
  then show ?case using puts by (auto simp: file_puts_def)
next
  case (Cons v vs)
  obtain M1 where M1: "send v pos (M, s) = (0, M1, put s (f v) pos)" "\<forall>p. p \<notin> G \<longrightarrow> M1 p = M0 p"
    using Cons.prems(1) [of v M pos s] Cons.prems(3) by auto
  have "\<exists>M2. send_segments send 0 vs (pos + int (bv_len v)) (M1, put s (f v) pos) =
      (0, M2, put (put s (f v) pos) (concat (map f vs)) (pos + int (bv_len v))) \<and> (\<forall>p. p \<notin> G \<longrightarrow> M2 p = M0 p)"
    by (rule Cons.IH) (use Cons.prems M1(2) in auto)
  then show ?case using M1 Cons.prems(2) [of v] puts by (auto simp: file_puts_def)
qed

lemma lo_send_puts:
  assumes puts: "file_puts E put" and ok: "crypt_ok lo" and pg: "bounce_page E = Some pg"
    and free: "pg \<notin> bv_page ` set (bio_segments b)"
  shows "\<exists>M1. lo_send E lo b pos (M, s) = (0, M1, put s (concat (map (\<lambda>v. lo_encode lo (seg_bytes M v)) (bio_segments b))) pos) \<and>
    (\<forall>p. p \<notin> {pg} \<longrightarrow> M1 p = M p)"
proof (cases "transfer lo = Some TransferNone")
  case True
  have "\<exists>M1. send_segments (do_lo_send_direct_write E) 0 (bio_segments b) pos (M, s) =
      (0, M1, put s (concat (map (\<lambda>v. lo_encode lo (seg_bytes M v)) (bio_segments b))) pos) \<and> (\<forall>p. p \<notin> {pg} \<longrightarrow> M1 p = M p)"
  proof (rule send_segments_puts [OF puts])
    fix v q and N :: mem and t
    assume v: "v \<in> set (bio_segments b)" and N: "\<forall>p. p \<notin> {pg} \<longrightarrow> N p = M p"
    have "bytes_at N (bv_page v) (bv_offset v) (bv_len v) = seg_bytes M v"
      using N v free by (auto simp: seg_bytes_def bytes_at_def)
    then show "\<exists>M1. do_lo_send_direct_write E v q (N, t) = (0, M1, put t (lo_encode lo (seg_bytes M v)) q) \<and>
        (\<forall>p. p \<notin> {pg} \<longrightarrow> M1 p = M p)"
      using N True by (simp add: do_lo_send_direct_write_def send_write0_puts [OF puts] lo_encode_def)
  qed (simp_all add: lo_encode_def seg_bytes_def)
  with True show ?thesis by (simp add: lo_send_def)
next
  case False
  with ok have x: "transfer lo = Some TransferXor" by (simp add: crypt_ok_def)
  have "\<exists>M1. send_segments (do_lo_send_write E lo pg) 0 (bio_segments b) pos (M, s) =
      (0, M1, put s (concat (map (\<lambda>v. lo_encode lo (seg_bytes M v)) (bio_segments b))) pos) \<and> (\<forall>p. p \<notin> {pg} \<longrightarrow> M1 p = M p)"
  proof (rule send_segments_puts [OF puts])
    fix v q and N :: mem and t
    assume v: "v \<in> set (bio_segments b)" and N: "\<forall>p. p \<notin> {pg} \<longrightarrow> N p = M p"
    let ?T = "transfer_xor lo WRITE pg 0 (bv_page v) (bv_offset v) (bv_len v) N"
    have ne: "pg \<noteq> bv_page v" using v free by auto
    have "bytes_at N (bv_page v) (bv_offset v) (bv_len v) = seg_bytes M v"
      using N ne by (simp add: seg_bytes_def bytes_at_def)
    then have "do_lo_send_write E lo pg v q (N, t) = (0, snd ?T, put t (lo_encode lo (seg_bytes M v)) q)"
      using x transfer_xor_bytes(1) [OF ne, of lo 0 "bv_offset v" "bv_len v" N]
      by (simp add: do_lo_send_write_def lo_do_transfer_def send_write0_puts [OF puts] lo_encode_def transfer_xor_def)
    then show "\<exists>M1. do_lo_send_write E lo pg v q (N, t) = (0, M1, put t (lo_encode lo (seg_bytes M v)) q) \<and>
        (\<forall>p. p \<notin> {pg} \<longrightarrow> M1 p = M p)"
      using N by (simp add: transfer_xor_frame [OF ne])
  qed (auto simp: lo_encode_def seg_bytes_def)
  with False x pg show ?thesis by (simp add: lo_send_def)
qed

section \<open>Properties\<close>

lemma transfer_none_bytes:
  assumes "rp \<noteq> lp"
  shows "bytes_at (snd (transfer_none WRITE rp ro lp lof n M)) rp ro n = bytes_at M lp lof n"
    and "bytes_at (snd (transfer_none READ rp ro lp lof n M)) lp lof n = bytes_at M rp ro n"
  using assms by (simp_all add: transfer_none_def memcpy_def bytes_at_def)

lemma lo_do_transfer_bytes:
  assumes "crypt_ok lo" and "rp \<noteq> lp"
  shows "bytes_at (snd (lo_do_transfer ext lo WRITE rp ro lp lof n blk M)) rp ro n = lo_encode lo (bytes_at M lp lof n)"
    and "bytes_at (snd (lo_do_transfer ext lo READ rp ro lp lof n blk M)) lp lof n = lo_encode lo (bytes_at M rp ro n)"
  using assms transfer_xor_bytes [OF assms(2), of lo ro lof n M] transfer_none_bytes [OF assms(2), of ro lof n M]
  by (auto simp: crypt_ok_def lo_do_transfer_def lo_encode_def)

text \<open>C24. What a transfer writes to the raw page, a read transfer into any other page gives back: the plain and the
  xor transfer are undone by themselves, whatever the offsets.\<close>

theorem lo_do_transfer_roundtrip:
  assumes "crypt_ok lo" and "rp \<noteq> lp" and "rp \<noteq> lq"
  shows "bytes_at (snd (lo_do_transfer ext lo READ rp ro lq qof n blk (snd (lo_do_transfer ext lo WRITE rp ro lp lof n blk M))))
    lq qof n = bytes_at M lp lof n"
  using lo_do_transfer_bytes [OF assms(1,2)] lo_do_transfer_bytes [OF assms(1,3)] by (simp add: dev.dec_enc)

definition xor_dev :: loop_crypt where
  "xor_dev = \<lparr>transfer = Some TransferXor, lo_encrypt_key = map of_nat [1..<33], lo_encrypt_key_size = 3\<rparr>"

lemma xor_dev_ok: "crypt_ok xor_dev"
  by (simp add: crypt_ok_def xor_dev_def LO_KEY_SIZE_def)

theorem lo_do_transfer_roundtrip_witness:
  "bytes_at (snd (lo_do_transfer (\<lambda>_ _ _ _ _ _ _ _ M. (0, M)) xor_dev READ 7 0 9 512 600 0
      (snd (lo_do_transfer (\<lambda>_ _ _ _ _ _ _ _ M. (0, M)) xor_dev WRITE 7 0 8 256 600 0 (\<lambda>p x. of_nat (p + x)))))) 9 512 600 =
   bytes_at (\<lambda>p x. of_nat (p + x)) 8 256 600"
  by (rule lo_do_transfer_roundtrip [OF xor_dev_ok]) simp_all

text \<open>C25. A request whose segments are whole sectors reaches the backing file as one run of bytes at its position, in
  the order of its segments, encoded by the transfer of the device as if it were one buffer; decoding the run gives
  the memory of the request, and no page but the bounce page changes.\<close>

theorem lo_send_correct:
  assumes "file_puts E put" and "crypt_ok lo" and "bounce_page E = Some pg" and "pg \<notin> bv_page ` set (bio_segments b)"
    and "whole_sectors (bio_segments b)"
  shows "\<exists>M1. lo_send E lo b pos (M, s) = (0, M1, put s (lo_encode lo (concat (map (seg_bytes M) (bio_segments b)))) pos) \<and>
    lo_encode lo (lo_encode lo (concat (map (seg_bytes M) (bio_segments b)))) = concat (map (seg_bytes M) (bio_segments b)) \<and>
    (\<forall>p. p \<noteq> pg \<longrightarrow> M1 p = M p)"
proof -
  have "concat (map (\<lambda>v. lo_encode lo (seg_bytes M v)) (bio_segments b)) =
      lo_encode lo (concat (map (seg_bytes M) (bio_segments b)))"
    using dev.enc_concat [of "map (seg_bytes M) (bio_segments b)" lo] assms(5)
    by (auto simp: comp_def whole_sectors_def seg_bytes_def)
  with lo_send_puts [OF assms(1-4), of pos M s] show ?thesis by (auto simp: dev.dec_enc)
qed

definition file_put :: "(int \<Rightarrow> u8) \<Rightarrow> u8 list \<Rightarrow> int \<Rightarrow> int \<Rightarrow> u8" where
  "file_put s buf pos = (\<lambda>x. if pos \<le> x \<and> x < pos + int (length buf) then buf ! nat (x - pos) else s x)"

definition file_env :: "(int \<Rightarrow> u8) send_env" where
  "file_env = \<lparr>f_write = (\<lambda>s buf pos. (int (length buf), file_put s buf pos)), f_fsync = (\<lambda>s. (0, s)),
     f_fallocate = Some (\<lambda>s pos n. (0, file_put s (replicate n 0) pos)),
     x_transfer = (\<lambda>_ _ _ _ _ _ _ _ M. (0, M)), bounce_page = Some 99\<rparr>"

lemma file_env_puts: "file_puts file_env file_put"
  by (auto simp: file_puts_def file_env_def file_put_def fun_eq_iff nth_append nat_less_iff intro!: arg_cong2 [where f = nth])

theorem lo_send_correct_witness:
  "\<exists>M1. lo_send file_env xor_dev two_page_write 4096 ((\<lambda>p x. of_nat (p + x)), (\<lambda>_. 0)) =
    (0, M1, file_put (\<lambda>_. 0) (lo_encode xor_dev (concat (map (seg_bytes (\<lambda>p x. of_nat (p + x))) (bio_segments two_page_write)))) 4096)"
  using lo_send_correct [OF file_env_puts xor_dev_ok, of 99 two_page_write 4096 "\<lambda>p x. of_nat (p + x)" "\<lambda>_. 0"]
  by (auto simp: file_env_def two_page_write_def bio_segments_def whole_sectors_def)

text \<open>A discard never reaches the backing file of an encrypted device: it fails with \<^verbatim>\<open>EOPNOTSUPP\<close> and leaves
  memory and file as the flush of the request left them.\<close>

theorem discard_encrypted:
  assumes "flagged (bi_rw b) REQ_DISCARD" and "lo_encrypt_key_size lo \<noteq> 0" and "\<not> flagged (bi_rw b) REQ_FLUSH"
    and "bio_rw b = REQ_WRITE"
  shows "do_bio_filebacked E lo off b redirect ms = Inl (- EOPNOTSUPP, ms)"
  using assms by (simp add: do_bio_filebacked_def write_filebacked_def split: option.split)

theorem discard_encrypted_witness:
  "do_bio_filebacked file_env xor_dev 0 (two_page_write\<lparr>bi_rw := REQ_WRITE OR REQ_DISCARD\<rparr>) (\<lambda>_. ()) (\<lambda>_ _. 0, \<lambda>_. 0) =
   Inl (- EOPNOTSUPP, (\<lambda>_ _. 0, \<lambda>_. 0))"
  by (rule discard_encrypted)
    (simp_all add: REQ_DISCARD_def REQ_WRITE_def REQ_FLUSH_def REQ_RAHEAD_def bio_rw_def xor_dev_def)

end
