(* ===== verification/Loop_Info.thy ===== *)
theory Loop_Info
  imports MultiLanes_Prelude
begin

text \<open>
  The status structures of the loop ioctl interface and their conversions (\<^verbatim>\<open>drivers/block/loop.c\<close>,
  \<^verbatim>\<open>loop_info64_from_old\<close> to \<^verbatim>\<open>loop_info64_to_compat\<close>).  Fields are machine words; the widths of
  \<^verbatim>\<open>__kernel_old_dev_t\<close>, \<^verbatim>\<open>compat_dev_t\<close> and \<^verbatim>\<open>unsigned long\<close> depend on the architecture and are type
  variables.
\<close>

section \<open>Structures\<close>

record loop_info64 =
  i64_device :: u64
  i64_inode :: u64
  i64_rdevice :: u64
  i64_offset :: u64
  i64_sizelimit :: u64
  i64_number :: u32
  i64_encrypt_type :: u32
  i64_encrypt_key_size :: u32
  i64_flags :: u32
  i64_file_name :: "u8 list"
  i64_crypt_name :: "u8 list"
  i64_encrypt_key :: "u8 list"
  i64_init :: "u64 \<times> u64"

record (overloaded) ('d, 'l) loop_info =
  old_number :: u32
  old_device :: "'d word"
  old_inode :: "'l word"
  old_rdevice :: "'d word"
  old_offset :: u32
  old_encrypt_type :: u32
  old_encrypt_key_size :: u32
  old_flags :: u32
  old_name :: "u8 list"
  old_encrypt_key :: "u8 list"
  old_init :: "'l word \<times> 'l word"

record (overloaded) 'd compat_loop_info =
  c_number :: u32
  c_device :: "'d word"
  c_inode :: u32
  c_rdevice :: "'d word"
  c_offset :: u32
  c_encrypt_type :: u32
  c_encrypt_key_size :: u32
  c_flags :: u32
  c_name :: "u8 list"
  c_encrypt_key :: "u8 list"
  c_init :: "u32 \<times> u32"

definition LO_NAME_SIZE :: nat where "LO_NAME_SIZE = 64"
definition LO_CRYPT_CRYPTOAPI :: u32 where "LO_CRYPT_CRYPTOAPI = 18"

definition zeros :: "nat \<Rightarrow> u8 list" where
  "zeros n = replicate n 0"

section \<open>Conversions\<close>

text \<open>Assignments between the fields convert as C does: unsigned fields are zero-extended or cut, the signed
  \<^verbatim>\<open>lo_offset\<close> is sign-extended.\<close>

definition loop_info64_from_old :: "('d::len, 'l::len) loop_info \<Rightarrow> loop_info64" where
  "loop_info64_from_old info =
     \<lparr>i64_device = ucast (old_device info), i64_inode = ucast (old_inode info), i64_rdevice = ucast (old_rdevice info),
      i64_offset = scast (old_offset info), i64_sizelimit = 0, i64_number = old_number info,
      i64_encrypt_type = old_encrypt_type info, i64_encrypt_key_size = old_encrypt_key_size info,
      i64_flags = old_flags info,
      i64_file_name = (if old_encrypt_type info = LO_CRYPT_CRYPTOAPI then zeros LO_NAME_SIZE else old_name info),
      i64_crypt_name = (if old_encrypt_type info = LO_CRYPT_CRYPTOAPI then old_name info else zeros LO_NAME_SIZE),
      i64_encrypt_key = old_encrypt_key info,
      i64_init = (ucast (fst (old_init info)), ucast (snd (old_init info)))\<rparr>"

definition loop_info64_to_old :: "loop_info64 \<Rightarrow> errcode \<times> ('d::len, 'l::len) loop_info" where
  "loop_info64_to_old i =
     (let info = \<lparr>old_number = i64_number i, old_device = ucast (i64_device i), old_inode = ucast (i64_inode i),
            old_rdevice = ucast (i64_rdevice i), old_offset = ucast (i64_offset i),
            old_encrypt_type = i64_encrypt_type i, old_encrypt_key_size = i64_encrypt_key_size i,
            old_flags = i64_flags i,
            old_name = (if i64_encrypt_type i = LO_CRYPT_CRYPTOAPI then i64_crypt_name i else i64_file_name i),
            old_encrypt_key = i64_encrypt_key i,
            old_init = (ucast (fst (i64_init i)), ucast (snd (i64_init i)))\<rparr>
      in (if ucast (old_device info) \<noteq> i64_device i \<or> ucast (old_rdevice info) \<noteq> i64_rdevice i \<or>
             ucast (old_inode info) \<noteq> i64_inode i \<or> scast (old_offset info) \<noteq> i64_offset i
          then - EOVERFLOW else 0, info))"

text \<open>\<open>readable\<close> and \<open>writable\<close> tell whether the copy from or to user space succeeds.\<close>

definition loop_info64_from_compat :: "bool \<Rightarrow> 'd::len compat_loop_info \<Rightarrow> errcode \<times> loop_info64 option" where
  "loop_info64_from_compat readable info =
     (if \<not> readable then (- EFAULT, None)
      else (0, Some
        \<lparr>i64_device = ucast (c_device info), i64_inode = ucast (c_inode info), i64_rdevice = ucast (c_rdevice info),
         i64_offset = scast (c_offset info), i64_sizelimit = 0, i64_number = c_number info,
         i64_encrypt_type = c_encrypt_type info, i64_encrypt_key_size = c_encrypt_key_size info,
         i64_flags = c_flags info,
         i64_file_name = (if c_encrypt_type info = LO_CRYPT_CRYPTOAPI then zeros LO_NAME_SIZE else c_name info),
         i64_crypt_name = (if c_encrypt_type info = LO_CRYPT_CRYPTOAPI then c_name info else zeros LO_NAME_SIZE),
         i64_encrypt_key = c_encrypt_key info,
         i64_init = (ucast (fst (c_init info)), ucast (snd (c_init info)))\<rparr>))"

definition loop_info64_to_compat :: "bool \<Rightarrow> loop_info64 \<Rightarrow> errcode \<times> 'd::len compat_loop_info option" where
  "loop_info64_to_compat writable i =
     (let info = \<lparr>c_number = i64_number i, c_device = ucast (i64_device i), c_inode = ucast (i64_inode i),
            c_rdevice = ucast (i64_rdevice i), c_offset = ucast (i64_offset i),
            c_encrypt_type = i64_encrypt_type i, c_encrypt_key_size = i64_encrypt_key_size i,
            c_flags = i64_flags i,
            c_name = (if i64_encrypt_type i = LO_CRYPT_CRYPTOAPI then i64_crypt_name i else i64_file_name i),
            c_encrypt_key = i64_encrypt_key i,
            c_init = (ucast (fst (i64_init i)), ucast (snd (i64_init i)))\<rparr>
      in if ucast (c_device info) \<noteq> i64_device i \<or> ucast (c_rdevice info) \<noteq> i64_rdevice i \<or>
            ucast (c_inode info) \<noteq> i64_inode i \<or> scast (c_offset info) \<noteq> i64_offset i \<or>
            ucast (fst (c_init info)) \<noteq> fst (i64_init i) \<or> ucast (snd (c_init info)) \<noteq> snd (i64_init i)
         then (- EOVERFLOW, None)
         else if \<not> writable then (- EFAULT, None) else (0, Some info))"

section \<open>Properties\<close>

text \<open>The zero-extension of a word to 64 bits, and its cut back.\<close>

lemma ucast_down_up: "LENGTH('n::len) \<le> 64 \<Longrightarrow> (ucast (ucast (w :: 'n word) :: u64) :: 'n word) = w"
  by (rule bit_word_eqI) (simp add: bit_simps)

lemma scast_down_up: "(ucast (scast (w :: u32) :: u64) :: u32) = w"
proof (rule bit_word_eqI)
  fix n assume "n < LENGTH(32)"
  then have "n < 31 \<or> n = 31" by auto
  then show "bit (ucast (scast w :: u64) :: u32) n \<longleftrightarrow> bit w n" by (auto simp: bit_simps min_def)
qed

lemma ucast_cut_eq: "(ucast (ucast (w :: u64) :: 'n::len word) = w) \<longleftrightarrow> unat w < 2 ^ LENGTH('n)"
proof -
  have "(ucast (ucast w :: 'n word) = w) \<longleftrightarrow> take_bit LENGTH('n) w = w"
    by (simp add: unsigned_ucast_eq)
  also have "\<dots> \<longleftrightarrow> take_bit LENGTH('n) (unat w) = unat w"
    by (metis unsigned_take_bit_eq unsigned_word_eqI)
  finally show ?thesis by (simp add: take_bit_nat_eq_self_iff)
qed

lemma sint_cut: "sint (scast (ucast (w :: u64) :: u32) :: u64) = signed_take_bit 31 (sint w)"
  by (rule bit_eqI) (auto simp: bit_simps min_def)

lemma scast_cut_eq: "(scast (ucast (w :: u64) :: u32) = w) \<longleftrightarrow> - (2 ^ 31) \<le> sint w \<and> sint w < 2 ^ 31"
proof -
  have "(scast (ucast w :: u32) = w) \<longleftrightarrow> signed_take_bit 31 (sint w) = sint w"
    by (metis signed_word_eqI sint_cut)
  also have "\<dots> \<longleftrightarrow> - (2 ^ 31) \<le> sint w \<and> sint w < 2 ^ 31"
    by (auto simp: signed_take_bit_int_eq_self_iff)
  finally show ?thesis .
qed

text \<open>C26. The old status structure.  Converting it to 64 bits and back gives it unchanged and without error, for every
  width of device numbers and of \<^verbatim>\<open>unsigned long\<close> up to 64 bits.  The conversion of any 64-bit status reports
  \<^verbatim>\<open>EOVERFLOW\<close> exactly when the device, the node's device or the inode does not fit as an unsigned value, or the
  offset as a signed one of 32 bits; the init words are cut without a report.\<close>

theorem loop_info_old_roundtrip:
  fixes info :: "('d::len, 'l::len) loop_info"
  assumes "LENGTH('d) \<le> 64" and "LENGTH('l) \<le> 64"
  shows "loop_info64_to_old (loop_info64_from_old info) = (0, info) \<and>
    fst (loop_info64_to_old i :: errcode \<times> ('d, 'l) loop_info) =
      (if unat (i64_device i) < 2 ^ LENGTH('d) \<and> unat (i64_rdevice i) < 2 ^ LENGTH('d) \<and> unat (i64_inode i) < 2 ^ LENGTH('l) \<and>
          - (2 ^ 31) \<le> sint (i64_offset i) \<and> sint (i64_offset i) < 2 ^ 31
       then 0 else - EOVERFLOW)"
  using assms
  by (simp add: loop_info64_to_old_def loop_info64_from_old_def ucast_down_up scast_down_up ucast_cut_eq scast_cut_eq Let_def)

definition old_sample :: "(16, 32) loop_info" where
  "old_sample = \<lparr>old_number = 3, old_device = 0x801, old_inode = 77, old_rdevice = 0x703, old_offset = - 512, old_encrypt_type = 1,
     old_encrypt_key_size = 4, old_flags = 0, old_name = zeros 64, old_encrypt_key = zeros 32, old_init = (1, 2)\<rparr>"

definition big_sample :: loop_info64 where
  "big_sample = (loop_info64_from_old old_sample)\<lparr>i64_inode := 4294967296\<rparr>"

theorem loop_info_old_roundtrip_witness:
  "loop_info64_to_old (loop_info64_from_old old_sample) = (0, old_sample) \<and>
   fst (loop_info64_to_old big_sample :: errcode \<times> (16, 32) loop_info) = - EOVERFLOW"
  using loop_info_old_roundtrip [of old_sample big_sample] by (simp add: big_sample_def)

text \<open>C27. The conversion to the 32-bit compatibility structure reports \<^verbatim>\<open>EOVERFLOW\<close> exactly when a value does not
  fit: a device, the inode or one of the init words as an unsigned value, the offset as a signed one.\<close>

theorem loop_info_compat_overflow:
  "fst (loop_info64_to_compat w i :: errcode \<times> 'd::len compat_loop_info option) = - EOVERFLOW \<longleftrightarrow>
     \<not> (unat (i64_device i) < 2 ^ LENGTH('d) \<and> unat (i64_rdevice i) < 2 ^ LENGTH('d) \<and> unat (i64_inode i) < 2 ^ 32 \<and>
        - (2 ^ 31) \<le> sint (i64_offset i) \<and> sint (i64_offset i) < 2 ^ 31 \<and>
        unat (fst (i64_init i)) < 2 ^ 32 \<and> unat (snd (i64_init i)) < 2 ^ 32)"
  by (simp add: loop_info64_to_compat_def Let_def ucast_cut_eq scast_cut_eq)

text \<open>What the compatibility conversion delivers converts back to the status it came from, but for the size
  limit and for the name that the structure has no field for.\<close>

theorem loop_info_compat_roundtrip:
  assumes "loop_info64_to_compat True i = (0, Some (info :: 'd::len compat_loop_info))"
  shows "loop_info64_from_compat True info =
    (0, Some (i\<lparr>i64_sizelimit := 0,
       i64_file_name := (if i64_encrypt_type i = LO_CRYPT_CRYPTOAPI then zeros LO_NAME_SIZE else i64_file_name i),
       i64_crypt_name := (if i64_encrypt_type i = LO_CRYPT_CRYPTOAPI then i64_crypt_name i else zeros LO_NAME_SIZE)\<rparr>))"
  using assms by (cases i) (auto simp: loop_info64_to_compat_def loop_info64_from_compat_def Let_def split: if_splits)

definition sample_info :: loop_info64 where
  "sample_info = \<lparr>i64_device = 0x801, i64_inode = 77, i64_rdevice = 0x703, i64_offset = 4096, i64_sizelimit = 65536,
     i64_number = 3, i64_encrypt_type = 1, i64_encrypt_key_size = 4, i64_flags = 4, i64_file_name = 97 # zeros 63,
     i64_crypt_name = zeros 64, i64_encrypt_key = 1 # 2 # 3 # 4 # zeros 28, i64_init = (0, 0)\<rparr>"

definition sample_compat :: "16 compat_loop_info" where
  "sample_compat = \<lparr>c_number = 3, c_device = 0x801, c_inode = 77, c_rdevice = 0x703, c_offset = 4096,
     c_encrypt_type = 1, c_encrypt_key_size = 4, c_flags = 4, c_name = 97 # zeros 63,
     c_encrypt_key = 1 # 2 # 3 # 4 # zeros 28, c_init = (0, 0)\<rparr>"

theorem loop_info_compat_roundtrip_witness:
  "loop_info64_to_compat True sample_info = (0, Some sample_compat) \<and>
   loop_info64_from_compat True sample_compat = (0, Some (sample_info\<lparr>i64_sizelimit := 0\<rparr>))"
proof -
  have c: "loop_info64_to_compat True sample_info = (0, Some sample_compat)"
    by (simp add: loop_info64_to_compat_def sample_info_def sample_compat_def LO_CRYPT_CRYPTOAPI_def)
  from loop_info_compat_roundtrip [OF c] c show ?thesis
    by (simp add: sample_info_def LO_CRYPT_CRYPTOAPI_def LO_NAME_SIZE_def)
qed

end
