(* ===== verification/Loop_Device.thy ===== *)
theory Loop_Device
  imports Loop_Transfer Loop_Info
begin

text \<open>
  The configuration of a virtualized device (\<^verbatim>\<open>drivers/block/loop.c\<close>, \<^verbatim>\<open>get_size\<close> to
  \<^verbatim>\<open>lo_release\<close>): binding a backing file, switching and clearing it, the status and capacity ioctls, open and
  release.  The state is one record per device and a world record with what the devices share: the reference counts of
  files and modules, the allocation masks of the backing inodes, the block devices and the table of transfer modules.

  Files, the caller, the other transfer modules and the allocations that may fail are the environment.
\<close>

section \<open>State\<close>

datatype lo_state = Lo_unbound | Lo_bound | Lo_rundown

text \<open>A block device is a disk number and a partition.  \<open>BlkDev (Some b)\<close> is the node of a loop device.\<close>

type_synonym bdev = "nat \<times> nat"

datatype ikind = RegFile | BlkDev "bdev option" | OtherFile

record lo_file =
  f_inode :: nat
  f_kind :: ikind
  f_mode_write :: bool
  f_op_write :: bool
  f_op_fsync :: bool
  f_op_fallocate :: bool
  f_isize :: int
  f_bd_block_size :: nat
  f_s_blocksize :: nat

record loop_device = loop_crypt +
  lo_number :: nat
  lo_refcnt :: int
  lo_offset :: int
  lo_sizelimit :: int
  lo_flags :: u32
  lo_file_name :: "u8 list"
  lo_crypt_name :: "u8 list"
  lo_encryption :: "nat option"
  lo_init :: "u32 \<times> u32"
  lo_key_owner :: nat
  lo_ioctl_fn :: "(nat \<Rightarrow> nat \<Rightarrow> errcode) option"
  lo_backing_file :: "nat option"
  lo_block_cache :: cache
  lo_device :: "bdev option"
  lo_blocksize :: nat
  old_gfp_mask :: u32
  lo_bio_count :: nat
  lo_state :: lo_state
  lo_thread :: bool
  lo_dirty_state :: bool
  lo_mutex :: int
  lo_capacity :: int
  lo_disk_flags :: u32
  lo_sysfs :: bool
  lo_queue_flush :: bool
  lo_discard :: "(nat \<times> nat) option"

text \<open>The transfer modules.  \<open>xt_live\<close>: \<^verbatim>\<open>try_module_get\<close> on the owner succeeds.\<close>

record loop_func_table =
  xt_number :: int
  xt_transfer :: transfer_fn
  xt_init :: "(loop_info64 \<Rightarrow> errcode) option"
  xt_release :: "errcode option"
  xt_ioctl :: "(nat \<Rightarrow> nat \<Rightarrow> errcode) option"
  xt_live :: bool

record kstat =
  st_dev :: u64
  st_ino :: u64
  st_rdev :: u64

record loop_env =
  file_of :: "nat \<Rightarrow> lo_file"
  fget :: "nat \<Rightarrow> nat option"
  part_shift :: nat
  kthread_err :: errcode
  switch_bio_ok :: bool
  sector_bits :: nat
  tables :: "nat \<Rightarrow> loop_func_table"
  current_uid :: nat
  cap_sys_admin :: bool
  vfs_getattr :: "nat \<Rightarrow> errcode \<times> kstat"

datatype signal = Uevent nat | Rescan bdev | Invalidate bdev

record world =
  w_devs :: "nat \<Rightarrow> loop_device option"
  w_gfp :: "nat \<Rightarrow> u32"
  w_fref :: "nat \<Rightarrow> int"
  w_modref :: int
  w_xref :: "nat \<Rightarrow> int"
  w_xfer :: "nat \<Rightarrow> nat option"
  w_bd_size :: "bdev \<Rightarrow> int"
  w_bd_block :: "bdev \<Rightarrow> nat"
  w_bd_ro :: "bdev \<Rightarrow> bool"
  w_signals :: "signal list"

definition LO_FLAGS_READ_ONLY :: u32 where "LO_FLAGS_READ_ONLY = 1"
definition LO_FLAGS_AUTOCLEAR :: u32 where "LO_FLAGS_AUTOCLEAR = 4"
definition LO_FLAGS_PARTSCAN :: u32 where "LO_FLAGS_PARTSCAN = 8"
definition GENHD_FL_NO_PART_SCAN :: u32 where "GENHD_FL_NO_PART_SCAN = 512"
definition GENHD_FL_EXT_DEVT :: u32 where "GENHD_FL_EXT_DEVT = 64"
definition GFP_IO_FS :: u32 where "GFP_IO_FS = 192"
definition MAX_LO_CRYPT :: nat where "MAX_LO_CRYPT = 20"
definition PAGE_SIZE :: nat where "PAGE_SIZE = 4096"
definition UINT_MAX :: nat where "UINT_MAX = 4294967295"

definition none_funcs :: loop_func_table where
  "none_funcs = \<lparr>xt_number = 0, xt_transfer = TransferNone, xt_init = None, xt_release = None, xt_ioctl = None,
     xt_live = True\<rparr>"

definition xor_funcs :: loop_func_table where
  "xor_funcs = \<lparr>xt_number = 1, xt_transfer = TransferXor,
     xt_init = Some (\<lambda>info. xor_init (int (unat (i64_encrypt_key_size info)))), xt_release = None, xt_ioctl = None,
     xt_live = True\<rparr>"

text \<open>The initial value of \<^verbatim>\<open>xfer_funcs\<close>, by the address of the table.\<close>

definition xfer_funcs :: "nat \<Rightarrow> nat option" where
  "xfer_funcs n = (if n = 0 then Some 0 else if n = 1 then Some 1 else None)"

subsection \<open>Shared state\<close>

definition fput :: "nat \<Rightarrow> world \<Rightarrow> world" where
  "fput f w = w\<lparr>w_fref := (w_fref w)(f := w_fref w f - 1)\<rparr>"

definition take_file :: "nat \<Rightarrow> world \<Rightarrow> world" where
  "take_file f w = w\<lparr>w_fref := (w_fref w)(f := w_fref w f + 1)\<rparr>"

definition module_put :: "world \<Rightarrow> world" where "module_put w = w\<lparr>w_modref := w_modref w - 1\<rparr>"

definition module_get :: "world \<Rightarrow> world" where "module_get w = w\<lparr>w_modref := w_modref w + 1\<rparr>"

definition mapping_gfp_mask :: "loop_env \<Rightarrow> nat \<Rightarrow> world \<Rightarrow> u32" where
  "mapping_gfp_mask E f w = w_gfp w (f_inode (file_of E f))"

definition mapping_set_gfp_mask :: "loop_env \<Rightarrow> nat \<Rightarrow> u32 \<Rightarrow> world \<Rightarrow> world" where
  "mapping_set_gfp_mask E f m w = w\<lparr>w_gfp := (w_gfp w)(f_inode (file_of E f) := m)\<rparr>"

definition bd_set_size :: "bdev \<Rightarrow> int \<Rightarrow> world \<Rightarrow> world" where
  "bd_set_size b n w = w\<lparr>w_bd_size := (w_bd_size w)(b := n)\<rparr>"

definition signal :: "signal \<Rightarrow> world \<Rightarrow> world" where
  "signal x w = w\<lparr>w_signals := w_signals w @ [x]\<rparr>"

section \<open>Size\<close>

text \<open>\<^verbatim>\<open>loff_t\<close> has 64 bits and a sign.\<close>

definition loff :: "int \<Rightarrow> int" where "loff x = signed_take_bit 63 x"

definition get_size :: "int \<Rightarrow> int \<Rightarrow> int \<Rightarrow> int" where
  "get_size offset sizelimit sz =
     (let loopsize = loff (sz - offset) in
      if loopsize < 0 then 0
      else (if 0 < sizelimit \<and> sizelimit < loopsize then sizelimit else loopsize) div 512)"

definition i_size_read :: "loop_env \<Rightarrow> world \<Rightarrow> nat \<Rightarrow> int" where
  "i_size_read E w f =
     (case f_kind (file_of E f) of BlkDev (Some b) \<Rightarrow> w_bd_size w b | _ \<Rightarrow> f_isize (file_of E f))"

definition get_loop_size :: "loop_env \<Rightarrow> world \<Rightarrow> loop_device \<Rightarrow> nat \<Rightarrow> int" where
  "get_loop_size E w lo f = get_size (lo_offset lo) (lo_sizelimit lo) (i_size_read E w f)"

definition sector_cast :: "loop_env \<Rightarrow> int \<Rightarrow> int" where
  "sector_cast E sz = take_bit (sector_bits E) sz"

definition figure_loop_size :: "loop_env \<Rightarrow> world \<Rightarrow> int \<Rightarrow> int \<Rightarrow> loop_device \<Rightarrow> errcode \<times> loop_device" where
  "figure_loop_size E w offset sizelimit lo =
     (let sz = get_size offset sizelimit (i_size_read E w (the (lo_backing_file lo))); x = sector_cast E sz in
      if x \<noteq> sz then (- EFBIG, lo)
      else (0, lo\<lparr>lo_offset := offset, lo_sizelimit := sizelimit, lo_capacity := x\<rparr>))"

definition backing_block_size :: "loop_env \<Rightarrow> world \<Rightarrow> nat \<Rightarrow> nat" where
  "backing_block_size E w f =
     (case f_kind (file_of E f) of
        BlkDev (Some b) \<Rightarrow> w_bd_block w b
      | BlkDev None \<Rightarrow> f_bd_block_size (file_of E f)
      | _ \<Rightarrow> PAGE_SIZE)"

section \<open>Switching the backing file\<close>

definition do_loop_switch :: "loop_env \<Rightarrow> nat option \<Rightarrow> loop_device \<Rightarrow> world \<Rightarrow> loop_device \<times> world" where
  "do_loop_switch E file lo w =
     (case file of
        None \<Rightarrow> (lo, w)
      | Some f \<Rightarrow>
          (let w1 = mapping_set_gfp_mask E (the (lo_backing_file lo)) (old_gfp_mask lo) w;
               m = mapping_gfp_mask E f w1
           in (lo\<lparr>lo_backing_file := Some f, lo_blocksize := backing_block_size E w f, old_gfp_mask := m\<rparr>,
               mapping_set_gfp_mask E f (m AND NOT GFP_IO_FS) w1)))"

definition loop_switch :: "loop_env \<Rightarrow> nat option \<Rightarrow> loop_device \<Rightarrow> world \<Rightarrow> errcode \<times> loop_device \<times> world" where
  "loop_switch E file lo w = (if switch_bio_ok E then (0, do_loop_switch E file lo w) else (- ENOMEM, lo, w))"

definition loop_flush :: "loop_env \<Rightarrow> loop_device \<Rightarrow> world \<Rightarrow> errcode \<times> loop_device \<times> world" where
  "loop_flush E lo w = (if \<not> lo_thread lo then (0, lo, w) else loop_switch E None lo w)"

definition reg_or_blk :: "ikind \<Rightarrow> bool" where
  "reg_or_blk k = (case k of OtherFile \<Rightarrow> False | _ \<Rightarrow> True)"

text \<open>The part of \<^verbatim>\<open>loop_change_fd\<close> that holds the new file \<open>f\<close>.\<close>

definition change_backing :: "loop_env \<Rightarrow> bdev \<Rightarrow> nat \<Rightarrow> loop_device \<Rightarrow> world \<Rightarrow> errcode \<times> loop_device \<times> world" where
  "change_backing E bdev f lo w =
     (let old_file = the (lo_backing_file lo) in
      if \<not> reg_or_blk (f_kind (file_of E f)) then (- EINVAL, lo, fput f w)
      else if get_loop_size E w lo f \<noteq> get_loop_size E w lo old_file then (- EINVAL, lo, fput f w)
      else (case loop_switch E (Some f) lo w of (error, lo1, w1) \<Rightarrow>
        if error \<noteq> 0 then (error, lo1, fput f w1)
        else (let w2 = fput old_file w1
              in (0, lo1, if lo_flags lo1 AND LO_FLAGS_PARTSCAN \<noteq> 0 then signal (Rescan bdev) w2 else w2))))"

definition loop_change_fd ::
  "loop_env \<Rightarrow> bdev \<Rightarrow> nat \<Rightarrow> loop_device \<Rightarrow> world \<Rightarrow> errcode \<times> loop_device \<times> world" where
  "loop_change_fd E bdev arg lo w =
     (if lo_state lo \<noteq> Lo_bound then (- ENXIO, lo, w)
      else if lo_flags lo AND LO_FLAGS_READ_ONLY = 0 then (- EINVAL, lo, w)
      else (case fget E arg of
        None \<Rightarrow> (- EBADF, lo, w)
      | Some f \<Rightarrow> change_backing E bdev f lo (take_file f w)))"

section \<open>Binding and clearing\<close>

text \<open>The loop that avoids recursion, from the file \<open>f\<close>: it follows the backing files of loop devices.  \<open>None\<close>: it does
  not end, or follows a null pointer.\<close>

partial_function (option) backing_chain :: "loop_env \<Rightarrow> world \<Rightarrow> bdev \<Rightarrow> nat \<Rightarrow> errcode option" where
  "backing_chain E w bdev f =
     (case f_kind (file_of E f) of
        BlkDev (Some b) \<Rightarrow>
          if b = bdev then Some (- EBUSY)
          else (case w_devs w (fst b) of
                  None \<Rightarrow> None
                | Some l \<Rightarrow>
                    if lo_state l = Lo_unbound then Some (- EINVAL)
                    else (case lo_backing_file l of None \<Rightarrow> None | Some g \<Rightarrow> backing_chain E w bdev g))
      | _ \<Rightarrow> Some 0)"

text \<open>The part of \<^verbatim>\<open>loop_set_fd\<close> after the checks: the assignments, then the outcome of \<^verbatim>\<open>kthread_create\<close>.\<close>

definition set_fd_fields :: "loop_env \<Rightarrow> bool \<Rightarrow> bdev \<Rightarrow> nat \<Rightarrow> loop_device \<Rightarrow> world \<Rightarrow> loop_device \<times> world" where
  "set_fd_fields E mode_write bdev f lo w =
     (let fl = file_of E f;
          ro = (\<not> f_mode_write fl \<or> \<not> mode_write \<or> \<not> f_op_write fl);
          bs = backing_block_size E w f;
          sz = get_loop_size E w lo f;
          m = mapping_gfp_mask E f w
      in (lo\<lparr>lo_blocksize := bs, lo_device := Some bdev, lo_flags := (if ro then LO_FLAGS_READ_ONLY else 0),
             lo_backing_file := Some f, transfer := Some TransferNone, lo_ioctl_fn := None, lo_sizelimit := 0,
             lo_bio_count := 0, old_gfp_mask := m, lo_dirty_state := False,
             lo_queue_flush := (if \<not> ro \<and> f_op_fsync fl then True else lo_queue_flush lo),
             lo_capacity := sz, lo_sysfs := True, lo_block_cache := setup_cache (lo_block_cache lo)\<rparr>,
          signal (Uevent (fst bdev))
            (bd_set_size bdev (sz * 512)
              (mapping_set_gfp_mask E f (m AND NOT GFP_IO_FS)
                (w\<lparr>w_bd_ro := (w_bd_ro w)(bdev := ro)\<rparr>)))
          \<lparr>w_bd_block := (w_bd_block w)(bdev := bs)\<rparr>))"

definition set_fd_thread :: "loop_env \<Rightarrow> bdev \<Rightarrow> nat \<Rightarrow> loop_device \<Rightarrow> world \<Rightarrow> errcode \<times> loop_device \<times> world" where
  "set_fd_thread E bdev f lo w =
     (if kthread_err E \<noteq> 0 then
        (kthread_err E,
         lo\<lparr>lo_sysfs := False, lo_thread := False, lo_device := None, lo_backing_file := None, lo_flags := 0,
            lo_capacity := 0, lo_state := Lo_unbound\<rparr>,
         module_put (fput f (mapping_set_gfp_mask E f (old_gfp_mask lo)
           (signal (Uevent (fst bdev)) (bd_set_size bdev 0 (signal (Invalidate bdev) w))))))
      else
        (let lo1 = lo\<lparr>lo_state := Lo_bound, lo_thread := True,
               lo_flags := (if part_shift E \<noteq> 0 then lo_flags lo OR LO_FLAGS_PARTSCAN else lo_flags lo)\<rparr>
         in (0, lo1, if lo_flags lo1 AND LO_FLAGS_PARTSCAN \<noteq> 0 then signal (Rescan bdev) w else w)))"

definition loop_set_fd ::
  "loop_env \<Rightarrow> bool \<Rightarrow> bdev \<Rightarrow> nat \<Rightarrow> loop_device \<Rightarrow> world \<Rightarrow> (errcode \<times> loop_device \<times> world) option" where
  "loop_set_fd E mode_write bdev arg lo w =
     (let w0 = module_get w in
      case fget E arg of
        None \<Rightarrow> Some (- EBADF, lo, module_put w0)
      | Some f \<Rightarrow>
          (let w1 = take_file f w0; fail = (\<lambda>e. Some (e, lo, module_put (fput f w1))) in
           if lo_state lo \<noteq> Lo_unbound then fail (- EBUSY)
           else (case backing_chain E w1 bdev f of
             None \<Rightarrow> None
           | Some e \<Rightarrow>
               if e \<noteq> 0 then fail e
               else if \<not> reg_or_blk (f_kind (file_of E f)) then fail (- EINVAL)
               else if sector_cast E (get_loop_size E w1 lo f) \<noteq> get_loop_size E w1 lo f then fail (- EFBIG)
               else (case set_fd_fields E mode_write bdev f lo w1 of (lo1, w2) \<Rightarrow>
                       Some (set_fd_thread E bdev f lo1 w2)))))"

definition loop_release_xfer :: "loop_env \<Rightarrow> loop_device \<Rightarrow> world \<Rightarrow> errcode \<times> loop_device \<times> world" where
  "loop_release_xfer E lo w =
     (case lo_encryption lo of
        None \<Rightarrow> (0, lo, w)
      | Some x \<Rightarrow>
          (case xt_release (tables E x) of None \<Rightarrow> 0 | Some e \<Rightarrow> e,
           lo\<lparr>transfer := None, lo_encryption := None\<rparr>, w\<lparr>w_xref := (w_xref w)(x := w_xref w x - 1)\<rparr>))"

definition loop_init_xfer ::
  "loop_env \<Rightarrow> nat option \<Rightarrow> loop_info64 \<Rightarrow> loop_device \<Rightarrow> world \<Rightarrow> errcode \<times> loop_device \<times> world" where
  "loop_init_xfer E xfer info lo w =
     (case xfer of
        None \<Rightarrow> (0, lo, w)
      | Some x \<Rightarrow>
          if \<not> xt_live (tables E x) then (- EINVAL, lo, w)
          else (let err = (case xt_init (tables E x) of None \<Rightarrow> 0 | Some init \<Rightarrow> init info)
                in if err \<noteq> 0 then (err, lo, w)
                   else (0, lo\<lparr>lo_encryption := Some x\<rparr>, w\<lparr>w_xref := (w_xref w)(x := w_xref w x + 1)\<rparr>)))"

definition clear_fields :: "loop_env \<Rightarrow> loop_device \<Rightarrow> loop_device" where
  "clear_fields E lo =
     lo\<lparr>lo_thread := False, lo_backing_file := None, transfer := None, lo_ioctl_fn := None, lo_device := None,
        lo_encryption := None, lo_offset := 0, lo_sizelimit := 0, lo_encrypt_key_size := 0,
        lo_encrypt_key := zeros LO_KEY_SIZE, lo_crypt_name := zeros LO_NAME_SIZE, lo_file_name := zeros LO_NAME_SIZE,
        lo_capacity := 0, lo_sysfs := False, lo_state := Lo_unbound, lo_flags := 0,
        lo_disk_flags := (if part_shift E = 0 then lo_disk_flags lo OR GENHD_FL_NO_PART_SCAN else lo_disk_flags lo),
        lo_mutex := lo_mutex lo - 1\<rparr>"

definition loop_clr_fd :: "loop_env \<Rightarrow> loop_device \<Rightarrow> world \<Rightarrow> errcode \<times> loop_device \<times> world" where
  "loop_clr_fd E lo w =
     (if lo_state lo \<noteq> Lo_bound then (- ENXIO, lo, w)
      else if 1 < lo_refcnt lo then
        (0, lo\<lparr>lo_flags := lo_flags lo OR LO_FLAGS_AUTOCLEAR, lo_mutex := lo_mutex lo - 1\<rparr>, w)
      else (case lo_backing_file lo of
        None \<Rightarrow> (- EINVAL, lo, w)
      | Some filp \<Rightarrow>
          (case loop_release_xfer E (lo\<lparr>lo_state := Lo_rundown, lo_thread := False, lo_backing_file := None\<rparr>) w of
             (_, lo1, w1) \<Rightarrow>
               (let w2 = (case lo_device lo of None \<Rightarrow> w1
                          | Some b \<Rightarrow> signal (Uevent (fst b)) (bd_set_size b 0 (signal (Invalidate b) w1)));
                    w3 = module_put (mapping_set_gfp_mask E filp (old_gfp_mask lo) w2);
                    w4 = (case lo_device lo of None \<Rightarrow> w3
                          | Some b \<Rightarrow> if lo_flags lo AND LO_FLAGS_PARTSCAN \<noteq> 0 then signal (Rescan b) w3 else w3)
                in (0, clear_fields E lo1, fput filp w4)))))"

section \<open>Status\<close>

definition loop_config_discard :: "loop_env \<Rightarrow> loop_device \<Rightarrow> loop_device" where
  "loop_config_discard E lo =
     (let fl = file_of E (the (lo_backing_file lo)) in
      if \<not> f_op_fallocate fl \<or> lo_encrypt_key_size lo \<noteq> 0 then lo\<lparr>lo_discard := None\<rparr>
      else lo\<lparr>lo_discard := Some (f_s_blocksize fl, UINT_MAX div 512)\<rparr>)"

text \<open>The table a status asks for: \<open>Inl\<close> when there is none.\<close>

definition find_xfer :: "world \<Rightarrow> u32 \<Rightarrow> errcode + nat option" where
  "find_xfer w type =
     (if type = 0 then Inr None
      else if MAX_LO_CRYPT \<le> unat type then Inl (- EINVAL)
      else (case w_xfer w (unat type) of None \<Rightarrow> Inl (- EINVAL) | Some x \<Rightarrow> Inr (Some x)))"

text \<open>The assignments at the end of \<^verbatim>\<open>loop_set_status\<close>.\<close>

definition status_flags :: "u32 \<Rightarrow> u32 \<Rightarrow> u32" where
  "status_flags cur new =
     (let f = (if cur AND LO_FLAGS_AUTOCLEAR \<noteq> new AND LO_FLAGS_AUTOCLEAR then cur XOR LO_FLAGS_AUTOCLEAR else cur)
      in if new AND LO_FLAGS_PARTSCAN \<noteq> 0 \<and> f AND LO_FLAGS_PARTSCAN = 0 then f OR LO_FLAGS_PARTSCAN else f)"

definition status_fields :: "loop_env \<Rightarrow> nat option \<Rightarrow> loop_info64 \<Rightarrow> loop_device \<Rightarrow> world \<Rightarrow> loop_device \<times> world" where
  "status_fields E xfer info lo w =
     (let t = (case xfer of None \<Rightarrow> none_funcs | Some x \<Rightarrow> tables E x);
          scan = (i64_flags info AND LO_FLAGS_PARTSCAN \<noteq> 0 \<and> lo_flags lo AND LO_FLAGS_PARTSCAN = 0);
          n = unat (i64_encrypt_key_size info)
      in (lo\<lparr>lo_file_name := (i64_file_name info)[LO_NAME_SIZE - 1 := 0],
             lo_crypt_name := (i64_crypt_name info)[LO_NAME_SIZE - 1 := 0],
             transfer := Some (xt_transfer t), lo_ioctl_fn := xt_ioctl t,
             lo_flags := status_flags (lo_flags lo) (i64_flags info),
             lo_disk_flags := (if scan then lo_disk_flags lo AND NOT GENHD_FL_NO_PART_SCAN else lo_disk_flags lo),
             lo_encrypt_key_size := int n,
             lo_init := (ucast (fst (i64_init info)), ucast (snd (i64_init info))),
             lo_encrypt_key := (if n = 0 then lo_encrypt_key lo
                                else take n (i64_encrypt_key info) @ drop n (lo_encrypt_key lo)),
             lo_key_owner := (if n = 0 then lo_key_owner lo else current_uid E)\<rparr>,
          if scan then (case lo_device lo of Some b \<Rightarrow> signal (Rescan b) w | None \<Rightarrow> w) else w))"

text \<open>\<^verbatim>\<open>loop_set_status\<close> from the new size on, and from the look-up of the transfer on.\<close>

definition status_apply ::
  "loop_env \<Rightarrow> nat option \<Rightarrow> loop_info64 \<Rightarrow> loop_device \<Rightarrow> world \<Rightarrow> errcode \<times> loop_device \<times> world" where
  "status_apply E xfer info lo w =
     (case (if word_of_int (lo_offset lo) \<noteq> i64_offset info \<or> word_of_int (lo_sizelimit lo) \<noteq> i64_sizelimit info
            then figure_loop_size E w (sint (i64_offset info)) (sint (i64_sizelimit info)) lo
            else (0, lo)) of (err, lo1) \<Rightarrow>
        if err \<noteq> 0 then (- EFBIG, lo1, w)
        else (0, status_fields E xfer info (loop_config_discard E lo1) w))"

definition status_xfer :: "loop_env \<Rightarrow> loop_info64 \<Rightarrow> loop_device \<Rightarrow> world \<Rightarrow> errcode \<times> loop_device \<times> world" where
  "status_xfer E info lo w =
     (case find_xfer w (i64_encrypt_type info) of
        Inl err \<Rightarrow> (err, lo, w)
      | Inr xfer \<Rightarrow>
          (case loop_init_xfer E xfer info lo w of (err, lo1, w1) \<Rightarrow>
             if err \<noteq> 0 then (err, lo1, w1) else status_apply E xfer info lo1 w1))"

definition loop_set_status :: "loop_env \<Rightarrow> loop_info64 \<Rightarrow> loop_device \<Rightarrow> world \<Rightarrow> errcode \<times> loop_device \<times> world" where
  "loop_set_status E info lo w =
     (if lo_encrypt_key_size lo \<noteq> 0 \<and> lo_key_owner lo \<noteq> current_uid E \<and> \<not> cap_sys_admin E then (- EPERM, lo, w)
      else if lo_state lo \<noteq> Lo_bound then (- ENXIO, lo, w)
      else if LO_KEY_SIZE < unat (i64_encrypt_key_size info) then (- EINVAL, lo, w)
      else (case loop_release_xfer E lo w of (err, lo1, w1) \<Rightarrow>
        if err \<noteq> 0 then (err, lo1, w1) else status_xfer E info lo1 w1))"

definition loop_get_status :: "loop_env \<Rightarrow> loop_device \<Rightarrow> errcode \<times> loop_info64 option" where
  "loop_get_status E lo =
     (if lo_state lo \<noteq> Lo_bound then (- ENXIO, None)
      else (case vfs_getattr E (the (lo_backing_file lo)) of (error, st) \<Rightarrow>
        if error \<noteq> 0 then (error, None)
        else
          (let n = nat (lo_encrypt_key_size lo); show_key = (lo_encrypt_key_size lo \<noteq> 0 \<and> cap_sys_admin E)
           in (0, Some \<lparr>i64_device = st_dev st, i64_inode = st_ino st,
                 i64_rdevice = (if lo_device lo \<noteq> None then st_rdev st else st_dev st),
                 i64_offset = word_of_int (lo_offset lo), i64_sizelimit = word_of_int (lo_sizelimit lo),
                 i64_number = of_nat (lo_number lo),
                 i64_encrypt_type = (case lo_encryption lo of None \<Rightarrow> 0 | Some x \<Rightarrow> word_of_int (xt_number (tables E x))),
                 i64_encrypt_key_size = (if show_key then word_of_int (lo_encrypt_key_size lo) else 0),
                 i64_flags = lo_flags lo, i64_file_name = lo_file_name lo, i64_crypt_name = lo_crypt_name lo,
                 i64_encrypt_key = (if show_key then take n (lo_encrypt_key lo) @ zeros (LO_KEY_SIZE - n)
                                    else zeros LO_KEY_SIZE),
                 i64_init = (0, 0)\<rparr>))))"

text \<open>The user-space side: an argument is \<open>None\<close> when \<^verbatim>\<open>copy_from_user\<close> fails; \<open>UserNull\<close> is a null pointer and
  \<open>UserBad\<close> one that \<^verbatim>\<open>copy_to_user\<close> cannot write.\<close>

datatype user_ptr = UserNull | UserBad | UserOk

definition loop_set_status_old ::
  "loop_env \<Rightarrow> ('d::len, 'l::len) loop_info option \<Rightarrow> loop_device \<Rightarrow> world \<Rightarrow> errcode \<times> loop_device \<times> world" where
  "loop_set_status_old E arg lo w =
     (case arg of None \<Rightarrow> (- EFAULT, lo, w) | Some info \<Rightarrow> loop_set_status E (loop_info64_from_old info) lo w)"

definition loop_set_status64 ::
  "loop_env \<Rightarrow> loop_info64 option \<Rightarrow> loop_device \<Rightarrow> world \<Rightarrow> errcode \<times> loop_device \<times> world" where
  "loop_set_status64 E arg lo w =
     (case arg of None \<Rightarrow> (- EFAULT, lo, w) | Some info64 \<Rightarrow> loop_set_status E info64 lo w)"

definition loop_get_status_old ::
  "loop_env \<Rightarrow> user_ptr \<Rightarrow> loop_device \<Rightarrow> errcode \<times> ('d::len, 'l::len) loop_info option" where
  "loop_get_status_old E arg lo =
     (if arg = UserNull then (- EINVAL, None)
      else (case loop_get_status E lo of
        (err, None) \<Rightarrow> (err, None)
      | (err, Some info64) \<Rightarrow>
          (case loop_info64_to_old info64 of (err, info) \<Rightarrow>
             if err \<noteq> 0 then (err, None) else if arg = UserBad then (- EFAULT, None) else (0, Some info))))"

definition loop_get_status64 :: "loop_env \<Rightarrow> user_ptr \<Rightarrow> loop_device \<Rightarrow> errcode \<times> loop_info64 option" where
  "loop_get_status64 E arg lo =
     (if arg = UserNull then (- EINVAL, None)
      else (case loop_get_status E lo of
        (err, None) \<Rightarrow> (err, None)
      | (err, Some info64) \<Rightarrow> if arg = UserBad then (- EFAULT, None) else (0, Some info64)))"

definition loop_set_capacity :: "loop_env \<Rightarrow> bdev \<Rightarrow> loop_device \<Rightarrow> world \<Rightarrow> errcode \<times> loop_device \<times> world" where
  "loop_set_capacity E bdev lo w =
     (if lo_state lo \<noteq> Lo_bound then (- ENXIO, lo, w)
      else (case figure_loop_size E w (lo_offset lo) (lo_sizelimit lo) lo of (err, lo1) \<Rightarrow>
        if err \<noteq> 0 then (err, lo1, w)
        else (0, lo1, signal (Uevent (fst bdev)) (bd_set_size bdev (loff (lo_capacity lo1 * 512)) w))))"

section \<open>The ioctl\<close>

text \<open>\<open>'o\<close> is the old status structure of the caller: the native one, or the 32-bit one.\<close>

datatype 'o ioctl_cmd =
  LOOP_SET_FD nat | LOOP_CHANGE_FD nat | LOOP_CLR_FD
| LOOP_SET_STATUS "'o option" | LOOP_GET_STATUS user_ptr
| LOOP_SET_STATUS64 "loop_info64 option" | LOOP_GET_STATUS64 user_ptr
| LOOP_SET_CAPACITY | OtherCmd nat nat

datatype 'o ioctl_out = NoOut | OutOld 'o | Out64 loop_info64

type_synonym 'o ioctl_result = "(errcode \<times> 'o ioctl_out \<times> loop_device \<times> world) option"

definition no_out :: "errcode \<times> loop_device \<times> world \<Rightarrow> 'o ioctl_result" where
  "no_out r = (case r of (err, lo, w) \<Rightarrow> Some (err, NoOut, lo, w))"

definition lock_ctl :: "loop_device \<Rightarrow> loop_device" where
  "lock_ctl lo = lo\<lparr>lo_mutex := lo_mutex lo + 1\<rparr>"

definition unlock_ctl :: "loop_device \<Rightarrow> loop_device" where
  "unlock_ctl lo = lo\<lparr>lo_mutex := lo_mutex lo - 1\<rparr>"

text \<open>The switch, under the mutex; the second result tells whether the mutex is still to be released.\<close>

fun ioctl_locked ::
  "loop_env \<Rightarrow> bool \<Rightarrow> bdev \<Rightarrow> ('d::len, 'l::len) loop_info ioctl_cmd \<Rightarrow> loop_device \<Rightarrow> world \<Rightarrow> ('d, 'l) loop_info ioctl_result" where
  "ioctl_locked E mode_write bdev (LOOP_SET_FD arg) lo w =
     (case loop_set_fd E mode_write bdev arg lo w of None \<Rightarrow> None | Some r \<Rightarrow> no_out r)"
| "ioctl_locked E mode_write bdev (LOOP_CHANGE_FD arg) lo w = no_out (loop_change_fd E bdev arg lo w)"
| "ioctl_locked E mode_write bdev LOOP_CLR_FD lo w = no_out (loop_clr_fd E lo w)"
| "ioctl_locked E mode_write bdev (LOOP_SET_STATUS arg) lo w =
     (if mode_write \<or> cap_sys_admin E then no_out (loop_set_status_old E arg lo w) else no_out (- EPERM, lo, w))"
| "ioctl_locked E mode_write bdev (LOOP_GET_STATUS arg) lo w =
     (case loop_get_status_old E arg lo of (err, info) \<Rightarrow>
        Some (err, case info of None \<Rightarrow> NoOut | Some i \<Rightarrow> OutOld i, lo, w))"
| "ioctl_locked E mode_write bdev (LOOP_SET_STATUS64 arg) lo w =
     (if mode_write \<or> cap_sys_admin E then no_out (loop_set_status64 E arg lo w) else no_out (- EPERM, lo, w))"
| "ioctl_locked E mode_write bdev (LOOP_GET_STATUS64 arg) lo w =
     (case loop_get_status64 E arg lo of (err, info) \<Rightarrow>
        Some (err, case info of None \<Rightarrow> NoOut | Some i \<Rightarrow> Out64 i, lo, w))"
| "ioctl_locked E mode_write bdev LOOP_SET_CAPACITY lo w =
     (if mode_write \<or> cap_sys_admin E then no_out (loop_set_capacity E bdev lo w) else no_out (- EPERM, lo, w))"
| "ioctl_locked E mode_write bdev (OtherCmd cmd arg) lo w =
     no_out (case lo_ioctl_fn lo of None \<Rightarrow> - EINVAL | Some f \<Rightarrow> f cmd arg, lo, w)"

fun clears_fd :: "'o ioctl_cmd \<Rightarrow> bool" where
  "clears_fd LOOP_CLR_FD = True"
| "clears_fd _ = False"

definition lo_ioctl ::
  "loop_env \<Rightarrow> bool \<Rightarrow> bdev \<Rightarrow> ('d::len, 'l::len) loop_info ioctl_cmd \<Rightarrow> loop_device \<Rightarrow> world \<Rightarrow> ('d, 'l) loop_info ioctl_result" where
  "lo_ioctl E mode_write bdev cmd lo w =
     (case ioctl_locked E mode_write bdev cmd (lock_ctl lo) w of
        None \<Rightarrow> None
      | Some (err, out, lo1, w1) \<Rightarrow>
          Some (err, out, if clears_fd cmd \<and> err = 0 then lo1 else unlock_ctl lo1, w1))"

text \<open>The 32-bit entry: the two old status commands take the compatibility structure, unknown commands are refused,
  the others go to \<^verbatim>\<open>lo_ioctl\<close>.\<close>

fun native_cmd :: "'c ioctl_cmd \<Rightarrow> 'o ioctl_cmd option" where
  "native_cmd LOOP_SET_CAPACITY = Some LOOP_SET_CAPACITY"
| "native_cmd LOOP_CLR_FD = Some LOOP_CLR_FD"
| "native_cmd (LOOP_GET_STATUS64 arg) = Some (LOOP_GET_STATUS64 arg)"
| "native_cmd (LOOP_SET_STATUS64 arg) = Some (LOOP_SET_STATUS64 arg)"
| "native_cmd (LOOP_SET_FD arg) = Some (LOOP_SET_FD arg)"
| "native_cmd (LOOP_CHANGE_FD arg) = Some (LOOP_CHANGE_FD arg)"
| "native_cmd _ = None"

fun native_out :: "'o ioctl_out \<Rightarrow> 'c ioctl_out" where
  "native_out (Out64 i) = Out64 i"
| "native_out _ = NoOut"

definition loop_set_status_compat ::
  "loop_env \<Rightarrow> 'd::len compat_loop_info option \<Rightarrow> loop_device \<Rightarrow> world \<Rightarrow> errcode \<times> loop_device \<times> world" where
  "loop_set_status_compat E arg lo w =
     (case arg of
        None \<Rightarrow> (- EFAULT, lo, w)
      | Some info \<Rightarrow>
          (case loop_info64_from_compat True info of
             (ret, Some info64) \<Rightarrow> loop_set_status E info64 lo w
           | (ret, None) \<Rightarrow> (ret, lo, w)))"

definition loop_get_status_compat ::
  "loop_env \<Rightarrow> user_ptr \<Rightarrow> loop_device \<Rightarrow> errcode \<times> 'd::len compat_loop_info option" where
  "loop_get_status_compat E arg lo =
     (if arg = UserNull then (- EINVAL, None)
      else (case loop_get_status E lo of
        (err, None) \<Rightarrow> (err, None)
      | (err, Some info64) \<Rightarrow> loop_info64_to_compat (arg = UserOk) info64))"

definition lo_compat_ioctl ::
  "loop_env \<Rightarrow> bool \<Rightarrow> bdev \<Rightarrow> 'd::len compat_loop_info ioctl_cmd \<Rightarrow> loop_device \<Rightarrow> world \<Rightarrow>
   'd compat_loop_info ioctl_result" where
  "lo_compat_ioctl E mode_write bdev cmd lo w =
     (case cmd of
        LOOP_SET_STATUS arg \<Rightarrow>
          (case loop_set_status_compat E arg (lock_ctl lo) w of (err, lo1, w1) \<Rightarrow> no_out (err, unlock_ctl lo1, w1))
      | LOOP_GET_STATUS arg \<Rightarrow>
          (case loop_get_status_compat E arg (lock_ctl lo) of (err, info) \<Rightarrow>
             Some (err, case info of None \<Rightarrow> NoOut | Some i \<Rightarrow> OutOld i, unlock_ctl (lock_ctl lo), w))
      | _ \<Rightarrow>
          (case native_cmd cmd :: ('d, 64) loop_info ioctl_cmd option of
             None \<Rightarrow> no_out (- ENOIOCTLCMD, lo, w)
           | Some c \<Rightarrow>
               (case lo_ioctl E mode_write bdev c lo w of
                  None \<Rightarrow> None
                | Some (err, out, lo1, w1) \<Rightarrow> Some (err, native_out out, lo1, w1))))"

section \<open>Open and release\<close>

definition lo_open :: "loop_device option \<Rightarrow> errcode \<times> loop_device option" where
  "lo_open private_data =
     (case private_data of
        None \<Rightarrow> (- ENXIO, None)
      | Some lo \<Rightarrow> (0, Some (unlock_ctl ((lock_ctl lo)\<lparr>lo_refcnt := lo_refcnt lo + 1\<rparr>))))"

definition lo_release :: "loop_env \<Rightarrow> loop_device \<Rightarrow> world \<Rightarrow> errcode \<times> loop_device \<times> world" where
  "lo_release E lo w =
     (let lo1 = (lock_ctl lo)\<lparr>lo_refcnt := lo_refcnt lo - 1\<rparr> in
      if lo_refcnt lo1 \<noteq> 0 then (0, unlock_ctl lo1, w)
      else if lo_flags lo1 AND LO_FLAGS_AUTOCLEAR \<noteq> 0 then
        (case loop_clr_fd E lo1 w of (err, lo2, w2) \<Rightarrow> (0, if err = 0 then lo2 else unlock_ctl lo2, w2))
      else (case loop_flush E lo1 w of (err, lo2, w2) \<Rightarrow> (0, unlock_ctl lo2, w2)))"

end
