(* ===== verification/Loop_Config.thy ===== *)
theory Loop_Config
  imports Loop_Device
begin

text \<open>
  What holds of the configuration of a device across its operations: the invariant of a device, and the balance of the
  references to files and modules that a device holds.
\<close>

section \<open>Invariant and balance of references\<close>

text \<open>What holds of a device between two operations.  The last line is what keeps \<^verbatim>\<open>transfer_xor\<close> inside the
  key.\<close>

definition dev_ok :: "loop_device \<Rightarrow> bool" where
  "dev_ok lo \<longleftrightarrow>
     lo_state lo \<noteq> Lo_rundown \<and> (lo_state lo = Lo_bound \<longleftrightarrow> lo_backing_file lo \<noteq> None) \<and>
     (lo_state lo = Lo_bound \<longleftrightarrow> lo_thread lo) \<and> (lo_state lo = Lo_bound \<longleftrightarrow> lo_device lo \<noteq> None) \<and>
     (lo_state lo = Lo_unbound \<longrightarrow> lo_encryption lo = None \<and> lo_capacity lo = 0 \<and> lo_flags lo = 0 \<and> \<not> lo_sysfs lo \<and>
        lo_offset lo = 0) \<and>
     length (lo_encrypt_key lo) = LO_KEY_SIZE \<and> 0 \<le> lo_encrypt_key_size lo \<and> lo_encrypt_key_size lo \<le> int LO_KEY_SIZE \<and>
     (transfer lo = Some TransferXor \<longrightarrow> lo_encryption lo \<noteq> None \<and> 0 < lo_encrypt_key_size lo)"

text \<open>An operation on one device changes each shared reference count by what the device holds more or less.\<close>

definition held :: "'a option \<Rightarrow> 'a \<Rightarrow> int" where
  "held p x = (if p = Some x then 1 else 0)"

definition bound_count :: "loop_device \<Rightarrow> int" where
  "bound_count lo = (if lo_state lo = Lo_unbound then 0 else 1)"

definition balanced :: "loop_device \<Rightarrow> world \<Rightarrow> loop_device \<Rightarrow> world \<Rightarrow> bool" where
  "balanced lo w lo' w' \<longleftrightarrow>
     (\<forall>f. w_fref w' f - held (lo_backing_file lo') f = w_fref w f - held (lo_backing_file lo) f) \<and>
     w_modref w' - bound_count lo' = w_modref w - bound_count lo \<and>
     (\<forall>x. w_xref w' x - held (lo_encryption lo') x = w_xref w x - held (lo_encryption lo) x) \<and>
     w_devs w' = w_devs w \<and> w_xfer w' = w_xfer w \<and> lo_number lo' = lo_number lo"

lemma balanced_refl [simp, intro]: "balanced lo w lo w"
  by (simp add: balanced_def)

lemma balanced_trans: "balanced lo w lo1 w1 \<Longrightarrow> balanced lo1 w1 lo2 w2 \<Longrightarrow> balanced lo w lo2 w2"
  by (simp add: balanced_def)

text \<open>The tables of the transfer modules: only the driver's own one uses its xor transfer.\<close>

definition tables_ok :: "loop_env \<Rightarrow> bool" where
  "tables_ok E \<longleftrightarrow> tables E 1 = xor_funcs \<and> (\<forall>x. xt_transfer (tables E x) = TransferXor \<longrightarrow> x = 1)"

text \<open>The arrays of a status structure have their declared sizes.\<close>

definition info_ok :: "loop_info64 \<Rightarrow> bool" where
  "info_ok i \<longleftrightarrow> length (i64_file_name i) = LO_NAME_SIZE \<and> length (i64_crypt_name i) = LO_NAME_SIZE \<and>
     length (i64_encrypt_key i) = LO_KEY_SIZE"

named_theorems shared_simps \<open>the shared state after one elementary change\<close>

lemmas [shared_simps] = fput_def take_file_def module_put_def module_get_def mapping_set_gfp_mask_def bd_set_size_def
  signal_def

lemma dev_ok_xfer:
  assumes "dev_ok lo" and "lo_state lo \<noteq> Lo_unbound" and "t \<noteq> Some TransferXor"
  shows "dev_ok (lo\<lparr>transfer := t, lo_encryption := x\<rparr>)"
  using assms by (cases "lo_state lo") (simp_all add: dev_ok_def)

lemma loop_release_xfer_ok:
  assumes "loop_release_xfer E lo w = (err, lo1, w1)"
  shows "balanced lo w lo1 w1" "lo_encryption lo1 = None" "lo_mutex lo1 = lo_mutex lo" "lo_state lo1 = lo_state lo"
    "lo_backing_file lo1 = lo_backing_file lo" "lo_number lo1 = lo_number lo" "lo_offset lo1 = lo_offset lo"
    "lo_sizelimit lo1 = lo_sizelimit lo" "lo_flags lo1 = lo_flags lo" "lo_device lo1 = lo_device lo"
    "(transfer lo = Some TransferXor \<Longrightarrow> lo_encryption lo \<noteq> None) \<Longrightarrow> transfer lo1 \<noteq> Some TransferXor"
    "dev_ok lo \<Longrightarrow> lo_state lo \<noteq> Lo_unbound \<Longrightarrow> dev_ok lo1"
  using assms dev_ok_xfer [of lo None None]
  by (auto simp: loop_release_xfer_def balanced_def held_def bound_count_def split: option.splits)

lemma loop_init_xfer_ok:
  assumes "loop_init_xfer E xfer info lo w = (err, lo1, w1)" and "lo_encryption lo = None"
  shows "balanced lo w lo1 w1" "lo_encryption lo1 = (if err = 0 then xfer else None)"
    "lo1 = lo\<lparr>lo_encryption := if err = 0 then xfer else None\<rparr>"
    "err = 0 \<Longrightarrow> xfer = Some x \<Longrightarrow> xt_init (tables E x) = Some init \<Longrightarrow> init info = 0"
  using assms by (auto simp: loop_init_xfer_def balanced_def held_def bound_count_def Let_def
      split: option.splits if_splits)

lemma dev_ok_backing: "dev_ok lo \<Longrightarrow> lo_state lo = Lo_bound \<Longrightarrow> \<exists>f. lo_backing_file lo = Some f"
  by (auto simp: dev_ok_def)

lemma dev_ok_switch:
  "dev_ok lo \<Longrightarrow> lo_state lo = Lo_bound \<Longrightarrow>
   dev_ok (lo\<lparr>lo_backing_file := Some f, lo_blocksize := b, old_gfp_mask := m\<rparr>)"
  by (simp add: dev_ok_def)

lemma balanced_switch:
  assumes "lo_backing_file lo = Some g" and "w_devs w1 = w_devs w" and "w_xfer w1 = w_xfer w" and "w_xref w1 = w_xref w"
    and "w_modref w1 = w_modref w" and "\<And>x. w_fref w1 x = w_fref w x + held (Some f) x - held (Some g) x"
  shows "balanced lo w (lo\<lparr>lo_backing_file := Some f, lo_blocksize := b, old_gfp_mask := m\<rparr>) w1"
  using assms by (simp add: balanced_def bound_count_def)


text \<open>What an operation keeps; \<open>r\<close> is how often it released the mutex of the device.\<close>

definition keeps :: "int \<Rightarrow> loop_device \<Rightarrow> world \<Rightarrow> loop_device \<Rightarrow> world \<Rightarrow> bool" where
  "keeps r lo w lo' w' \<longleftrightarrow> dev_ok lo' \<and> balanced lo w lo' w' \<and> lo_mutex lo' = lo_mutex lo - r"

lemma keeps_same:
  assumes "dev_ok lo" and "w_fref w1 = w_fref w" and "w_modref w1 = w_modref w" and "w_xref w1 = w_xref w"
    and "w_devs w1 = w_devs w" and "w_xfer w1 = w_xfer w"
  shows "keeps 0 lo w lo w1"
  using assms by (simp add: keeps_def balanced_def)

lemma change_backing_keeps:
  assumes ok: "dev_ok lo" and b: "lo_state lo = Lo_bound"
    and c: "change_backing E bdev f lo (take_file f w) = (err, lo1, w1)"
  shows "keeps 0 lo w lo1 w1"
proof -
  obtain g where g: "lo_backing_file lo = Some g" using dev_ok_backing [OF ok b] by auto
  let ?w1 = "mapping_set_gfp_mask E g (old_gfp_mask lo) (take_file f w)"
  let ?m = "mapping_gfp_mask E f ?w1"
  let ?lo = "lo\<lparr>lo_backing_file := Some f, lo_blocksize := backing_block_size E (take_file f w) f, old_gfp_mask := ?m\<rparr>"
  let ?w2 = "fput g (mapping_set_gfp_mask E f (?m AND NOT GFP_IO_FS) ?w1)"
  have same: "keeps 0 lo w lo (fput f (take_file f w))"
    by (rule keeps_same [OF ok]) (simp_all add: shared_simps)
  have bal: "balanced lo w ?lo ?w2" "balanced lo w ?lo (signal s ?w2)" for s
    by (rule balanced_switch [OF g]; simp add: shared_simps held_def)+
  have "dev_ok ?lo" by (rule dev_ok_switch [OF ok b])
  then have sw: "keeps 0 lo w ?lo ?w2" "keeps 0 lo w ?lo (signal s ?w2)" for s
    using bal by (simp_all add: keeps_def)
  show ?thesis
    using c g same sw
    by (simp add: change_backing_def loop_switch_def do_loop_switch_def Let_def split: if_splits) (fastforce)+
qed

lemma loop_change_fd_keeps:
  assumes "dev_ok lo" and "loop_change_fd E bdev arg lo w = (err, lo1, w1)"
  shows "keeps 0 lo w lo1 w1"
  using assms change_backing_keeps [OF assms(1)] keeps_same [OF assms(1)]
  by (simp add: loop_change_fd_def split: if_splits option.splits)

subsection \<open>Binding\<close>

lemma dev_ok_unbound:
  "dev_ok lo \<Longrightarrow> lo_state lo = Lo_unbound \<Longrightarrow> lo_backing_file lo = None \<and> lo_encryption lo = None \<and> lo_device lo = None \<and> lo_offset lo = 0"
  unfolding dev_ok_def by (cases "lo_device lo") auto

lemma dev_ok_key:
  "dev_ok lo \<Longrightarrow> length (lo_encrypt_key lo) = LO_KEY_SIZE \<and> 0 \<le> lo_encrypt_key_size lo \<and> lo_encrypt_key_size lo \<le> int LO_KEY_SIZE"
  by (simp add: dev_ok_def)

lemma set_fd_keeps:
  assumes ok: "dev_ok lo" and u: "lo_state lo = Lo_unbound"
    and c: "set_fd_thread E bdev f (fst r) (snd r) = (err, lo1, w1)"
    and r: "r = set_fd_fields E mw bdev f lo (take_file f (module_get w))"
  shows "keeps 0 lo w lo1 w1"
proof -
  note un = dev_ok_unbound [OF ok u]
  define x where "x = set_fd_thread E bdev f (fst r) (snd r)"
  have "dev_ok (fst (snd x))"
    using un u dev_ok_key [OF ok] unfolding x_def r set_fd_thread_def set_fd_fields_def Let_def
    by (simp add: dev_ok_def)
  moreover have "balanced lo w (fst (snd x)) (snd (snd x))"
    using un u unfolding x_def r set_fd_thread_def set_fd_fields_def Let_def
    by (simp add: balanced_def held_def bound_count_def shared_simps)
  moreover have "lo_mutex (fst (snd x)) = lo_mutex lo"
    unfolding x_def r set_fd_thread_def set_fd_fields_def Let_def by simp
  ultimately show ?thesis using c by (simp add: keeps_def x_def)
qed

lemma loop_set_fd_keeps:
  assumes ok: "dev_ok lo" and c: "loop_set_fd E mw bdev arg lo w = Some (err, lo1, w1)"
  shows "keeps 0 lo w lo1 w1"
proof (cases "fget E arg")
  case None
  then show ?thesis using c keeps_same [OF ok, of "module_put (module_get w)" w]
    by (simp add: loop_set_fd_def shared_simps)
next
  case (Some f)
  have fail: "keeps 0 lo w lo (module_put (fput f (take_file f (module_get w))))"
    by (rule keeps_same [OF ok]) (simp_all add: shared_simps)
  show ?thesis
  proof (cases "lo1 = lo \<and> w1 = module_put (fput f (take_file f (module_get w)))")
    case True
    then show ?thesis using fail by simp
  next
    case False
    define r where "r = set_fd_fields E mw bdev f lo (take_file f (module_get w))"
    with Some c False have "lo_state lo = Lo_unbound \<and> set_fd_thread E bdev f (fst r) (snd r) = (err, lo1, w1)"
      by (cases r) (auto simp: loop_set_fd_def Let_def case_prod_beta split: if_splits option.splits)
    then show ?thesis using set_fd_keeps [OF ok _ _ r_def] by blast
  qed
qed

subsection \<open>Clearing\<close>

lemma loop_clr_fd_keeps:
  assumes ok: "dev_ok lo" and c: "loop_clr_fd E lo w = (err, lo1, w1)"
  shows "keeps (if err = 0 then 1 else 0) lo w lo1 w1"
proof (cases "lo_state lo = Lo_bound \<and> \<not> 1 < lo_refcnt lo")
  case False
  moreover have "keeps 1 lo w (lo\<lparr>lo_flags := m, lo_mutex := lo_mutex lo - 1\<rparr>) w" if "lo_state lo = Lo_bound" for m
    using ok that by (simp add: keeps_def balanced_def bound_count_def dev_ok_def)
  ultimately show ?thesis using c keeps_same [OF ok, of w w] by (auto simp: loop_clr_fd_def split: if_splits)
next
  case True
  then obtain f b where f: "lo_backing_file lo = Some f" and b: "lo_device lo = Some b"
    using ok by (auto simp: dev_ok_def)
  define lo' where "lo' = lo\<lparr>lo_state := Lo_rundown, lo_thread := False, lo_backing_file := None\<rparr>"
  obtain e lo2 w2 where r: "loop_release_xfer E lo' w = (e, lo2, w2)" by (cases "loop_release_xfer E lo' w") auto
  note r' = loop_release_xfer_ok [OF r]
  have c1: "err = 0" "lo1 = clear_fields E lo2" and w1: "w_fref w1 = (w_fref w2)(f := w_fref w2 f - 1)"
      "w_modref w1 = w_modref w2 - 1" "w_xref w1 = w_xref w2" "w_devs w1 = w_devs w2" "w_xfer w1 = w_xfer w2"
    using c True f b r by (auto simp: loop_clr_fd_def lo'_def [symmetric] Let_def shared_simps)
  have "dev_ok lo1" by (simp add: c1 clear_fields_def dev_ok_def zeros_def LO_KEY_SIZE_def)
  moreover have "balanced lo w lo1 w1"
  proof -
    have b: "lo_backing_file lo2 = None" "lo_state lo2 = Lo_rundown" "lo_number lo2 = lo_number lo"
      by (simp_all add: r' lo'_def)
    have "w_fref w2 x = w_fref w x" "w_xref w2 x = w_xref w x - held (lo_encryption lo) x"
      "w_modref w2 = w_modref w" "w_devs w2 = w_devs w" "w_xfer w2 = w_xfer w" for x
      using r'(1,2) b by (simp_all add: balanced_def lo'_def held_def bound_count_def)
    then show ?thesis using True f b w1 by (simp add: balanced_def c1 clear_fields_def held_def bound_count_def)
  qed
  moreover have "lo_mutex lo1 = lo_mutex lo - 1"
    by (simp add: c1 clear_fields_def r' lo'_def)
  ultimately show ?thesis by (simp add: keeps_def c1)
qed

subsection \<open>Status\<close>

lemma balanced_fields:
  assumes "lo_backing_file lo1 = lo_backing_file lo" and "lo_encryption lo1 = lo_encryption lo" and "lo_state lo1 = lo_state lo"
    and "lo_number lo1 = lo_number lo" and "w_fref w1 = w_fref w" and "w_modref w1 = w_modref w" and "w_xref w1 = w_xref w"
    and "w_devs w1 = w_devs w" and "w_xfer w1 = w_xfer w"
  shows "balanced lo w lo1 w1"
  using assms by (simp add: balanced_def bound_count_def)

lemma figure_loop_size_fields:
  assumes "figure_loop_size E w off lim lo = (err, lo1)"
  shows "lo1 = lo\<lparr>lo_offset := lo_offset lo1, lo_sizelimit := lo_sizelimit lo1, lo_capacity := lo_capacity lo1\<rparr>"
  using assms by (auto simp: figure_loop_size_def Let_def split: if_splits)

lemma dev_ok_resize:
  "dev_ok lo \<Longrightarrow> lo_state lo = Lo_bound \<Longrightarrow> dev_ok (lo\<lparr>lo_offset := a, lo_sizelimit := b, lo_capacity := c\<rparr>)"
  by (simp add: dev_ok_def)

lemma dev_ok_status:
  assumes "dev_ok lo" and "lo_state lo = Lo_bound" and "length k = LO_KEY_SIZE" and "0 \<le> ks" and "ks \<le> int LO_KEY_SIZE"
    and "t = Some TransferXor \<Longrightarrow> lo_encryption lo \<noteq> None \<and> 0 < ks"
  shows "dev_ok (lo\<lparr>lo_file_name := fn, lo_crypt_name := cn, transfer := t, lo_ioctl_fn := io, lo_flags := fl,
    lo_disk_flags := df, lo_encrypt_key_size := ks, lo_init := i, lo_encrypt_key := k, lo_key_owner := u\<rparr>)"
  using assms by (simp add: dev_ok_def)

text \<open>The device after the last assignments of \<^verbatim>\<open>loop_set_status\<close>.\<close>

lemma status_fields_keeps:
  assumes lo: "lo_state lo = Lo_bound" "dev_ok lo" and enc: "lo_encryption lo = xfer" and t: "tables_ok E" and i: "info_ok info"
    and n: "unat (i64_encrypt_key_size info) \<le> LO_KEY_SIZE"
    and pos: "xfer = Some 1 \<Longrightarrow> xor_init (int (unat (i64_encrypt_key_size info))) = 0"
    and c: "status_fields E xfer info lo w = (lo1, w1)"
  shows "keeps 0 lo w lo1 w1"
proof -
  let ?n = "i64_encrypt_key_size info" and ?t = "case xfer of None \<Rightarrow> none_funcs | Some x \<Rightarrow> tables E x"
  have xor: "lo_encryption lo \<noteq> None \<and> (0 :: int) < int (unat ?n)" if "Some (xt_transfer ?t) = Some TransferXor"
  proof -
    from that t have x: "xfer = Some 1" by (auto simp: tables_ok_def none_funcs_def split: option.splits)
    with pos [OF x] have "?n \<noteq> 0" by (auto simp: xor_init_def split: if_splits)
    then have "0 < int (unat ?n)" by (metis unat_gt_0 of_nat_0_less_iff)
    moreover have "lo_encryption lo \<noteq> None" using x enc by simp
    ultimately show ?thesis by blast
  qed
  have "dev_ok (fst (status_fields E xfer info lo w))"
    unfolding status_fields_def Let_def fst_conv
    by (rule dev_ok_status [OF lo(2,1)]) (use of_nat_mono [OF n, where 'a = int] n i dev_ok_key [OF lo(2)] xor in \<open>auto simp: info_ok_def\<close>)
  moreover have "balanced lo w (fst (status_fields E xfer info lo w)) (snd (status_fields E xfer info lo w))"
    unfolding status_fields_def Let_def by (rule balanced_fields) (auto simp: shared_simps split: option.splits)
  moreover have "lo_mutex (fst (status_fields E xfer info lo w)) = lo_mutex lo"
    unfolding status_fields_def Let_def by simp
  ultimately show ?thesis using c by (simp add: keeps_def)
qed

lemma dev_ok_discard: "dev_ok (lo\<lparr>lo_discard := d\<rparr>) = dev_ok lo"
  by (simp add: dev_ok_def)

lemma config_discard_keeps:
  assumes "dev_ok lo"
  shows "keeps 0 lo w (loop_config_discard E lo) w"
proof -
  have "keeps 0 lo w (lo\<lparr>lo_discard := d\<rparr>) w" for d
    using assms by (simp add: keeps_def balanced_def bound_count_def dev_ok_discard)
  then show ?thesis by (simp add: loop_config_discard_def Let_def)
qed

lemma keeps_trans: "keeps 0 lo w lo1 w1 \<Longrightarrow> keeps r lo1 w1 lo2 w2 \<Longrightarrow> keeps r lo w lo2 w2"
  by (auto simp: keeps_def intro: balanced_trans)

lemma figure_keeps:
  assumes "figure_loop_size E w off lim lo = (err, lo1)" and "dev_ok lo" and "lo_state lo = Lo_bound"
  shows "keeps 0 lo w lo1 w" "lo_encryption lo1 = lo_encryption lo" "lo_state lo1 = Lo_bound"
  using assms dev_ok_resize [OF assms(2,3)]
  by (auto simp: figure_loop_size_def Let_def keeps_def balanced_def bound_count_def split: if_splits)

lemma status_apply_keeps:
  assumes lo: "dev_ok lo" "lo_state lo = Lo_bound" and enc: "lo_encryption lo = xfer" and t: "tables_ok E" and i: "info_ok info"
    and n: "unat (i64_encrypt_key_size info) \<le> LO_KEY_SIZE"
    and pos: "xfer = Some 1 \<Longrightarrow> xor_init (int (unat (i64_encrypt_key_size info))) = 0"
    and c: "status_apply E xfer info lo w = (err, lo4, w4)"
  shows "keeps 0 lo w lo4 w4"
proof -
  define r where "r = (if word_of_int (lo_offset lo) \<noteq> i64_offset info \<or> word_of_int (lo_sizelimit lo) \<noteq> i64_sizelimit info
    then figure_loop_size E w (sint (i64_offset info)) (sint (i64_sizelimit info)) lo else (0, lo))"
  obtain e lo1 where r': "r = (e, lo1)" by (cases r) auto
  have k1: "keeps 0 lo w lo1 w" "lo_encryption lo1 = xfer" "lo_state lo1 = Lo_bound"
    using r' figure_keeps [OF _ lo, of E w _ _ e lo1] keeps_same [OF lo(1)] lo enc unfolding r_def
    by (auto split: if_splits)
  let ?lo2 = "loop_config_discard E lo1"
  have k2: "keeps 0 lo1 w ?lo2 w" using k1 by (intro config_discard_keeps) (simp add: keeps_def)
  have f2: "lo_state ?lo2 = Lo_bound" "lo_encryption ?lo2 = xfer"
    using k1 by (simp_all add: loop_config_discard_def Let_def)
  show ?thesis
  proof (cases "e = 0")
    case False
    then show ?thesis using c k1 unfolding status_apply_def r_def [symmetric] by (simp add: r')
  next
    case True
    then have s: "status_fields E xfer info ?lo2 w = (lo4, w4)"
      using c unfolding status_apply_def r_def [symmetric] by (simp add: r')
    have "keeps 0 ?lo2 w lo4 w4"
      by (rule status_fields_keeps [OF f2(1) _ f2(2) t i n pos s]) (use k2 in \<open>simp_all add: keeps_def\<close>)
    then show ?thesis using k1(1) k2 by (blast intro: keeps_trans)
  qed
qed

lemma status_xfer_keeps:
  assumes lo: "dev_ok lo" "lo_state lo = Lo_bound" and enc: "lo_encryption lo = None" and x: "transfer lo \<noteq> Some TransferXor"
    and t: "tables_ok E" and i: "info_ok info" and n: "unat (i64_encrypt_key_size info) \<le> LO_KEY_SIZE"
    and c: "status_xfer E info lo w = (err, lo4, w4)"
  shows "keeps 0 lo w lo4 w4"
proof (cases "find_xfer w (i64_encrypt_type info)")
  case (Inl e)
  then show ?thesis using c keeps_same [OF lo(1)] by (simp add: status_xfer_def)
next
  case (Inr xfer)
  obtain e lo1 w1 where r: "loop_init_xfer E xfer info lo w = (e, lo1, w1)"
    by (cases "loop_init_xfer E xfer info lo w") auto
  note r' = loop_init_xfer_ok [OF r enc]
  have "dev_ok (lo\<lparr>transfer := transfer lo, lo_encryption := z\<rparr>)" for z
    by (rule dev_ok_xfer) (use lo x in simp_all)
  then have k1: "keeps 0 lo w lo1 w1" "lo_state lo1 = Lo_bound"
    using r'(1,3) lo by (simp_all add: keeps_def)
  show ?thesis
  proof (cases "e = 0")
    case False
    then show ?thesis using c k1 r Inr by (simp add: status_xfer_def)
  next
    case True
    have "keeps 0 lo1 w1 lo4 w4"
    proof (rule status_apply_keeps [OF _ k1(2) _ t i n])
      show "dev_ok lo1" using k1 by (simp add: keeps_def)
      show "lo_encryption lo1 = xfer" using r'(2) True by simp
      show "status_apply E xfer info lo1 w1 = (err, lo4, w4)" using c r Inr True by (simp add: status_xfer_def)
      show "xor_init (int (unat (i64_encrypt_key_size info))) = 0" if "xfer = Some 1"
        using r'(4) [OF True that] t by (simp add: tables_ok_def xor_funcs_def)
    qed
    then show ?thesis using k1(1) by (blast intro: keeps_trans)
  qed
qed

lemma loop_set_status_keeps:
  assumes ok: "dev_ok lo" and t: "tables_ok E" and i: "info_ok info" and c: "loop_set_status E info lo w = (err, lo4, w4)"
  shows "keeps 0 lo w lo4 w4"
proof (cases "lo4 = lo \<and> w4 = w")
  case True
  then show ?thesis using keeps_same [OF ok] by simp
next
  case False
  with c have b: "lo_state lo = Lo_bound" and n: "unat (i64_encrypt_key_size info) \<le> LO_KEY_SIZE"
    by (auto simp: loop_set_status_def split: if_splits)
  obtain e1 lo1 w1 where r: "loop_release_xfer E lo w = (e1, lo1, w1)" by (cases "loop_release_xfer E lo w") auto
  note r' = loop_release_xfer_ok [OF r]
  have k1: "keeps 0 lo w lo1 w1" using r'(1,3) r'(12) [OF ok] b by (simp add: keeps_def)
  show ?thesis
  proof (cases "e1 = 0")
    case True
    have "keeps 0 lo1 w1 lo4 w4"
    proof (rule status_xfer_keeps [OF _ _ r'(2) r'(11) t i n])
      show "status_xfer E info lo1 w1 = (err, lo4, w4)"
        using c r True False by (simp add: loop_set_status_def split: if_splits)
      show "lo_encryption lo \<noteq> None" if "transfer lo = Some TransferXor" using ok that by (simp add: dev_ok_def)
    qed (use k1 b in \<open>simp_all add: keeps_def r'\<close>)
    then show ?thesis using k1 by (blast intro: keeps_trans)
  next
    case e: False
    then show ?thesis using c r k1 False by (simp add: loop_set_status_def split: if_splits)
  qed
qed

subsection \<open>The entry points\<close>

text \<open>A command whose status arrays have their declared sizes.\<close>

fun cmd_ok :: "('d::len, 'l::len) loop_info ioctl_cmd \<Rightarrow> bool" where
  "cmd_ok (LOOP_SET_STATUS (Some i)) = info_ok (loop_info64_from_old i)"
| "cmd_ok (LOOP_SET_STATUS64 (Some i)) = info_ok i"
| "cmd_ok _ = True"

lemma set_status_calls_keep:
  assumes "dev_ok lo" and "tables_ok E"
  shows "(\<And>i. arg = Some i \<Longrightarrow> info_ok (loop_info64_from_old i)) \<Longrightarrow>
      loop_set_status_old E arg lo w = (err, lo1, w1) \<Longrightarrow> keeps 0 lo w lo1 w1"
    and "(\<And>i. arg64 = Some i \<Longrightarrow> info_ok i) \<Longrightarrow> loop_set_status64 E arg64 lo w = (err, lo1, w1) \<Longrightarrow> keeps 0 lo w lo1 w1"
  using assms keeps_same [OF assms(1)] loop_set_status_keeps [OF assms]
  by (auto simp: loop_set_status_old_def loop_set_status64_def split: option.splits)

lemma set_capacity_keeps:
  assumes "dev_ok lo" and "loop_set_capacity E bdev lo w = (err, lo1, w1)"
  shows "keeps 0 lo w lo1 w1"
proof (cases "lo_state lo = Lo_bound")
  case False
  then show ?thesis using assms keeps_same [OF assms(1)] by (simp add: loop_set_capacity_def)
next
  case True
  obtain e lo2 where r: "figure_loop_size E w (lo_offset lo) (lo_sizelimit lo) lo = (e, lo2)" by fastforce
  have k: "keeps 0 lo w lo2 w" by (rule figure_keeps [OF r assms(1) True])
  then have "keeps 0 lo2 w lo2 (signal s (bd_set_size bdev n w))" for s n
    by (intro keeps_same) (simp_all add: keeps_def shared_simps)
  then show ?thesis using assms(2) True r k by (auto simp: loop_set_capacity_def split: if_splits intro: keeps_trans)
qed

lemma ioctl_locked_keeps:
  assumes ok: "dev_ok lo" and t: "tables_ok E" and i: "cmd_ok cmd"
    and c: "ioctl_locked E mw bdev cmd lo w = Some (err, out, lo1, w1)"
  shows "keeps (if clears_fd cmd \<and> err = 0 then 1 else 0) lo w lo1 w1"
proof -
  have same: "keeps 0 lo w lo w" by (rule keeps_same [OF ok]) simp_all
  show ?thesis
  proof (cases cmd)
    case (LOOP_SET_FD a)
    then show ?thesis using c loop_set_fd_keeps [OF ok] by (auto simp: no_out_def split: option.splits prod.splits)
  next
    case (LOOP_CHANGE_FD a)
    then show ?thesis using c loop_change_fd_keeps [OF ok] by (auto simp: no_out_def split: prod.splits)
  next
    case LOOP_CLR_FD
    then show ?thesis using c loop_clr_fd_keeps [OF ok, of E w err lo1 w1] by (auto simp: no_out_def split: prod.splits)
  next
    case (LOOP_SET_STATUS a)
    then show ?thesis using c i same set_status_calls_keep(1) [OF ok t, of a w err lo1 w1]
      by (cases a) (auto simp: no_out_def split: prod.splits if_splits)
  next
    case (LOOP_SET_STATUS64 a)
    then show ?thesis using c i same set_status_calls_keep(2) [OF ok t, of a w err lo1 w1]
      by (cases a) (auto simp: no_out_def split: prod.splits if_splits)
  next
    case LOOP_SET_CAPACITY
    then show ?thesis using c same set_capacity_keeps [OF ok] by (auto simp: no_out_def split: prod.splits if_splits)
  qed (use c same in \<open>auto simp: no_out_def split: prod.splits\<close>)
qed

lemma keeps_lock:
  "dev_ok (lock_ctl lo) = dev_ok lo" "dev_ok (unlock_ctl lo) = dev_ok lo"
  "balanced (lock_ctl lo) w lo1 w1 = balanced lo w lo1 w1" "balanced lo w (unlock_ctl lo1) w1 = balanced lo w lo1 w1"
  "lo_mutex (lock_ctl lo) = lo_mutex lo + 1" "lo_mutex (unlock_ctl lo) = lo_mutex lo - 1"
  by (simp_all add: lock_ctl_def unlock_ctl_def dev_ok_def balanced_def bound_count_def)

lemma keeps_locked:
  "keeps 0 (lock_ctl lo) w lo1 w1 \<Longrightarrow> keeps 0 lo w (unlock_ctl lo1) w1"
  "keeps 1 (lock_ctl lo) w lo1 w1 \<Longrightarrow> keeps 0 lo w lo1 w1"
  by (simp_all add: keeps_def keeps_lock)

lemma lo_ioctl_keeps:
  assumes "dev_ok lo" and "tables_ok E" and "cmd_ok cmd" and "lo_ioctl E mw bdev cmd lo w = Some (err, out, lo1, w1)"
  shows "keeps 0 lo w lo1 w1"
proof -
  from assms(4) obtain lo2 where c: "ioctl_locked E mw bdev cmd (lock_ctl lo) w = Some (err, out, lo2, w1)"
    and lo1: "lo1 = (if clears_fd cmd \<and> err = 0 then lo2 else unlock_ctl lo2)"
    by (auto simp: lo_ioctl_def split: option.splits)
  have "keeps (if clears_fd cmd \<and> err = 0 then 1 else 0) (lock_ctl lo) w lo2 w1"
    by (rule ioctl_locked_keeps [OF _ assms(2,3) c]) (simp add: keeps_lock assms(1))
  then show ?thesis using keeps_locked by (auto simp: lo1 split: if_splits)
qed

fun compat_ok :: "'d::len compat_loop_info ioctl_cmd \<Rightarrow> bool" where
  "compat_ok (LOOP_SET_STATUS (Some i)) = (\<forall>i64. snd (loop_info64_from_compat True i) = Some i64 \<longrightarrow> info_ok i64)"
| "compat_ok (LOOP_SET_STATUS64 (Some i)) = info_ok i"
| "compat_ok _ = True"

lemma native_cmd_ok: "compat_ok cmd \<Longrightarrow> native_cmd cmd = Some c \<Longrightarrow> cmd_ok c"
  by (cases cmd rule: compat_ok.cases) auto

lemma set_status_compat_keeps:
  assumes "dev_ok lo" and "tables_ok E" and "compat_ok (LOOP_SET_STATUS arg)"
    and "loop_set_status_compat E arg lo w = (err, lo1, w1)"
  shows "keeps 0 lo w lo1 w1"
  using assms keeps_same [OF assms(1)] loop_set_status_keeps [OF assms(1,2)]
  by (cases arg) (auto simp: loop_set_status_compat_def split: prod.splits option.splits)

lemma lo_compat_ioctl_keeps:
  assumes ok: "dev_ok lo" and t: "tables_ok E" and i: "compat_ok cmd"
    and c: "lo_compat_ioctl E mw bdev cmd lo w = Some (err, out, lo1, w1)"
  shows "keeps 0 lo w lo1 w1"
proof -
  have same: "keeps 0 lo w lo w" "keeps 0 lo w (unlock_ctl (lock_ctl lo)) w"
    using ok by (simp_all add: keeps_def keeps_lock) (simp add: balanced_def lock_ctl_def bound_count_def)
  have locked: "dev_ok (lock_ctl lo)" using ok by (simp add: keeps_lock)
  show ?thesis
  proof (cases "\<exists>a b. cmd = LOOP_SET_STATUS a \<or> cmd = LOOP_GET_STATUS b")
    case True
    then consider a where "cmd = LOOP_SET_STATUS a" | b where "cmd = LOOP_GET_STATUS b" by auto
    then show ?thesis
    proof cases
      case 1
      obtain e l w2 where r: "loop_set_status_compat E a (lock_ctl lo) w = (e, l, w2)"
        by (cases "loop_set_status_compat E a (lock_ctl lo) w") auto
      have "keeps 0 (lock_ctl lo) w l w2" by (rule set_status_compat_keeps [OF locked t _ r]) (use i 1 in simp)
      from keeps_locked(1) [OF this] show ?thesis using c 1 r by (simp add: lo_compat_ioctl_def no_out_def)
    next
      case 2
      then show ?thesis using c same(2) by (auto simp: lo_compat_ioctl_def split: prod.splits)
    qed
  next
    case False
    then have "\<exists>c o'. native_cmd cmd = Some c \<and> lo_ioctl E mw bdev (c :: ('a, 64) loop_info ioctl_cmd) lo w = Some (err, o', lo1, w1) \<or>
        lo1 = lo \<and> w1 = w"
      using c by (cases cmd) (auto simp: lo_compat_ioctl_def no_out_def split: option.splits)
    then show ?thesis using same lo_ioctl_keeps [OF ok t native_cmd_ok [OF i]] by blast
  qed
qed

lemma dev_ok_refcnt: "dev_ok (lo\<lparr>lo_refcnt := n\<rparr>) = dev_ok lo"
  by (simp add: dev_ok_def)

lemma lo_open_keeps:
  assumes "dev_ok lo" and "lo_open (Some lo) = (err, Some lo1)"
  shows "keeps 0 lo w lo1 w \<and> lo_refcnt lo1 = lo_refcnt lo + 1"
proof -
  have lo1: "lo1 = unlock_ctl ((lock_ctl lo)\<lparr>lo_refcnt := lo_refcnt lo + 1\<rparr>)" using assms(2) by (simp add: lo_open_def)
  have "dev_ok lo1" using assms(1) by (simp add: lo1 dev_ok_refcnt keeps_lock)
  then show ?thesis by (simp add: keeps_def lo1 balanced_def bound_count_def lock_ctl_def unlock_ctl_def)
qed

lemma lo_release_keeps:
  assumes ok: "dev_ok lo" and c: "lo_release E lo w = (err, lo1, w1)"
  shows "keeps 0 lo w lo1 w1"
proof -
  define l where "l = (lock_ctl lo)\<lparr>lo_refcnt := lo_refcnt lo - 1\<rparr>"
  have l: "dev_ok l" using ok by (simp add: l_def dev_ok_refcnt keeps_lock)
  have kl: "keeps (-1) lo w l w"
    using l by (simp add: keeps_def l_def balanced_def bound_count_def lock_ctl_def)
  have un: "keeps 0 lo w (unlock_ctl l2) w2" if "keeps 0 l w l2 w2" for l2 w2
    using that kl balanced_trans by (auto simp: keeps_def keeps_lock)
  have un1: "keeps 0 lo w l2 w2" if "keeps 1 l w l2 w2" for l2 w2
    using that kl balanced_trans by (auto simp: keeps_def)
  have fl: "keeps 0 l w l w" by (rule keeps_same [OF l]) simp_all
  obtain e2 l2 w2 where r: "loop_clr_fd E l w = (e2, l2, w2)" by (cases "loop_clr_fd E l w") auto
  show ?thesis
    using c loop_clr_fd_keeps [OF l r] un un1 fl r
    by (auto simp: lo_release_def l_def [symmetric] Let_def loop_flush_def loop_switch_def do_loop_switch_def
        split: if_splits)
qed

end
