(* ===== verification/Loop_Index.thy ===== *)
theory Loop_Index
  imports Loop_Config
begin

text \<open>
  The set of virtualized devices (\<^verbatim>\<open>drivers/block/loop.c\<close>, \<^verbatim>\<open>loop_register_transfer\<close> to
  \<^verbatim>\<open>loop_exit\<close>): creation, look-up and removal of devices, the control device, the table of transfer modules and
  the initialisation of the module.  The number map of the kernel (\<^verbatim>\<open>idr\<close>) and the allocations are the
  environment \<open>add_env\<close>.

  The main result is that in every reachable state each file and module reference that the driver took is held by
  exactly one device.
\<close>

section \<open>State\<close>

text \<open>\<open>ix_freed\<close>: numbers whose entry in the map points to a device that was freed.\<close>

record index =
  ix_world :: world
  ix_freed :: "nat set"

abbreviation ix_devs :: "index \<Rightarrow> nat \<Rightarrow> loop_device option" where
  "ix_devs ix \<equiv> w_devs (ix_world ix)"

definition ids :: "index \<Rightarrow> nat set" where
  "ids ix = dom (ix_devs ix) \<union> ix_freed ix"

definition put_dev :: "nat \<Rightarrow> loop_device \<Rightarrow> index \<Rightarrow> index" where
  "put_dev i lo ix = ix\<lparr>ix_world := (ix_world ix)\<lparr>w_devs := (ix_devs ix)(i \<mapsto> lo)\<rparr>\<rparr>"

text \<open>\<open>idr_get used start\<close>: the error and the number that the map hands out.\<close>

record add_env =
  kzalloc_ok :: bool
  idr_pre_get :: bool
  idr_get :: "nat set \<Rightarrow> nat \<Rightarrow> errcode \<times> nat"
  queue_ok :: bool
  disk_ok :: bool

section \<open>Creating and finding devices\<close>

definition new_device :: "loop_env \<Rightarrow> nat \<Rightarrow> loop_device" where
  "new_device E i =
     \<lparr>transfer = None, lo_encrypt_key = zeros LO_KEY_SIZE, lo_encrypt_key_size = 0, lo_number = i, lo_refcnt = 0,
      lo_offset = 0, lo_sizelimit = 0, lo_flags = 0, lo_file_name = zeros LO_NAME_SIZE,
      lo_crypt_name = zeros LO_NAME_SIZE, lo_encryption = None, lo_init = (0, 0), lo_key_owner = 0, lo_ioctl_fn = None,
      lo_backing_file = None, lo_block_cache = zero_cache, lo_device = None, lo_blocksize = 0, old_gfp_mask = 0,
      lo_bio_count = 0, lo_state = Lo_unbound, lo_thread = False, lo_dirty_state = False, lo_mutex = 0,
      lo_capacity = 0,
      lo_disk_flags = (if part_shift E = 0 then GENHD_FL_NO_PART_SCAN OR GENHD_FL_EXT_DEVT else GENHD_FL_EXT_DEVT),
      lo_sysfs = False, lo_queue_flush = False, lo_discard = None\<rparr>"

text \<open>The number for the new device: a given one, or any.\<close>

definition pick_number :: "add_env \<Rightarrow> int \<Rightarrow> nat set \<Rightarrow> errcode \<times> nat" where
  "pick_number A i used =
     (if 0 \<le> i then
        (case idr_get A used (nat i) of (err, m) \<Rightarrow> if 0 \<le> err \<and> int m \<noteq> i then (- EEXIST, m) else (err, nat i))
      else if i = - 1 then idr_get A used 0
      else (- EINVAL, 0))"

definition loop_add :: "loop_env \<Rightarrow> add_env \<Rightarrow> int \<Rightarrow> index \<Rightarrow> int \<times> index" where
  "loop_add E A i ix =
     (if \<not> kzalloc_ok A then (- ENOMEM, ix)
      else if \<not> idr_pre_get A then (- ENOMEM, ix)
      else (case pick_number A i (ids ix) of (err, n) \<Rightarrow>
        if err < 0 then (err, ix)
        else if \<not> queue_ok A \<or> \<not> disk_ok A then (err, ix\<lparr>ix_freed := insert n (ix_freed ix)\<rparr>)
        else (int n, put_dev n (new_device E n) ix)))"

definition loop_remove :: "nat \<Rightarrow> index \<Rightarrow> index" where
  "loop_remove i ix = ix\<lparr>ix_world := (ix_world ix)\<lparr>w_devs := (ix_devs ix)(i := None)\<rparr>\<rparr>"

text \<open>The look-up returns a number or an error; \<open>None\<close>: it reads a device that was freed.\<close>

primrec find_free :: "index \<Rightarrow> nat list \<Rightarrow> int option" where
  "find_free ix [] = Some (- ENODEV)"
| "find_free ix (j # js) =
     (case ix_devs ix j of
        None \<Rightarrow> None
      | Some lo \<Rightarrow> if lo_state lo = Lo_unbound then Some (int (lo_number lo)) else find_free ix js)"

definition loop_lookup :: "int \<Rightarrow> index \<Rightarrow> int option" where
  "loop_lookup i ix =
     (if i < 0 then find_free ix (sorted_list_of_set (ids ix))
      else if nat i \<in> ids ix then
        (case ix_devs ix (nat i) of None \<Rightarrow> None | Some lo \<Rightarrow> Some (int (lo_number lo)))
      else Some (- ENODEV))"

section \<open>The control device\<close>

datatype ctl_cmd = LOOP_CTL_ADD int | LOOP_CTL_REMOVE int | LOOP_CTL_GET_FREE | CtlOther

definition ctl_remove :: "nat \<Rightarrow> index \<Rightarrow> int \<times> index" where
  "ctl_remove i ix =
     (case ix_devs ix i of
        None \<Rightarrow> (int i, ix)
      | Some lo \<Rightarrow>
          if lo_state lo \<noteq> Lo_unbound then (- EBUSY, ix)
          else if 0 < lo_refcnt lo then (- EBUSY, ix)
          else (int (lo_number lo), loop_remove i ix))"

definition loop_control_ioctl :: "loop_env \<Rightarrow> add_env \<Rightarrow> ctl_cmd \<Rightarrow> index \<Rightarrow> (int \<times> index) option" where
  "loop_control_ioctl E A cmd ix =
     (case cmd of
        LOOP_CTL_ADD parm \<Rightarrow>
          (case loop_lookup parm ix of
             None \<Rightarrow> None
           | Some ret \<Rightarrow> if 0 \<le> ret then Some (- EEXIST, ix) else Some (loop_add E A parm ix))
      | LOOP_CTL_REMOVE parm \<Rightarrow>
          (case loop_lookup parm ix of
             None \<Rightarrow> None
           | Some ret \<Rightarrow> if ret < 0 then Some (ret, ix) else Some (ctl_remove (nat ret) ix))
      | LOOP_CTL_GET_FREE \<Rightarrow>
          (case loop_lookup (- 1) ix of
             None \<Rightarrow> None
           | Some ret \<Rightarrow> if 0 \<le> ret then Some (ret, ix) else Some (loop_add E A (- 1) ix))
      | CtlOther \<Rightarrow> Some (- ENOSYS, ix))"

definition loop_probe :: "loop_env \<Rightarrow> add_env \<Rightarrow> nat \<Rightarrow> index \<Rightarrow> (int \<times> index) option" where
  "loop_probe E A minor ix =
     (let i = int (minor div 2 ^ part_shift E) in
      case loop_lookup i ix of
        None \<Rightarrow> None
      | Some err \<Rightarrow> if err < 0 then Some (loop_add E A i ix) else Some (err, ix))"

section \<open>Transfer modules\<close>

definition loop_register_transfer :: "loop_env \<Rightarrow> nat \<Rightarrow> index \<Rightarrow> errcode \<times> index" where
  "loop_register_transfer E funcs ix =
     (let n = nat (take_bit 32 (xt_number (tables E funcs))) in
      if MAX_LO_CRYPT \<le> n \<or> w_xfer (ix_world ix) n \<noteq> None then (- EINVAL, ix)
      else (0, ix\<lparr>ix_world := (ix_world ix)\<lparr>w_xfer := (w_xfer (ix_world ix))(n \<mapsto> funcs)\<rparr>\<rparr>))"

definition unregister_transfer_cb :: "loop_env \<Rightarrow> nat \<Rightarrow> nat \<Rightarrow> index \<Rightarrow> index option" where
  "unregister_transfer_cb E xfer i ix =
     (case ix_devs ix i of
        None \<Rightarrow> None
      | Some lo \<Rightarrow>
          if lo_encryption lo = Some xfer then
            (case loop_release_xfer E (lock_ctl lo) (ix_world ix) of (err, lo1, w1) \<Rightarrow>
               Some (put_dev i (unlock_ctl lo1) (ix\<lparr>ix_world := w1\<rparr>)))
          else Some ix)"

primrec unregister_all :: "loop_env \<Rightarrow> nat \<Rightarrow> nat list \<Rightarrow> index \<Rightarrow> index option" where
  "unregister_all E xfer [] ix = Some ix"
| "unregister_all E xfer (j # js) ix =
     (case unregister_transfer_cb E xfer j ix of None \<Rightarrow> None | Some ix1 \<Rightarrow> unregister_all E xfer js ix1)"

definition loop_unregister_transfer :: "loop_env \<Rightarrow> int \<Rightarrow> index \<Rightarrow> (errcode \<times> index) option" where
  "loop_unregister_transfer E number ix =
     (let n = nat (take_bit 32 number) in
      if n = 0 \<or> MAX_LO_CRYPT \<le> n then Some (- EINVAL, ix)
      else (case w_xfer (ix_world ix) n of
        None \<Rightarrow> Some (- EINVAL, ix)
      | Some xfer \<Rightarrow>
          (case unregister_all E xfer (sorted_list_of_set (ids ix))
                  (ix\<lparr>ix_world := (ix_world ix)\<lparr>w_xfer := (w_xfer (ix_world ix))(n := None)\<rparr>\<rparr>) of
             None \<Rightarrow> None
           | Some ix1 \<Rightarrow> Some (0, ix1))))"

section \<open>The module\<close>

fun fls :: "nat \<Rightarrow> nat" where
  "fls n = (if n = 0 then 0 else Suc (fls (n div 2)))"

declare fls.simps [simp del]

definition MINORBITS :: nat where "MINORBITS = 20"
definition DISK_MAX_PARTS :: nat where "DISK_MAX_PARTS = 256"

record init_params =
  ip_max_part :: nat
  ip_max_loop :: nat
  ip_min_count :: nat
  ip_misc_err :: errcode
  ip_blkdev_err :: bool
  ip_prefetch :: nat

text \<open>The result of loading the module: the error, whether the control device is registered, the minors reserved, the
  devices and the number of blocks to prefetch.\<close>

record module =
  m_err :: errcode
  m_misc :: bool
  m_part_shift :: nat
  m_max_part :: nat
  m_range :: nat
  m_index :: index
  m_prefetch :: nat

definition loop_init :: "loop_env \<Rightarrow> add_env \<Rightarrow> init_params \<Rightarrow> index \<Rightarrow> module" where
  "loop_init E A p ix =
     (let shift = (if 0 < ip_max_part p then fls (ip_max_part p) else 0);
          mp = (if 0 < ip_max_part p then 2 ^ shift - 1 else ip_max_part p);
          fail = (\<lambda>e misc. \<lparr>m_err = e, m_misc = misc, m_part_shift = shift, m_max_part = mp, m_range = 0, m_index = ix,
                            m_prefetch = ip_prefetch p\<rparr>)
      in if ip_misc_err p < 0
         then (fail (ip_misc_err p) False)\<lparr>m_part_shift := part_shift E, m_max_part := ip_max_part p\<rparr>
         else if DISK_MAX_PARTS < 2 ^ shift then fail (- EINVAL) True
         else if 2 ^ (MINORBITS - shift) < ip_max_loop p then fail (- EINVAL) True
         else if ip_blkdev_err p then fail (- EIO) True
         else
           (let nr = (if ip_max_loop p \<noteq> 0 then ip_max_loop p else ip_min_count p);
                range = (if ip_max_loop p \<noteq> 0 then ip_max_loop p * 2 ^ shift else 2 ^ MINORBITS)
            in \<lparr>m_err = 0, m_misc = True, m_part_shift = shift, m_max_part = mp, m_range = range,
                m_index = fold (\<lambda>i ix. snd (loop_add (E\<lparr>part_shift := shift\<rparr>) A (int i) ix)) [0..<nr] ix,
                m_prefetch = ip_prefetch p div 4\<rparr>))"

definition loop_exit :: "index \<Rightarrow> index" where
  "loop_exit ix = (fold loop_remove (sorted_list_of_set (ids ix)) ix)\<lparr>ix_freed := {}\<rparr>"

section \<open>The invariant of the set of devices\<close>

definition total_held :: "(loop_device \<Rightarrow> int) \<Rightarrow> index \<Rightarrow> int" where
  "total_held g ix = (\<Sum>i \<in> dom (ix_devs ix). g (the (ix_devs ix i)))"

text \<open>Every device is in order and no mutex is held, and each reference count is the number of devices that hold the
  reference.\<close>

definition index_ok :: "index \<Rightarrow> bool" where
  "index_ok ix \<longleftrightarrow>
     finite (ids ix) \<and> dom (ix_devs ix) \<inter> ix_freed ix = {} \<and>
     (\<forall>i lo. ix_devs ix i = Some lo \<longrightarrow> dev_ok lo \<and> lo_number lo = i \<and> lo_mutex lo = 0) \<and>
     (\<forall>f. w_fref (ix_world ix) f = total_held (\<lambda>lo. held (lo_backing_file lo) f) ix) \<and>
     w_modref (ix_world ix) = total_held bound_count ix \<and>
     (\<forall>x. w_xref (ix_world ix) x = total_held (\<lambda>lo. held (lo_encryption lo) x) ix)"

lemma index_okD:
  assumes "index_ok ix"
  shows "finite (ids ix)" "finite (dom (ix_devs ix))"
    "ix_devs ix i = Some lo \<Longrightarrow> dev_ok lo" "ix_devs ix i = Some lo \<Longrightarrow> lo_number lo = i"
    "ix_devs ix i = Some lo \<Longrightarrow> lo_mutex lo = 0"
  using assms by (auto simp: index_ok_def ids_def)

lemma total_put:
  assumes "finite (dom (ix_devs ix))"
  shows "total_held g (put_dev i lo ix) = total_held g ix - (case ix_devs ix i of None \<Rightarrow> 0 | Some l \<Rightarrow> g l) + g lo"
proof -
  let ?D = "dom (ix_devs ix)"
  have "total_held g (put_dev i lo ix) = g lo + (\<Sum>j \<in> ?D - {i}. g (the (ix_devs ix j)))"
    unfolding total_held_def put_dev_def using assms by (simp add: sum.insert_remove)
  also have "(\<Sum>j \<in> ?D - {i}. g (the (ix_devs ix j))) = total_held g ix - (case ix_devs ix i of None \<Rightarrow> 0 | Some l \<Rightarrow> g l)"
    using assms by (auto simp: total_held_def sum_diff1 dom_def split: option.splits)
  finally show ?thesis by simp
qed

lemma total_world:
  "w_devs w = ix_devs ix \<Longrightarrow> total_held g (ix\<lparr>ix_world := w\<rparr>) = total_held g ix"
  by (simp add: total_held_def)

lemma put_dev_simps:
  "ix_devs (put_dev i lo ix) = (ix_devs ix)(i \<mapsto> lo)" "ix_freed (put_dev i lo ix) = ix_freed ix"
  "w_fref (ix_world (put_dev i lo ix)) = w_fref (ix_world ix)" "w_modref (ix_world (put_dev i lo ix)) = w_modref (ix_world ix)"
  "w_xref (ix_world (put_dev i lo ix)) = w_xref (ix_world ix)" "w_xfer (ix_world (put_dev i lo ix)) = w_xfer (ix_world ix)"
  by (simp_all add: put_dev_def)

lemma index_ok_op:
  assumes ok: "index_ok ix" and lo: "ix_devs ix i = Some lo" and k: "keeps 0 lo (ix_world ix) lo1 w1"
  shows "index_ok (put_dev i lo1 (ix\<lparr>ix_world := w1\<rparr>))"
proof -
  let ?ix = "ix\<lparr>ix_world := w1\<rparr>"
  note b = k [unfolded keeps_def balanced_def]
  have d: "ix_devs ?ix = ix_devs ix" using b by simp
  have t: "total_held g (put_dev i lo1 ?ix) = total_held g ix - g lo + g lo1" for g
    using total_put [of ?ix g i lo1] index_okD(2) [OF ok] d lo total_world [of w1 ix g] by simp
  have r: "w_fref w1 f = w_fref (ix_world ix) f - held (lo_backing_file lo) f + held (lo_backing_file lo1) f"
      "w_xref w1 f = w_xref (ix_world ix) f - held (lo_encryption lo) f + held (lo_encryption lo1) f"
      "w_modref w1 = w_modref (ix_world ix) - bound_count lo + bound_count lo1" for f
    using b by (simp_all add: algebra_simps)
  have l: "dev_ok lo1" "lo_number lo1 = i" "lo_mutex lo1 = 0"
    using b index_okD(4,5) [OF ok lo] by simp_all
  show ?thesis unfolding index_ok_def put_dev_simps t
    using ok l lo d by (auto simp: index_ok_def ids_def put_dev_simps insert_absorb domI r)
qed

lemma index_ok_add:
  assumes ok: "index_ok ix" and n: "n \<notin> ids ix"
  shows "index_ok (put_dev n (new_device E n) ix)"
proof -
  have new: "dev_ok (new_device E n)" "lo_backing_file (new_device E n) = None" "lo_encryption (new_device E n) = None"
    "bound_count (new_device E n) = 0" "lo_number (new_device E n) = n" "lo_mutex (new_device E n) = 0"
    by (simp_all add: new_device_def dev_ok_def bound_count_def zeros_def)
  have none: "ix_devs ix n = None" using n by (auto simp: ids_def)
  have t: "total_held g (put_dev n (new_device E n) ix) = total_held g ix + g (new_device E n)" for g
    using total_put [OF index_okD(2) [OF ok], of g n] none by simp
  show ?thesis unfolding index_ok_def put_dev_simps t
    using ok n new index_okD [OF ok] by (auto simp: index_ok_def ids_def put_dev_simps held_def)
qed

lemma index_ok_remove:
  assumes ok: "index_ok ix" and lo: "ix_devs ix i = Some lo" and u: "lo_state lo = Lo_unbound"
  shows "index_ok (loop_remove i ix)"
proof -
  note z = dev_ok_unbound [OF index_okD(3) [OF ok lo] u]
  have t: "total_held g (loop_remove i ix) = total_held g ix - g lo" for g
    using index_okD(2) [OF ok] lo unfolding total_held_def loop_remove_def
    by (simp add: sum_diff1 domI)
  have s: "ix_devs (loop_remove i ix) = (ix_devs ix)(i := None)" "ix_freed (loop_remove i ix) = ix_freed ix"
    "w_fref (ix_world (loop_remove i ix)) = w_fref (ix_world ix)" "w_modref (ix_world (loop_remove i ix)) = w_modref (ix_world ix)"
    "w_xref (ix_world (loop_remove i ix)) = w_xref (ix_world ix)"
    by (simp_all add: loop_remove_def)
  show ?thesis unfolding index_ok_def s t
    using ok index_okD [OF ok] z u by (auto simp: index_ok_def ids_def s held_def bound_count_def)
qed

section \<open>Every operation keeps the invariant\<close>

text \<open>What the number map promises: a number it hands out was free and is not below the start.\<close>

definition idr_ok :: "add_env \<Rightarrow> bool" where
  "idr_ok A \<longleftrightarrow> (\<forall>used st err m. finite used \<longrightarrow> idr_get A used st = (err, m) \<longrightarrow> 0 \<le> err \<longrightarrow> m \<notin> used \<and> st \<le> m)"

lemma pick_number_free:
  assumes "idr_ok A" and "finite used" and "pick_number A i used = (err, n)" and "0 \<le> err"
  shows "n \<notin> used" "0 \<le> i \<Longrightarrow> n = nat i"
  using assms by (auto simp: pick_number_def idr_ok_def split: if_splits prod.splits)

lemma index_ok_freed:
  "index_ok ix \<Longrightarrow> n \<notin> ids ix \<Longrightarrow> index_ok (ix\<lparr>ix_freed := insert n (ix_freed ix)\<rparr>)"
  by (auto simp: index_ok_def ids_def total_held_def)

lemma loop_add_ok:
  assumes "idr_ok A" and "index_ok ix"
  shows "index_ok (snd (loop_add E A i ix))"
  using assms index_okD(1) [OF assms(2)] pick_number_free(1) [OF assms(1), of "ids ix"] index_ok_add [OF assms(2)]
    index_ok_freed [OF assms(2)]
  by (auto simp: loop_add_def split: prod.splits)

lemma loop_control_ok:
  assumes "idr_ok A" and "index_ok ix" and "loop_control_ioctl E A cmd ix = Some (ret, ix1)"
  shows "index_ok ix1"
proof -
  have "index_ok (snd (ctl_remove i ix))" for i
    using assms(2) index_ok_remove [OF assms(2)] by (auto simp: ctl_remove_def split: option.splits)
  then show ?thesis using assms loop_add_ok [OF assms(1,2)]
    by (auto simp: loop_control_ioctl_def split: ctl_cmd.splits option.splits if_splits) (metis snd_conv)+
qed

lemma unregister_cb_ok:
  assumes ok: "index_ok ix" and c: "unregister_transfer_cb E x i ix = Some ix1"
  shows "index_ok ix1"
proof -
  obtain lo where lo: "ix_devs ix i = Some lo" using c by (auto simp: unregister_transfer_cb_def split: option.splits)
  obtain e lo1 w1 where r: "loop_release_xfer E (lock_ctl lo) (ix_world ix) = (e, lo1, w1)"
    by (cases "loop_release_xfer E (lock_ctl lo) (ix_world ix)") auto
  note r' = loop_release_xfer_ok [OF r]
  have dev: "dev_ok lo" by (rule index_okD(3) [OF ok lo])
  show ?thesis
  proof (cases "lo_encryption lo = Some x")
    case True
    then have "lo_state (lock_ctl lo) \<noteq> Lo_unbound" using dev_ok_unbound [OF dev] by (auto simp: lock_ctl_def)
    then have "keeps 0 (lock_ctl lo) (ix_world ix) lo1 w1"
      using r'(1,3) r'(12) dev by (simp add: keeps_def keeps_lock)
    from index_ok_op [OF ok lo keeps_locked(1) [OF this]] show ?thesis
      using c lo r True by (simp add: unregister_transfer_cb_def)
  next
    case False
    then show ?thesis using c lo ok by (simp add: unregister_transfer_cb_def)
  qed
qed

lemma unregister_all_ok:
  "index_ok ix \<Longrightarrow> unregister_all E x js ix = Some ix1 \<Longrightarrow> index_ok ix1"
  by (induction js arbitrary: ix) (auto split: option.splits dest: unregister_cb_ok)

lemma index_ok_xfer: "index_ok (ix\<lparr>ix_world := (ix_world ix)\<lparr>w_xfer := x\<rparr>\<rparr>) = index_ok ix"
  by (simp add: index_ok_def ids_def total_held_def)

lemma transfer_table_ok:
  "index_ok ix \<Longrightarrow> index_ok (snd (loop_register_transfer E funcs ix))"
  "index_ok ix \<Longrightarrow> loop_unregister_transfer E n ix = Some (e, ix1) \<Longrightarrow> index_ok ix1"
  by (auto simp: loop_register_transfer_def loop_unregister_transfer_def Let_def index_ok_xfer split: if_splits option.splits
      intro: unregister_all_ok [rotated])

section \<open>Reachable states\<close>

definition empty_index :: index where
  "empty_index = \<lparr>ix_world = \<lparr>w_devs = Map.empty, w_gfp = (\<lambda>_. 0), w_fref = (\<lambda>_. 0), w_modref = 0, w_xref = (\<lambda>_. 0),
     w_xfer = xfer_funcs, w_bd_size = (\<lambda>_. 0), w_bd_block = (\<lambda>_. 0), w_bd_ro = (\<lambda>_. False), w_signals = []\<rparr>,
     ix_freed = {}\<rparr>"

text \<open>The operations in any order, each atomic under its mutex: loading the module, the control device, opening a node
  of a device that does not exist yet, open and release, the ioctls in both variants, and the transfer modules.  The
  environment may change from one operation to the next.\<close>

inductive reach :: "index \<Rightarrow> bool" where
  load: "idr_ok A \<Longrightarrow> m_index (loop_init E A p (empty_index\<lparr>ix_world := (ix_world empty_index)\<lparr>w_gfp := g\<rparr>\<rparr>)) = ix \<Longrightarrow> reach ix"
| control: "reach ix \<Longrightarrow> idr_ok A \<Longrightarrow> loop_control_ioctl E A cmd ix = Some (ret, ix1) \<Longrightarrow> reach ix1"
| probe: "reach ix \<Longrightarrow> idr_ok A \<Longrightarrow> loop_probe E A minor ix = Some (ret, ix1) \<Longrightarrow> reach ix1"
| opened: "reach ix \<Longrightarrow> ix_devs ix i = Some lo \<Longrightarrow> lo_open (Some lo) = (0, Some lo1) \<Longrightarrow> reach (put_dev i lo1 ix)"
| released: "reach ix \<Longrightarrow> ix_devs ix i = Some lo \<Longrightarrow> 0 < lo_refcnt lo \<Longrightarrow> lo_release E lo (ix_world ix) = (e, lo1, w1) \<Longrightarrow>
    reach (put_dev i lo1 (ix\<lparr>ix_world := w1\<rparr>))"
| ioctl: "reach ix \<Longrightarrow> ix_devs ix i = Some lo \<Longrightarrow> tables_ok E \<Longrightarrow> cmd_ok cmd \<Longrightarrow>
    lo_ioctl E mw (i, part) (cmd :: (64, 64) loop_info ioctl_cmd) lo (ix_world ix) = Some (e, out, lo1, w1) \<Longrightarrow>
    reach (put_dev i lo1 (ix\<lparr>ix_world := w1\<rparr>))"
| compat: "reach ix \<Longrightarrow> ix_devs ix i = Some lo \<Longrightarrow> tables_ok E \<Longrightarrow> compat_ok ccmd \<Longrightarrow>
    lo_compat_ioctl E mw (i, part) (ccmd :: 16 compat_loop_info ioctl_cmd) lo (ix_world ix) = Some (e, cout, lo1, w1) \<Longrightarrow>
    reach (put_dev i lo1 (ix\<lparr>ix_world := w1\<rparr>))"
| register: "reach ix \<Longrightarrow> loop_register_transfer E funcs ix = (e, ix1) \<Longrightarrow> reach ix1"
| unregister: "reach ix \<Longrightarrow> loop_unregister_transfer E n ix = Some (e, ix1) \<Longrightarrow> reach ix1"

lemma empty_index_ok: "index_ok (empty_index\<lparr>ix_world := (ix_world empty_index)\<lparr>w_gfp := g\<rparr>\<rparr>)"
  by (simp add: index_ok_def empty_index_def ids_def total_held_def)

lemma loop_init_ok:
  assumes "idr_ok A" and "index_ok ix"
  shows "index_ok (m_index (loop_init E A p ix))"
proof -
  have "index_ok (fold (\<lambda>i ix. snd (loop_add F A (int i) ix)) js ix)" for F js
    using assms(2) by (induction js arbitrary: ix) (auto intro: loop_add_ok [OF assms(1)])
  then show ?thesis using assms(2) by (simp add: loop_init_def Let_def)
qed

lemma reach_ok: "reach ix \<Longrightarrow> index_ok ix"
proof (induction rule: reach.induct)
  case (load A E p g ix)
  then show ?case using loop_init_ok [OF load(1) empty_index_ok] by blast
next
  case (control ix A E cmd ret ix1)
  then show ?case using loop_control_ok by blast
next
  case (probe ix A E minor ret ix1)
  have "index_ok (snd (loop_add E A (int (minor div 2 ^ part_shift E)) ix))"
    by (rule loop_add_ok [OF probe(2) probe.IH])
  then show ?case using probe by (auto simp: loop_probe_def Let_def split: option.splits if_splits)
next
  case (opened ix i lo lo1)
  from index_ok_op [OF opened.IH opened(2)] lo_open_keeps [OF index_okD(3) [OF opened.IH opened(2)] opened(3)]
  have "index_ok (put_dev i lo1 (ix\<lparr>ix_world := ix_world ix\<rparr>))" by blast
  then show ?case by simp
next
  case (released ix i lo E e lo1 w1)
  then show ?case using index_ok_op lo_release_keeps index_okD(3) by blast
next
  case (ioctl ix i lo E cmd mw part e out lo1 w1)
  then show ?case using index_ok_op lo_ioctl_keeps index_okD(3) by blast
next
  case (compat ix i lo E ccmd mw part e cout lo1 w1)
  then show ?case using index_ok_op lo_compat_ioctl_keeps index_okD(3) by blast
next
  case (register ix E funcs e ix1)
  then show ?case using transfer_table_ok(1) [of ix E funcs] by simp
next
  case (unregister ix E n e ix1)
  then show ?case using transfer_table_ok(2) by blast
qed

end
