(* ===== verification/Loop_Control.thy ===== *)
theory Loop_Control
  imports Loop_Index
begin

text \<open>
  Properties of the configuration and of the set of devices: the balance of references in every reachable state,
  recursion between devices, what binding, clearing, the status and the control device do.
\<close>

section \<open>References\<close>

lemma total_held_card:
  assumes "finite (dom (ix_devs ix))"
  shows "total_held (\<lambda>lo. held (p lo) x) ix = int (card {i. \<exists>lo. ix_devs ix i = Some lo \<and> p lo = Some x})"
proof -
  have "total_held (\<lambda>lo. held (p lo) x) ix = (\<Sum>i \<in> dom (ix_devs ix). if p (the (ix_devs ix i)) = Some x then 1 else 0)"
    by (simp add: total_held_def held_def)
  also have "\<dots> = int (card {i \<in> dom (ix_devs ix). p (the (ix_devs ix i)) = Some x})"
    using assms by (simp add: sum.If_cases Int_def)
  also have "{i \<in> dom (ix_devs ix). p (the (ix_devs ix i)) = Some x} = {i. \<exists>lo. ix_devs ix i = Some lo \<and> p lo = Some x}"
    by auto
  finally show ?thesis .
qed

lemma total_bound_card:
  assumes "finite (dom (ix_devs ix))"
  shows "total_held bound_count ix = int (card {i. \<exists>lo. ix_devs ix i = Some lo \<and> lo_state lo \<noteq> Lo_unbound})"
proof -
  have "bound_count = (\<lambda>lo. held (if lo_state lo \<noteq> Lo_unbound then Some () else None) ())"
    by (auto simp: bound_count_def held_def)
  moreover have "((if c then Some () else None) = Some ()) = c" for c by simp
  ultimately show ?thesis
    using total_held_card [OF assms, of "\<lambda>lo. if lo_state lo \<noteq> Lo_unbound then Some () else None" "()"] by presburger
qed

text \<open>C14. After any sequence of operations, the references that the driver holds are those of its devices: every
  backing file is referenced once for each device bound to it, the module once for each bound device, a transfer module
  once for each device that uses it.  Error paths leak none.\<close>

theorem driver_references:
  assumes "reach ix"
  shows "w_fref (ix_world ix) f = int (card {i. \<exists>lo. ix_devs ix i = Some lo \<and> lo_backing_file lo = Some f}) \<and>
    w_modref (ix_world ix) = int (card {i. \<exists>lo. ix_devs ix i = Some lo \<and> lo_state lo \<noteq> Lo_unbound}) \<and>
    w_xref (ix_world ix) x = int (card {i. \<exists>lo. ix_devs ix i = Some lo \<and> lo_encryption lo = Some x})"
proof -
  note ok = reach_ok [OF assms]
  note fin = index_okD(2) [OF ok]
  show ?thesis
    using ok total_held_card [OF fin, of lo_backing_file f] total_held_card [OF fin, of lo_encryption x] total_bound_card [OF fin]
    by (simp add: index_ok_def)
qed

text \<open>C15. Between two operations a device is either unbound, without file, thread, size and transfer module, or bound
  with file, thread and block device (a bound device may be without a transfer function); its mutex is free; and where its transfer is the xor transfer, the key size lies between 1 and
  the size of the key, so that \<^verbatim>\<open>transfer_xor\<close> neither divides by zero nor reads beyond the key.\<close>

theorem device_states:
  assumes "reach ix" and "ix_devs ix i = Some lo"
  shows "(lo_state lo = Lo_unbound \<and> lo_backing_file lo = None \<and> \<not> lo_thread lo \<and> lo_capacity lo = 0 \<and> lo_encryption lo = None \<or>
     lo_state lo = Lo_bound \<and> lo_backing_file lo \<noteq> None \<and> lo_thread lo \<and> lo_device lo \<noteq> None) \<and>
    lo_mutex lo = 0 \<and> (transfer lo = Some TransferXor \<longrightarrow> crypt_ok lo)"
proof -
  note ok = reach_ok [OF assms(1)]
  have d: "dev_ok lo" "lo_mutex lo = 0" using index_okD(3,5) [OF ok assms(2)] by auto
  then show ?thesis by (cases "lo_state lo") (simp_all add: dev_ok_def crypt_ok_def)
qed

text \<open>A small environment: file 0 is a regular file of 1 MiB, file 1 the node of device 0.\<close>

definition reg_file :: lo_file where
  "reg_file = \<lparr>f_inode = 7, f_kind = RegFile, f_mode_write = False, f_op_write = True, f_op_fsync = True,
     f_op_fallocate = True, f_isize = 1048576, f_bd_block_size = 0, f_s_blocksize = 4096\<rparr>"

definition demo_env :: loop_env where
  "demo_env = \<lparr>file_of = (\<lambda>f. if f = 1 then reg_file\<lparr>f_inode := 8, f_kind := BlkDev (Some (0, 0))\<rparr> else reg_file),
     fget = (\<lambda>fd. if fd < 2 then Some fd else None), part_shift = 0, kthread_err = 0, switch_bio_ok = True,
     sector_bits = 64, tables = (\<lambda>n. if n = 1 then xor_funcs else none_funcs), current_uid = 0, cap_sys_admin = True,
     vfs_getattr = (\<lambda>_. (0, \<lparr>st_dev = 1, st_ino = 2, st_rdev = 3\<rparr>))\<rparr>"

definition demo_add :: add_env where
  "demo_add = \<lparr>kzalloc_ok = True, idr_pre_get = True,
     idr_get = (\<lambda>used st. (0, (if st \<in> used then Suc (Max (insert st used)) else st))), queue_ok = True, disk_ok = True\<rparr>"

definition demo_params :: init_params where
  "demo_params = \<lparr>ip_max_part = 0, ip_max_loop = 2, ip_min_count = 8, ip_misc_err = 0, ip_blkdev_err = False, ip_prefetch = 512\<rparr>"

definition demo_index :: index where
  "demo_index = put_dev 1 (new_device demo_env 1) (put_dev 0 (new_device demo_env 0) empty_index)"

lemma demo_add_ok: "idr_ok demo_add"
  by (auto simp: idr_ok_def demo_add_def) (metis Max_ge Suc_n_not_le_n finite_insert insert_iff, meson Max_ge finite_insert insertI1 le_SucI)

lemma demo_tables: "tables_ok demo_env"
  by (auto simp: tables_ok_def demo_env_def none_funcs_def)

lemma demo_env_shift: "demo_env\<lparr>part_shift := 0\<rparr> = demo_env"
  by (simp add: demo_env_def)

lemma demo_index_loaded: "m_index (loop_init demo_env demo_add demo_params empty_index) = demo_index"
proof -
  have "snd (loop_add demo_env demo_add 0 empty_index) = put_dev 0 (new_device demo_env 0) empty_index"
    by (simp add: loop_add_def demo_add_def pick_number_def ids_def empty_index_def)
  moreover have "snd (loop_add demo_env demo_add 1 (put_dev 0 (new_device demo_env 0) empty_index)) = demo_index"
    by (simp add: loop_add_def demo_add_def pick_number_def ids_def empty_index_def put_dev_simps demo_index_def)
  ultimately show ?thesis
    by (simp add: loop_init_def demo_params_def Let_def DISK_MAX_PARTS_def MINORBITS_def demo_env_shift upt_rec)
qed

lemma demo_reach: "reach demo_index"
  using reach.load [OF demo_add_ok, of demo_env demo_params "w_gfp (ix_world empty_index)" demo_index] demo_index_loaded by simp

subsection \<open>Fields after binding and clearing\<close>

lemma set_fd_fields_sel:
  "lo_backing_file (fst (set_fd_fields E mw bdev f lo w)) = Some f"
  "lo_device (fst (set_fd_fields E mw bdev f lo w)) = Some bdev"
  "lo_encryption (fst (set_fd_fields E mw bdev f lo w)) = lo_encryption lo"
  "lo_refcnt (fst (set_fd_fields E mw bdev f lo w)) = lo_refcnt lo"
  "old_gfp_mask (fst (set_fd_fields E mw bdev f lo w)) = mapping_gfp_mask E f w"
  "lo_offset (fst (set_fd_fields E mw bdev f lo w)) = lo_offset lo"
  "lo_sizelimit (fst (set_fd_fields E mw bdev f lo w)) = 0"
  "\<not> f_mode_write (file_of E f) \<Longrightarrow> lo_flags (fst (set_fd_fields E mw bdev f lo w)) = LO_FLAGS_READ_ONLY"
  by (simp_all add: set_fd_fields_def Let_def)

lemma set_fd_fields_world:
  "w_gfp (snd (set_fd_fields E mw bdev f lo w)) = (w_gfp w)(f_inode (file_of E f) := mapping_gfp_mask E f w AND NOT GFP_IO_FS)"
  "w_fref (snd (set_fd_fields E mw bdev f lo w)) = w_fref w" "w_modref (snd (set_fd_fields E mw bdev f lo w)) = w_modref w"
  "w_xref (snd (set_fd_fields E mw bdev f lo w)) = w_xref w" "w_devs (snd (set_fd_fields E mw bdev f lo w)) = w_devs w"
  "w_bd_size (snd (set_fd_fields E mw bdev f lo w)) = (w_bd_size w)(bdev := get_loop_size E w lo f * 512)"
  by (simp_all add: set_fd_fields_def Let_def shared_simps)

lemma set_fd_thread_sel:
  assumes "kthread_err E = 0" and "set_fd_thread E bdev f lo w = (e, lo1, w1)"
  shows "e = 0" "lo_state lo1 = Lo_bound" "lo_backing_file lo1 = lo_backing_file lo" "lo_device lo1 = lo_device lo"
    "lo_encryption lo1 = lo_encryption lo" "lo_refcnt lo1 = lo_refcnt lo" "old_gfp_mask lo1 = old_gfp_mask lo"
    "lo_offset lo1 = lo_offset lo" "lo_sizelimit lo1 = lo_sizelimit lo" "part_shift E = 0 \<Longrightarrow> lo_flags lo1 = lo_flags lo"
    "w_gfp w1 = w_gfp w" "w_fref w1 = w_fref w" "w_modref w1 = w_modref w" "w_xref w1 = w_xref w" "w_devs w1 = w_devs w"
    "w_bd_size w1 = w_bd_size w"
  using assms by (auto simp: set_fd_thread_def Let_def signal_def split: if_splits)

lemma clear_fields_sel:
  "lo_state (clear_fields E lo) = Lo_unbound" "lo_capacity (clear_fields E lo) = 0" "lo_offset (clear_fields E lo) = 0"
  "lo_encrypt_key (clear_fields E lo) = zeros LO_KEY_SIZE" "lo_file_name (clear_fields E lo) = zeros LO_NAME_SIZE"
  "transfer (clear_fields E lo) = None" "lo_device (clear_fields E lo) = None"
  by (simp_all add: clear_fields_def)

lemma demo_sizes:
  assumes "lo_offset lo = 0" and "lo_sizelimit lo = 0"
  shows "get_loop_size demo_env w lo 0 = 2048" "sector_cast demo_env 2048 = 2048"
  using assms by (simp_all add: get_loop_size_def get_size_def i_size_read_def sector_cast_def demo_env_def reg_file_def loff_def
      signed_take_bit_int_eq_self_iff Let_def)

lemma demo_bind:
  assumes "lo_state lo = Lo_unbound" and "lo_offset lo = 0" and "lo_sizelimit lo = 0"
  shows "loop_set_fd demo_env False (0, 0) 0 lo w = Some (set_fd_thread demo_env (0, 0) 0
    (fst (set_fd_fields demo_env False (0, 0) 0 lo (take_file 0 (module_get w))))
    (snd (set_fd_fields demo_env False (0, 0) 0 lo (take_file 0 (module_get w)))))"
proof -
  have "backing_chain demo_env v (0, 0) 0 = Some 0" for v
    by (subst backing_chain.simps) (simp add: demo_env_def reg_file_def)
  moreover have "fget demo_env 0 = Some 0" "reg_or_blk (f_kind (file_of demo_env 0))"
    by (simp_all add: demo_env_def reg_file_def reg_or_blk_def)
  ultimately show ?thesis using assms by (simp add: loop_set_fd_def Let_def case_prod_beta demo_sizes)
qed

lemma demo_bound:
  assumes "lo_offset lo = 0" and "lo_sizelimit lo = 0"
    and "set_fd_thread demo_env (0, 0) 0 (fst (set_fd_fields demo_env False (0, 0) 0 lo (take_file 0 (module_get w))))
      (snd (set_fd_fields demo_env False (0, 0) 0 lo (take_file 0 (module_get w)))) = (e, lo1, w1)"
  shows "e = 0" "lo_backing_file lo1 = Some 0" "lo_state lo1 = Lo_bound" "w_devs w1 = w_devs w"
    "lo_flags lo1 = LO_FLAGS_READ_ONLY" "w_bd_size w1 (0, 0) = 1048576" "lo_offset lo1 = 0" "lo_sizelimit lo1 = 0"
proof -
  have k: "kthread_err demo_env = 0" "part_shift demo_env = 0" "f_mode_write (file_of demo_env 0) = False"
    by (simp_all add: demo_env_def reg_file_def)
  show "e = 0" "lo_backing_file lo1 = Some 0" "lo_state lo1 = Lo_bound" "w_devs w1 = w_devs w"
    "lo_flags lo1 = LO_FLAGS_READ_ONLY" "w_bd_size w1 (0, 0) = 1048576" "lo_offset lo1 = 0" "lo_sizelimit lo1 = 0"
    by (simp_all add: set_fd_thread_sel [OF k(1) assms(3)] set_fd_fields_sel set_fd_fields_world k demo_sizes assms(1,2))
      (simp_all add: shared_simps)
qed

lemma demo_set_fd:
  obtains lo1 w1 where "loop_set_fd demo_env False (0, 0) 0 (lock_ctl (new_device demo_env 0)) (ix_world demo_index) = Some (0, lo1, w1)"
    "lo_ioctl demo_env False (0, 0) (LOOP_SET_FD 0 :: (64, 64) loop_info ioctl_cmd) (new_device demo_env 0)
      (ix_world demo_index) = Some (0, NoOut, unlock_ctl lo1, w1)"
    "lo_backing_file lo1 = Some 0" "lo_state lo1 = Lo_bound"
    "w_devs w1 = ix_devs demo_index" "lo_flags lo1 = LO_FLAGS_READ_ONLY" "w_bd_size w1 (0, 0) = 1048576"
    "lo_offset lo1 = 0" "lo_sizelimit lo1 = 0"
proof -
  let ?lo = "lock_ctl (new_device demo_env 0)" and ?w = "ix_world demo_index"
  have lo: "lo_state ?lo = Lo_unbound" "lo_offset ?lo = 0" "lo_sizelimit ?lo = 0"
    by (simp_all add: lock_ctl_def new_device_def)
  obtain e lo1 w1 where r: "set_fd_thread demo_env (0, 0) 0 (fst (set_fd_fields demo_env False (0, 0) 0 ?lo (take_file 0 (module_get ?w))))
      (snd (set_fd_fields demo_env False (0, 0) 0 ?lo (take_file 0 (module_get ?w)))) = (e, lo1, w1)"
    by (metis prod_cases3)
  note b = demo_bound [OF lo(2,3) r]
  show thesis
    by (rule that [of lo1 w1]) (simp_all add: b lo_ioctl_def no_out_def demo_bind [OF lo] r)
qed

lemma demo_dev0: "ix_devs demo_index 0 = Some (new_device demo_env 0)" "ix_devs demo_index 1 = Some (new_device demo_env 1)"
  by (simp_all add: demo_index_def put_dev_simps)

theorem driver_references_witness:
  "\<exists>ix lo. reach ix \<and> ix_devs ix 0 = Some lo \<and> lo_backing_file lo = Some 0 \<and> w_fref (ix_world ix) 0 = 1"
proof -
  obtain lo0 w1 where r0: "lo_ioctl demo_env False (0, 0) (LOOP_SET_FD 0 :: (64, 64) loop_info ioctl_cmd) (new_device demo_env 0)
      (ix_world demo_index) = Some (0, NoOut, unlock_ctl lo0, w1)" "lo_backing_file lo0 = Some 0" "w_devs w1 = ix_devs demo_index"
    using demo_set_fd by blast
  define lo1 where "lo1 = unlock_ctl lo0"
  have r: "lo_ioctl demo_env False (0, 0) (LOOP_SET_FD 0 :: (64, 64) loop_info ioctl_cmd) (new_device demo_env 0)
      (ix_world demo_index) = Some (0, NoOut, lo1, w1)" "lo_backing_file lo1 = Some 0" "w_devs w1 = ix_devs demo_index"
    using r0 by (simp_all add: lo1_def) (simp add: unlock_ctl_def)
  let ?ix = "put_dev 0 lo1 (demo_index\<lparr>ix_world := w1\<rparr>)"
  have ix: "reach ?ix" by (rule reach.ioctl [OF demo_reach demo_dev0(1) demo_tables _ r(1)]) simp
  have d: "ix_devs ?ix = [0 \<mapsto> lo1, 1 \<mapsto> new_device demo_env 1]"
    by (auto simp: put_dev_simps r demo_index_def empty_index_def)
  have "{i. \<exists>lo. ix_devs ?ix i = Some lo \<and> lo_backing_file lo = Some 0} = {0}"
    unfolding d using r(2) by (auto simp: new_device_def split: if_splits)
  with driver_references [OF ix, of 0 0] have "w_fref (ix_world ?ix) 0 = 1" by simp
  then show ?thesis using ix d r(2) by (intro exI [of _ ?ix] exI [of _ lo1]) simp
qed

theorem device_states_witness:
  "\<exists>ix lo. reach ix \<and> ix_devs ix 0 = Some lo \<and> lo_state lo = Lo_bound \<and> lo_backing_file lo = Some 0 \<and> lo_thread lo \<and>
     lo_device lo \<noteq> None \<and> lo_mutex lo = 0"
proof -
  obtain lo0 w1 where r: "lo_ioctl demo_env False (0, 0) (LOOP_SET_FD 0 :: (64, 64) loop_info ioctl_cmd) (new_device demo_env 0)
      (ix_world demo_index) = Some (0, NoOut, unlock_ctl lo0, w1)" "lo_backing_file lo0 = Some 0"
    using demo_set_fd by blast
  define lo where "lo = unlock_ctl lo0"
  have b: "lo_backing_file lo = Some 0" using r(2) by (simp add: lo_def unlock_ctl_def)
  let ?ix = "put_dev 0 lo (demo_index\<lparr>ix_world := w1\<rparr>)"
  have ix: "reach ?ix" by (rule reach.ioctl [OF demo_reach demo_dev0(1) demo_tables _ r(1) [folded lo_def]]) simp
  have d: "ix_devs ?ix 0 = Some lo" by (simp add: put_dev_simps)
  from device_states [OF ix d] ix d b show ?thesis by (intro exI [of _ ?ix] exI [of _ lo]) simp
qed

section \<open>Recursion between devices\<close>

text \<open>\<open>(i, j)\<close>: device \<open>i\<close> is bound to a node of device \<open>j\<close>.\<close>

definition backs :: "loop_env \<Rightarrow> (nat \<Rightarrow> loop_device option) \<Rightarrow> (nat \<times> nat) set" where
  "backs E devs = {(i, j). \<exists>lo f p. devs i = Some lo \<and> lo_backing_file lo = Some f \<and>
     f_kind (file_of E f) = BlkDev (Some (j, p))}"

text \<open>A device that the check of \<^verbatim>\<open>loop_set_fd\<close> passed through.\<close>

definition passed :: "loop_env \<Rightarrow> world \<Rightarrow> bdev \<Rightarrow> nat \<Rightarrow> bool" where
  "passed E w bdev j \<longleftrightarrow> (\<exists>f p. f_kind (file_of E f) = BlkDev (Some (j, p)) \<and> backing_chain E w bdev f = Some 0)"

lemma passed_bound:
  assumes "passed E w bdev j"
  shows "\<exists>l g. w_devs w j = Some l \<and> lo_state l \<noteq> Lo_unbound \<and> lo_backing_file l = Some g \<and> backing_chain E w bdev g = Some 0"
  using assms unfolding passed_def by (subst (asm) backing_chain.simps) (auto split: option.splits if_splits)

lemma passed_next: "passed E w bdev j \<Longrightarrow> (j, k) \<in> backs E (w_devs w) \<Longrightarrow> passed E w bdev k"
  using passed_bound [of E w bdev j] by (auto simp: backs_def passed_def)

lemma passed_reachable: "(j, k) \<in> (backs E (w_devs w))\<^sup>* \<Longrightarrow> passed E w bdev j \<Longrightarrow> passed E w bdev k"
  by (induction rule: rtrancl_induct) (auto intro: passed_next)

lemma backs_put:
  "backs E (devs(i \<mapsto> lo)) \<subseteq>
   backs E devs \<union> {(i, j) | j f p. lo_backing_file lo = Some f \<and> f_kind (file_of E f) = BlkDev (Some (j, p))}"
  by (auto simp: backs_def split: if_splits)

lemma loop_set_fd_cases:
  assumes "loop_set_fd E mw bdev arg lo w = Some (err, lo1, w1)"
  shows "err \<noteq> 0 \<and> lo1 = lo \<or> (\<exists>f. fget E arg = Some f \<and> lo_state lo = Lo_unbound \<and>
    backing_chain E (take_file f (module_get w)) bdev f = Some 0 \<and>
    (err, lo1, w1) = set_fd_thread E bdev f (fst (set_fd_fields E mw bdev f lo (take_file f (module_get w))))
      (snd (set_fd_fields E mw bdev f lo (take_file f (module_get w)))))"
  using assms by (auto simp: loop_set_fd_def Let_def case_prod_beta split: option.splits if_splits)

lemma set_fd_thread_backing:
  "(err, lo1, w1) = set_fd_thread E bdev f (fst (set_fd_fields E mw bdev f lo w)) w2 \<Longrightarrow>
   lo_backing_file lo1 = (if err = 0 then Some f else None) \<and> (err = 0 \<longleftrightarrow> kthread_err E = 0)"
  by (simp add: set_fd_thread_def set_fd_fields_def Let_def split: if_splits)

text \<open>C16. Binding a device never closes a cycle of devices: if no device is backed by itself through others, neither is
  one after \<^verbatim>\<open>LOOP_SET_FD\<close>, whatever the file and whatever the outcome.\<close>

theorem set_fd_no_recursion:
  assumes "index_ok ix" and "acyclic (backs E (ix_devs ix))" and "ix_devs ix i = Some lo"
    and "loop_set_fd E mw (i, p) arg lo (ix_world ix) = Some (err, lo1, w1)"
  shows "acyclic (backs E ((w_devs w1)(i \<mapsto> lo1)))"
proof -
  have dev: "dev_ok lo" by (rule index_okD(3) [OF assms(1,3)])
  have w1: "w_devs w1 = ix_devs ix" using loop_set_fd_keeps [OF dev assms(4)] by (simp add: keeps_def balanced_def)
  show ?thesis
  proof (cases "lo_backing_file lo1 = lo_backing_file lo")
    case True
    then have "backs E ((w_devs w1)(i \<mapsto> lo1)) \<subseteq> backs E (ix_devs ix)"
      using assms(3) by (fastforce simp: backs_def w1 split: if_splits)
    then show ?thesis using assms(2) by (rule acyclic_subset [rotated])
  next
    case False
    then obtain f where f: "lo_state lo = Lo_unbound"
        "backing_chain E (take_file f (module_get (ix_world ix))) (i, p) f = Some 0"
      and r: "(err, lo1, w1) = set_fd_thread E (i, p) f (fst (set_fd_fields E mw (i, p) f lo (take_file f (module_get (ix_world ix)))))
        (snd (set_fd_fields E mw (i, p) f lo (take_file f (module_get (ix_world ix)))))"
      using loop_set_fd_cases [OF assms(4)] by blast
    have bk: "lo_backing_file lo1 = Some f \<or> lo_backing_file lo1 = None"
      using set_fd_thread_backing [OF r] by (simp split: if_splits)
    let ?w = "take_file f (module_get (ix_world ix))"
    have w: "w_devs ?w = ix_devs ix" by (simp add: shared_simps)
    have none: "(j, i) \<notin> (backs E (ix_devs ix))\<^sup>*" if "f_kind (file_of E f) = BlkDev (Some (j, q))" for j q
      using passed_reachable [of j i E ?w "(i, p)"] passed_bound [of E ?w "(i, p)" i] that f assms(3)
      by (auto simp: passed_def w)
    have sub: "backs E ((w_devs w1)(i \<mapsto> lo1)) \<subseteq> insert (i, j) (backs E (ix_devs ix))"
      if "f_kind (file_of E f) = BlkDev (Some (j, q))" for j q
      using backs_put [of E "ix_devs ix" i lo1] that bk by (auto simp: w1)
    have sub': "backs E ((w_devs w1)(i \<mapsto> lo1)) \<subseteq> backs E (ix_devs ix)"
      if "\<not> (\<exists>j q. f_kind (file_of E f) = BlkDev (Some (j, q)))"
      using backs_put [of E "ix_devs ix" i lo1] that bk by (auto simp: w1)
    show ?thesis
    proof (cases "\<exists>j q. f_kind (file_of E f) = BlkDev (Some (j, q))")
      case True
      then obtain j q where kq: "f_kind (file_of E f) = BlkDev (Some (j, q))" by blast
      have "acyclic (insert (i, j) (backs E (ix_devs ix)))" using assms(2) none [OF kq] by (simp add: acyclic_insert)
      then show ?thesis using sub [OF kq] by (rule acyclic_subset)
    next
      case False
      then show ?thesis using acyclic_subset [OF assms(2) sub'] by blast
    qed
  qed
qed

text \<open>The node of a device stands for a device as long as a file is open on it.\<close>

definition nodes_exist :: "loop_env \<Rightarrow> (nat \<Rightarrow> loop_device option) \<Rightarrow> bool" where
  "nodes_exist E devs \<longleftrightarrow> (\<forall>f j p. f_kind (file_of E f) = BlkDev (Some (j, p)) \<longrightarrow> devs j \<noteq> None)"

lemma backing_chain_ends:
  assumes ok: "\<forall>i lo. w_devs w i = Some lo \<longrightarrow> dev_ok lo" and wf: "wf ((backs E (w_devs w))\<inverse>)" and ex: "nodes_exist E (w_devs w)"
  shows "\<exists>e. backing_chain E w bdev f = Some e"
proof -
  have "\<forall>f p. f_kind (file_of E f) = BlkDev (Some (j, p)) \<longrightarrow> (\<exists>e. backing_chain E w bdev f = Some e)" for j
  proof (induction j rule: wf_induct_rule [OF wf])
    case (1 j)
    show ?case
    proof (intro allI impI)
      fix f p assume k: "f_kind (file_of E f) = BlkDev (Some (j, p))"
      then obtain l where l: "w_devs w j = Some l" using ex by (auto simp: nodes_exist_def)
      have b: "lo_state l \<noteq> Lo_unbound \<Longrightarrow> \<exists>g. lo_backing_file l = Some g"
        using ok l by (cases "lo_state l") (auto simp: dev_ok_def)
      have g: "\<exists>e. backing_chain E w bdev g = Some e" if "lo_backing_file l = Some g" for g
      proof (cases "\<exists>k q. f_kind (file_of E g) = BlkDev (Some (k, q))")
        case True
        then obtain k q where kq: "f_kind (file_of E g) = BlkDev (Some (k, q))" by blast
        then have "(k, j) \<in> (backs E (w_devs w))\<inverse>" using l that by (auto simp: backs_def)
        with 1 kq show ?thesis by blast
      next
        case False
        then show ?thesis by (subst backing_chain.simps) (auto split: ikind.splits option.splits)
      qed
      show "\<exists>e. backing_chain E w bdev f = Some e"
        using k l b g by (subst backing_chain.simps) (auto split: option.splits)
    qed
  qed
  then show ?thesis
    by (cases "\<exists>j q. f_kind (file_of E f) = BlkDev (Some (j, q))")
      (blast, subst backing_chain.simps, auto split: ikind.splits option.splits)
qed

lemma ex_triple: "\<exists>a b c. x = (a, b, c)"
  by (cases x) auto

text \<open>C17. As long as no cycle exists, the walk along the backing files ends and \<^verbatim>\<open>LOOP_SET_FD\<close> returns.\<close>

theorem set_fd_returns:
  assumes "index_ok ix" and "acyclic (backs E (ix_devs ix))" and "nodes_exist E (ix_devs ix)"
  shows "loop_set_fd E mw bdev arg lo (ix_world ix) \<noteq> None"
proof -
  let ?B = "backs E (ix_devs ix)"
  have "?B \<subseteq> dom (ix_devs ix) \<times> dom (ix_devs ix)" using assms(3) by (auto simp: backs_def nodes_exist_def)
  then have "finite ?B" using index_okD(2) [OF assms(1)] by (meson finite_SigmaI finite_subset)
  then have wf: "wf (?B\<inverse>)" using assms(2) by (simp add: finite_acyclic_wf_converse)
  have e: "\<exists>e. backing_chain E (take_file f (module_get (ix_world ix))) bdev f = Some e" for f
    by (rule backing_chain_ends)
      (use wf assms(3) index_okD(3) [OF assms(1)] in \<open>auto simp: shared_simps\<close>)
  show ?thesis
  proof (cases "fget E arg")
    case (Some f)
    then show ?thesis using e [of f] by (auto simp: loop_set_fd_def Let_def case_prod_beta ex_triple)
  qed (simp add: loop_set_fd_def)
qed

text \<open>A device bound to its own node: the walk from that node never ends.\<close>

lemma backing_chain_stuck:
  assumes "f_kind (file_of E f) = BlkDev (Some (j, p))" and "(j, p) \<noteq> bdev" and "w_devs w j = Some l"
    and "lo_state l = Lo_bound" and "lo_backing_file l = Some f"
  shows "backing_chain E w bdev f = None"
proof -
  have "(E0, w0, bdev0, f0) \<noteq> (E, w, bdev, f)" if "backing_chain E0 w0 bdev0 f0 = Some y" for E0 w0 bdev0 f0 y
    using that by (rule backing_chain.raw_induct [rotated]) (use assms in \<open>fastforce split: if_splits\<close>)
  then show ?thesis by (metis not_Some_eq)
qed

text \<open>C18. \<^verbatim>\<open>LOOP_CHANGE_FD\<close> has no such check: a read-only device takes its own node as backing file when the sizes
  agree, and from then on \<^verbatim>\<open>LOOP_SET_FD\<close> of any other device on that node does not return.\<close>

theorem change_fd_recursion:
  assumes lo: "ix_devs ix j = Some lo" "dev_ok lo" "lo_state lo = Lo_bound" "lo_flags lo AND LO_FLAGS_READ_ONLY \<noteq> 0"
    and f: "fget E arg = Some f" "f_kind (file_of E f) = BlkDev (Some (j, p))"
    and sz: "get_loop_size E (ix_world ix) lo f = get_loop_size E (ix_world ix) lo (the (lo_backing_file lo))"
    and sw: "switch_bio_ok E"
  shows "\<exists>lo1 w1. loop_change_fd E bdev arg lo (ix_world ix) = (0, lo1, w1) \<and> lo_backing_file lo1 = Some f \<and>
    (\<forall>i q mw lo2. i \<noteq> j \<longrightarrow> lo_state lo2 = Lo_unbound \<longrightarrow>
       loop_set_fd E mw (i, q) arg lo2 (ix_world (put_dev j lo1 (ix\<lparr>ix_world := w1\<rparr>))) = None)"
proof -
  have sz': "get_loop_size E (take_file f (ix_world ix)) lo g = get_loop_size E (ix_world ix) lo g" for g
    by (simp add: get_loop_size_def i_size_read_def shared_simps split: ikind.split option.split)
  obtain lo1 w1 where c: "loop_change_fd E bdev arg lo (ix_world ix) = (0, lo1, w1)"
    and lo1: "lo_backing_file lo1 = Some f" "lo_state lo1 = Lo_bound"
    using lo f sz sw sz' by (fastforce simp: loop_change_fd_def change_backing_def loop_switch_def do_loop_switch_def
        reg_or_blk_def Let_def)
  have "loop_set_fd E mw (i, q) arg lo2 (ix_world (put_dev j lo1 (ix\<lparr>ix_world := w1\<rparr>))) = None"
    if "i \<noteq> j" "lo_state lo2 = Lo_unbound" for i q mw lo2
    using that f lo1 backing_chain_stuck [OF f(2), of "(i, q)" _ lo1]
    by (simp add: loop_set_fd_def Let_def shared_simps put_dev_def)
  then show ?thesis using c lo1 by blast
qed

lemma demo_backs: "backs demo_env (ix_devs demo_index) = {}"
  by (auto simp: backs_def demo_index_def put_dev_simps new_device_def empty_index_def split: if_splits)

lemma demo_acyclic: "acyclic (backs demo_env (ix_devs demo_index))"
  by (simp add: demo_backs acyclic_def)

lemma demo_index_ok: "index_ok demo_index"
  by (rule reach_ok [OF demo_reach])

lemma demo_set_fd0:
  obtains lo1 w1 where "loop_set_fd demo_env False (0, 0) 0 (new_device demo_env 0) (ix_world demo_index) = Some (0, lo1, w1)"
proof -
  let ?lo = "new_device demo_env 0" and ?w = "ix_world demo_index"
  have lo: "lo_state ?lo = Lo_unbound" "lo_offset ?lo = 0" "lo_sizelimit ?lo = 0" by (simp_all add: new_device_def)
  obtain e lo1 w1 where r: "set_fd_thread demo_env (0, 0) 0 (fst (set_fd_fields demo_env False (0, 0) 0 ?lo (take_file 0 (module_get ?w))))
      (snd (set_fd_fields demo_env False (0, 0) 0 ?lo (take_file 0 (module_get ?w)))) = (e, lo1, w1)"
    by (metis prod_cases3)
  then show thesis using that demo_bind [OF lo, of ?w] demo_bound(1) [OF lo(2,3) r] by simp
qed

theorem set_fd_no_recursion_witness:
  "\<exists>lo1 w1. loop_set_fd demo_env False (0, 0) 0 (new_device demo_env 0) (ix_world demo_index) = Some (0, lo1, w1) \<and>
     acyclic (backs demo_env ((w_devs w1)(0 \<mapsto> lo1)))"
proof -
  obtain lo1 w1 where r: "loop_set_fd demo_env False (0, 0) 0 (new_device demo_env 0) (ix_world demo_index) = Some (0, lo1, w1)"
    by (rule demo_set_fd0)
  from set_fd_no_recursion [OF demo_index_ok demo_acyclic demo_dev0(1) r] r show ?thesis by blast
qed

theorem set_fd_returns_witness:
  "loop_set_fd demo_env False (1, 0) 1 (new_device demo_env 1) (ix_world demo_index) \<noteq> None"
  by (rule set_fd_returns [OF demo_index_ok demo_acyclic])
    (auto simp: nodes_exist_def demo_env_def reg_file_def demo_dev0 [unfolded demo_env_def] split: if_splits)

theorem change_fd_recursion_witness:
  "\<exists>ix lo lo1 w1. reach ix \<and> ix_devs ix 0 = Some lo \<and> loop_change_fd demo_env (0, 0) 1 lo (ix_world ix) = (0, lo1, w1) \<and>
     loop_set_fd demo_env False (1, 0) 1 (new_device demo_env 1) (ix_world (put_dev 0 lo1 (ix\<lparr>ix_world := w1\<rparr>))) = None"
proof -
  obtain lo0 w where r0: "lo_ioctl demo_env False (0, 0) (LOOP_SET_FD 0 :: (64, 64) loop_info ioctl_cmd) (new_device demo_env 0)
      (ix_world demo_index) = Some (0, NoOut, unlock_ctl lo0, w)" "lo_backing_file lo0 = Some 0" "lo_state lo0 = Lo_bound"
      "lo_flags lo0 = LO_FLAGS_READ_ONLY" "w_bd_size w (0, 0) = 1048576" "lo_offset lo0 = 0" "lo_sizelimit lo0 = 0"
    using demo_set_fd by blast
  define lo where "lo = unlock_ctl lo0"
  have r: "lo_backing_file lo = Some 0" "lo_state lo = Lo_bound" "lo_flags lo = LO_FLAGS_READ_ONLY" "lo_offset lo = 0"
      "lo_sizelimit lo = 0" using r0 by (simp_all add: lo_def unlock_ctl_def)
  let ?ix = "put_dev 0 lo (demo_index\<lparr>ix_world := w\<rparr>)"
  have ix: "reach ?ix" by (rule reach.ioctl [OF demo_reach demo_dev0(1) demo_tables _ r0(1) [folded lo_def]]) simp
  have d: "ix_devs ?ix 0 = Some lo" by (simp add: put_dev_simps)
  have "\<exists>lo1 w1. loop_change_fd demo_env (0, 0) 1 lo (ix_world ?ix) = (0, lo1, w1) \<and> lo_backing_file lo1 = Some 1 \<and>
      (\<forall>i q mw lo2. i \<noteq> 0 \<longrightarrow> lo_state lo2 = Lo_unbound \<longrightarrow>
        loop_set_fd demo_env mw (i, q) 1 lo2 (ix_world (put_dev 0 lo1 (?ix\<lparr>ix_world := w1\<rparr>))) = None)"
    by (rule change_fd_recursion [OF d index_okD(3) [OF reach_ok [OF ix] d]])
      (use r r0(5) in \<open>simp_all add: demo_env_def reg_file_def get_loop_size_def i_size_read_def put_dev_def LO_FLAGS_READ_ONLY_def\<close>)
  then obtain lo1 w1 where c: "loop_change_fd demo_env (0, 0) 1 lo (ix_world ?ix) = (0, lo1, w1)"
    and n: "\<And>i q mw lo2. i \<noteq> 0 \<Longrightarrow> lo_state lo2 = Lo_unbound \<Longrightarrow>
      loop_set_fd demo_env mw (i, q) 1 lo2 (ix_world (put_dev 0 lo1 (?ix\<lparr>ix_world := w1\<rparr>))) = None" by blast
  have "lo_state (new_device demo_env 1) = Lo_unbound" by (simp add: new_device_def)
  from n [OF _ this, of 1] ix d c show ?thesis by (intro exI [of _ ?ix] exI [of _ lo] exI [of _ lo1] exI [of _ w1]) simp
qed

section \<open>Size and binding\<close>

text \<open>C19. The size of a device in sectors, for every offset and limit: it is never negative; a device that is not empty ends
  within the backing file, and within the limit when one is set; with an offset that is not negative it is not larger than
  the file; and it is not empty when a sector fits behind the offset and the distance does not overflow.\<close>

theorem get_size_bounds:
  assumes "- (2 ^ 63) \<le> offset" and "offset < 2 ^ 63" and "0 \<le> fsize" and "fsize < 2 ^ 63"
  shows "0 \<le> get_size offset limit fsize \<and>
    (0 < get_size offset limit fsize \<longrightarrow> offset + get_size offset limit fsize * 512 \<le> fsize) \<and>
    get_size offset limit fsize * 512 \<le> max 0 (fsize - offset) \<and>
    (0 \<le> offset \<longrightarrow> get_size offset limit fsize * 512 \<le> fsize) \<and>
    (0 < limit \<longrightarrow> get_size offset limit fsize * 512 \<le> limit) \<and>
    (offset + 512 \<le> fsize \<and> fsize - offset < 2 ^ 63 \<and> (limit \<le> 0 \<or> 512 \<le> limit) \<longrightarrow> 0 < get_size offset limit fsize)"
proof (cases "fsize < offset \<or> 2 ^ 63 \<le> fsize - offset")
  case True
  have "loff (fsize - offset) < 0"
  proof (cases "fsize < offset")
    case True
    then have "loff (fsize - offset) = fsize - offset"
      unfolding loff_def using assms by (intro signed_take_bit_int_eq_self) auto
    then show ?thesis using True by simp
  next
    case False
    then have "2 ^ 63 \<le> fsize - offset" and "fsize - offset - 2 ^ 64 < 0" using True assms by auto
    moreover have "loff (fsize - offset) = loff (fsize - offset - 2 ^ 64)"
      unfolding loff_def signed_take_bit_eq_iff_take_bit_eq by (simp add: take_bit_eq_mod)
    moreover have "loff (fsize - offset - 2 ^ 64) = fsize - offset - 2 ^ 64"
      unfolding loff_def using calculation(1,2) by (intro signed_take_bit_int_eq_self) auto
    ultimately show ?thesis by simp
  qed
  then have "get_size offset limit fsize = 0" by (simp add: get_size_def)
  then show ?thesis using True assms(3) by auto
next
  case False
  then have l: "loff (fsize - offset) = fsize - offset"
    unfolding loff_def by (intro signed_take_bit_int_eq_self) auto
  define x where "x = (if 0 < limit \<and> limit < fsize - offset then limit else fsize - offset)"
  have g: "get_size offset limit fsize = x div 512" using False l by (simp add: get_size_def x_def Let_def)
  have x: "0 \<le> x" "x \<le> fsize - offset" "0 < limit \<longrightarrow> x \<le> limit"
      "offset + 512 \<le> fsize \<and> (limit \<le> 0 \<or> 512 \<le> limit) \<longrightarrow> 512 \<le> x"
    using False by (auto simp: x_def)
  have d: "x div 512 * 512 \<le> x" "0 \<le> x div 512" "512 \<le> x \<longrightarrow> 0 < x div 512"
    using div_mult_mod_eq [of x 512] pos_mod_sign [of 512 x] x(1) by (simp_all add: pos_imp_zdiv_pos_iff)
  define y where "y = x div 512"
  show ?thesis unfolding g using d x False unfolding y_def [symmetric] by (simp add: max_def) linarith
qed

theorem get_size_bounds_witness:
  "0 < get_size 4096 0 1048576 \<and> get_size 4096 0 1048576 * 512 \<le> 1048576 - 4096"
  using get_size_bounds [of 4096 1048576 0] by simp

text \<open>\<^verbatim>\<open>LOOP_SET_STATUS\<close> takes any offset.  With a negative one the device is larger than its file.\<close>

theorem get_size_negative:
  assumes "0 < k" and "0 \<le> fsize" and "fsize + k < 2 ^ 63"
  shows "get_size (- k) 0 fsize = (fsize + k) div 512"
proof -
  have "loff (fsize + k) = fsize + k" unfolding loff_def using assms by (intro signed_take_bit_int_eq_self) auto
  then show ?thesis using assms by (simp add: get_size_def)
qed

theorem get_size_negative_witness: "get_size (- 1048576) 0 1048576 * 512 = 2097152"
  using get_size_negative [of 1048576 1048576] by simp

text \<open>C20. Clearing undoes binding: a device that \<^verbatim>\<open>LOOP_SET_FD\<close> bound and that only its owner has open is unbound
  again by \<^verbatim>\<open>LOOP_CLR_FD\<close>, the allocation mask of the file, the file and module references are what they were,
  and the device has no size, offset, key, name or transfer left.\<close>

theorem set_fd_clr_fd:
  assumes "dev_ok lo" and "loop_set_fd E mw bdev arg lo w = Some (0, lo1, w1)" and "lo_refcnt lo \<le> 1"
  shows "\<exists>lo2 w2. loop_clr_fd E lo1 w1 = (0, lo2, w2) \<and> w_gfp w2 = w_gfp w \<and> w_fref w2 = w_fref w \<and> w_modref w2 = w_modref w \<and>
    w_xref w2 = w_xref w \<and> w_bd_size w2 bdev = 0 \<and> lo_state lo2 = Lo_unbound \<and> lo_capacity lo2 = 0 \<and> lo_offset lo2 = 0 \<and>
    lo_encrypt_key lo2 = zeros LO_KEY_SIZE \<and> lo_file_name lo2 = zeros LO_NAME_SIZE \<and> transfer lo2 = None \<and> lo_device lo2 = None"
proof -
  from loop_set_fd_cases [OF assms(2)] obtain f where f: "fget E arg = Some f" "lo_state lo = Lo_unbound"
    and r: "(0, lo1, w1) = set_fd_thread E bdev f (fst (set_fd_fields E mw bdev f lo (take_file f (module_get w))))
      (snd (set_fd_fields E mw bdev f lo (take_file f (module_get w))))"
    by auto
  have e: "kthread_err E = 0" using set_fd_thread_backing [OF r] by simp
  have n: "lo_encryption lo = None" using dev_ok_unbound [OF assms(1) f(2)] by simp
  have w1: "w_gfp w1 = (w_gfp w)(f_inode (file_of E f) := mapping_gfp_mask E f w AND NOT GFP_IO_FS)"
      "w_fref w1 = (w_fref w)(f := w_fref w f + 1)" "w_modref w1 = w_modref w + 1" "w_xref w1 = w_xref w"
    and lo1: "lo_state lo1 = Lo_bound" "lo_backing_file lo1 = Some f" "lo_device lo1 = Some bdev" "lo_encryption lo1 = None"
      "lo_refcnt lo1 = lo_refcnt lo" "old_gfp_mask lo1 = mapping_gfp_mask E f w"
    using n set_fd_thread_sel [OF e r [symmetric]]
    by (simp_all add: set_fd_fields_sel set_fd_fields_world) (simp_all add: shared_simps mapping_gfp_mask_def)
  have rel: "loop_release_xfer E (lo1\<lparr>lo_state := Lo_rundown, lo_thread := False, lo_backing_file := None\<rparr>) w1 =
      (0, lo1\<lparr>lo_state := Lo_rundown, lo_thread := False, lo_backing_file := None\<rparr>, w1)"
    using lo1 by (simp add: loop_release_xfer_def)
  show ?thesis
    using lo1 w1 assms(3) rel by (simp add: loop_clr_fd_def Let_def clear_fields_sel shared_simps mapping_gfp_mask_def)
qed

theorem set_fd_clr_fd_witness:
  "\<exists>lo1 w1 lo2 w2. loop_set_fd demo_env False (0, 0) 0 (new_device demo_env 0) (ix_world demo_index) = Some (0, lo1, w1) \<and>
     loop_clr_fd demo_env lo1 w1 = (0, lo2, w2) \<and> w_fref w2 0 = w_fref (ix_world demo_index) 0"
proof -
  obtain lo1 w1 where r: "loop_set_fd demo_env False (0, 0) 0 (new_device demo_env 0) (ix_world demo_index) = Some (0, lo1, w1)"
    by (rule demo_set_fd0)
  have "lo_refcnt (new_device demo_env 0) \<le> 1" by (simp add: new_device_def)
  from set_fd_clr_fd [OF index_okD(3) [OF demo_index_ok demo_dev0(1)] r this] r show ?thesis by metis
qed

end
