(* ===== verification/Loop_Status.thy ===== *)
theory Loop_Status
  imports Loop_Control
begin

text \<open>
  Properties of the status ioctls and of the control device: what is reported after it was set, what a refused status
  leaves behind, which callers are refused, and which devices exist after an operation of the control device.
\<close>

section \<open>Status\<close>

text \<open>The numbers under which the transfer modules are registered.\<close>

definition numbered :: "loop_env \<Rightarrow> world \<Rightarrow> bool" where
  "numbered E w \<longleftrightarrow> (\<forall>n x. w_xfer w n = Some x \<longrightarrow> (word_of_int (xt_number (tables E x)) :: u32) = of_nat n)"

lemma find_xfer_error: "find_xfer w t = Inl e \<Longrightarrow> e = - EINVAL"
  by (auto simp: find_xfer_def split: if_splits option.splits)

lemma status_stages:
  assumes "loop_set_status E info lo w = (0, lo1, w1)"
  obtains lo2 w2 lo3 w3 xfer where "loop_release_xfer E lo w = (0, lo2, w2)" "find_xfer w2 (i64_encrypt_type info) = Inr xfer"
    "loop_init_xfer E xfer info lo2 w2 = (0, lo3, w3)" "status_apply E xfer info lo3 w3 = (0, lo1, w1)" "lo_state lo = Lo_bound"
    "unat (i64_encrypt_key_size info) \<le> LO_KEY_SIZE"
proof -
  from assms obtain lo2 w2 where r: "loop_release_xfer E lo w = (0, lo2, w2)" and s: "status_xfer E info lo2 w2 = (0, lo1, w1)"
    and b: "lo_state lo = Lo_bound" "unat (i64_encrypt_key_size info) \<le> LO_KEY_SIZE"
    by (auto simp: loop_set_status_def split: if_splits prod.splits)
  from s obtain xfer lo3 w3 where "find_xfer w2 (i64_encrypt_type info) = Inr xfer" "loop_init_xfer E xfer info lo2 w2 = (0, lo3, w3)"
    "status_apply E xfer info lo3 w3 = (0, lo1, w1)"
    using find_xfer_error [of w2 "i64_encrypt_type info" 0]
    by (auto simp: status_xfer_def split: if_splits prod.splits sum.splits)
  then show thesis using that r b by blast
qed

lemma find_xfer_number:
  assumes "numbered E w" and "find_xfer w t = Inr xfer"
  shows "(case xfer of None \<Rightarrow> 0 | Some x \<Rightarrow> word_of_int (xt_number (tables E x))) = t"
proof (cases "t = 0")
  case True
  then show ?thesis using assms(2) by (simp add: find_xfer_def)
next
  case False
  then obtain x where "w_xfer w (unat t) = Some x" "xfer = Some x"
    using assms(2) by (cases "w_xfer w (unat t)") (simp_all add: find_xfer_def split: if_splits)
  then show ?thesis using assms(1) by (simp add: numbered_def)
qed

lemma config_discard_fields:
  "lo_state (loop_config_discard E lo) = lo_state lo" "lo_offset (loop_config_discard E lo) = lo_offset lo"
  "lo_sizelimit (loop_config_discard E lo) = lo_sizelimit lo" "lo_encryption (loop_config_discard E lo) = lo_encryption lo"
  "lo_backing_file (loop_config_discard E lo) = lo_backing_file lo" "lo_encrypt_key (loop_config_discard E lo) = lo_encrypt_key lo"
  by (simp_all add: loop_config_discard_def Let_def)

lemma status_fields_proj:
  assumes "status_fields E xfer info lo w = (lo1, w1)"
  shows "lo_state lo1 = lo_state lo" "lo_backing_file lo1 = lo_backing_file lo" "lo_encryption lo1 = lo_encryption lo"
    "lo_offset lo1 = lo_offset lo" "lo_sizelimit lo1 = lo_sizelimit lo"
    "lo_file_name lo1 = (i64_file_name info)[LO_NAME_SIZE - 1 := 0]" "lo_encrypt_key_size lo1 = int (unat (i64_encrypt_key_size info))"
    "0 < unat (i64_encrypt_key_size info) \<Longrightarrow> lo_encrypt_key lo1 = take (unat (i64_encrypt_key_size info)) (i64_encrypt_key info) @
      drop (unat (i64_encrypt_key_size info)) (lo_encrypt_key lo)"
proof -
  have lo1: "lo1 = fst (status_fields E xfer info lo w)" using assms by simp
  show "lo_state lo1 = lo_state lo" "lo_backing_file lo1 = lo_backing_file lo" "lo_encryption lo1 = lo_encryption lo"
    "lo_offset lo1 = lo_offset lo" "lo_sizelimit lo1 = lo_sizelimit lo"
    "lo_file_name lo1 = (i64_file_name info)[LO_NAME_SIZE - 1 := 0]" "lo_encrypt_key_size lo1 = int (unat (i64_encrypt_key_size info))"
    "0 < unat (i64_encrypt_key_size info) \<Longrightarrow> lo_encrypt_key lo1 = take (unat (i64_encrypt_key_size info)) (i64_encrypt_key info) @
      drop (unat (i64_encrypt_key_size info)) (lo_encrypt_key lo)"
    unfolding lo1 status_fields_def Let_def fst_conv by simp_all
qed

lemma status_size_fields:
  assumes "(if word_of_int (lo_offset lo) \<noteq> i64_offset info \<or> word_of_int (lo_sizelimit lo) \<noteq> i64_sizelimit info
      then figure_loop_size E w (sint (i64_offset info)) (sint (i64_sizelimit info)) lo else (0, lo)) = (0, lo1)"
  shows "lo_state lo1 = lo_state lo" "lo_backing_file lo1 = lo_backing_file lo" "lo_encryption lo1 = lo_encryption lo"
    "word_of_int (lo_offset lo1) = i64_offset info" "word_of_int (lo_sizelimit lo1) = i64_sizelimit info"
  using assms by (auto simp: figure_loop_size_def Let_def split: if_splits)

lemma status_apply_fields:
  assumes "status_apply E xfer info lo w = (0, lo1, w1)"
  shows "lo_state lo1 = lo_state lo" "lo_backing_file lo1 = lo_backing_file lo" "lo_encryption lo1 = lo_encryption lo"
    "word_of_int (lo_offset lo1) = i64_offset info" "word_of_int (lo_sizelimit lo1) = i64_sizelimit info"
    "lo_file_name lo1 = (i64_file_name info)[LO_NAME_SIZE - 1 := 0]" "lo_encrypt_key_size lo1 = int (unat (i64_encrypt_key_size info))"
    "0 < unat (i64_encrypt_key_size info) \<Longrightarrow> unat (i64_encrypt_key_size info) \<le> length (i64_encrypt_key info) \<Longrightarrow>
      take (unat (i64_encrypt_key_size info)) (lo_encrypt_key lo1) = take (unat (i64_encrypt_key_size info)) (i64_encrypt_key info)"
proof -
  define r where "r = (if word_of_int (lo_offset lo) \<noteq> i64_offset info \<or> word_of_int (lo_sizelimit lo) \<noteq> i64_sizelimit info
    then figure_loop_size E w (sint (i64_offset info)) (sint (i64_sizelimit info)) lo else (0, lo))"
  obtain e lo0 where r': "r = (e, lo0)" by (cases r) auto
  have e: "e = 0" and s: "status_fields E xfer info (loop_config_discard E lo0) w = (lo1, w1)"
    using assms unfolding status_apply_def r_def [symmetric] by (auto simp: r' split: if_splits)
  note z = status_size_fields [OF r' [unfolded r_def e]] and p = status_fields_proj [OF s]
  show "lo_state lo1 = lo_state lo" "lo_backing_file lo1 = lo_backing_file lo" "lo_encryption lo1 = lo_encryption lo"
    "word_of_int (lo_offset lo1) = i64_offset info" "word_of_int (lo_sizelimit lo1) = i64_sizelimit info"
    "lo_file_name lo1 = (i64_file_name info)[LO_NAME_SIZE - 1 := 0]" "lo_encrypt_key_size lo1 = int (unat (i64_encrypt_key_size info))"
    using p z by (simp_all add: config_discard_fields)
  show "take (unat (i64_encrypt_key_size info)) (lo_encrypt_key lo1) = take (unat (i64_encrypt_key_size info)) (i64_encrypt_key info)"
    if "0 < unat (i64_encrypt_key_size info)" "unat (i64_encrypt_key_size info) \<le> length (i64_encrypt_key info)"
    using p(8) [OF that(1)] that(2) by simp
qed

lemma get_status_fields:
  assumes "lo_state lo = Lo_bound" and "vfs_getattr E (the (lo_backing_file lo)) = (0, st)"
  obtains i where "loop_get_status E lo = (0, Some i)" "i64_offset i = word_of_int (lo_offset lo)"
    "i64_sizelimit i = word_of_int (lo_sizelimit lo)" "i64_file_name i = lo_file_name lo"
    "i64_encrypt_type i = (case lo_encryption lo of None \<Rightarrow> 0 | Some x \<Rightarrow> word_of_int (xt_number (tables E x)))"
    "cap_sys_admin E \<Longrightarrow> i64_encrypt_key_size i = word_of_int (lo_encrypt_key_size lo)"
    "cap_sys_admin E \<Longrightarrow> lo_encrypt_key_size lo \<noteq> 0 \<Longrightarrow> i64_encrypt_key i =
      take (nat (lo_encrypt_key_size lo)) (lo_encrypt_key lo) @ zeros (LO_KEY_SIZE - nat (lo_encrypt_key_size lo))"
  using assms by (simp add: loop_get_status_def Let_def)

lemma release_xfer_table: "loop_release_xfer E lo w = (err, lo1, w1) \<Longrightarrow> w_xfer w1 = w_xfer w"
  using loop_release_xfer_ok(1) by (simp add: balanced_def)

text \<open>C21. A status that \<^verbatim>\<open>LOOP_SET_STATUS64\<close> accepted is what \<^verbatim>\<open>LOOP_GET_STATUS64\<close> reports: offset, size limit,
  transfer, name up to its last byte, and to a privileged caller the size and the bytes of the key.\<close>

theorem status_roundtrip:
  assumes "loop_set_status E info lo w = (0, lo1, w1)" and "vfs_getattr E (the (lo_backing_file lo)) = (0, st)"
    and "numbered E w" and "info_ok info"
  shows "\<exists>i. loop_get_status E lo1 = (0, Some i) \<and> i64_offset i = i64_offset info \<and> i64_sizelimit i = i64_sizelimit info \<and>
    i64_encrypt_type i = i64_encrypt_type info \<and> butlast (i64_file_name i) = butlast (i64_file_name info) \<and>
    (cap_sys_admin E \<longrightarrow> i64_encrypt_key_size i = i64_encrypt_key_size info \<and>
      take (unat (i64_encrypt_key_size info)) (i64_encrypt_key i) = take (unat (i64_encrypt_key_size info)) (i64_encrypt_key info))"
proof -
  let ?n = "unat (i64_encrypt_key_size info)"
  obtain lo2 w2 lo3 w3 xfer where s: "loop_release_xfer E lo w = (0, lo2, w2)"
    "find_xfer w2 (i64_encrypt_type info) = Inr xfer" "loop_init_xfer E xfer info lo2 w2 = (0, lo3, w3)"
    "status_apply E xfer info lo3 w3 = (0, lo1, w1)" "lo_state lo = Lo_bound" "?n \<le> LO_KEY_SIZE"
    by (rule status_stages [OF assms(1)])
  note r = loop_release_xfer_ok [OF s(1)] and n = loop_init_xfer_ok [OF s(3) loop_release_xfer_ok(2) [OF s(1)]]
    and f = status_apply_fields [OF s(4)]
  have lo3: "lo_state lo3 = Lo_bound" "lo_backing_file lo3 = lo_backing_file lo" "lo_encryption lo3 = xfer"
    unfolding n(3) using r(4,5) s(5) by simp_all
  have lo1: "lo_state lo1 = Lo_bound" "vfs_getattr E (the (lo_backing_file lo1)) = (0, st)"
    using f(1,2) lo3 assms(2) by simp_all
  obtain i where i: "loop_get_status E lo1 = (0, Some i)" "i64_offset i = word_of_int (lo_offset lo1)"
    "i64_sizelimit i = word_of_int (lo_sizelimit lo1)" "i64_file_name i = lo_file_name lo1"
    "i64_encrypt_type i = (case lo_encryption lo1 of None \<Rightarrow> 0 | Some x \<Rightarrow> word_of_int (xt_number (tables E x)))"
    "cap_sys_admin E \<Longrightarrow> i64_encrypt_key_size i = word_of_int (lo_encrypt_key_size lo1)"
    "cap_sys_admin E \<Longrightarrow> lo_encrypt_key_size lo1 \<noteq> 0 \<Longrightarrow> i64_encrypt_key i =
      take (nat (lo_encrypt_key_size lo1)) (lo_encrypt_key lo1) @ zeros (LO_KEY_SIZE - nat (lo_encrypt_key_size lo1))"
    by (rule get_status_fields [OF lo1]) blast
  have t: "i64_encrypt_type i = i64_encrypt_type info"
    using find_xfer_number [of E w2 "i64_encrypt_type info" xfer] s(2) assms(3) release_xfer_table [OF s(1)]
    by (simp add: numbered_def i(5) f(3) lo3(3))
  have nm: "butlast (i64_file_name i) = butlast (i64_file_name info)"
    using assms(4) by (simp add: i(4) f(6) info_ok_def butlast_list_update LO_NAME_SIZE_def)
  have sz: "i64_encrypt_key_size i = i64_encrypt_key_size info" if "cap_sys_admin E"
    by (simp add: i(6) [OF that] f(7))
  have key: "take ?n (i64_encrypt_key i) = take ?n (i64_encrypt_key info)" if "cap_sys_admin E"
  proof (cases "?n = 0")
    case False
    then have p: "0 < ?n" "?n \<le> length (i64_encrypt_key info)" using assms(4) s(6) by (simp_all add: info_ok_def)
    have "lo_encrypt_key_size lo1 \<noteq> 0" unfolding f(7) of_nat_eq_0_iff using False .
    then have "i64_encrypt_key i = take ?n (lo_encrypt_key lo1) @ zeros (LO_KEY_SIZE - ?n)" using i(7) [OF that] f(7) by simp
    with f(8) [OF p] p(2) show ?thesis by simp
  qed simp
  show ?thesis using i(1-3) f(4,5) t nm sz key by metis
qed

definition demo_status :: loop_info64 where
  "demo_status = \<lparr>i64_device = 0, i64_inode = 0, i64_rdevice = 0, i64_offset = 4096, i64_sizelimit = 0, i64_number = 0,
     i64_encrypt_type = 1, i64_encrypt_key_size = 4, i64_flags = 0, i64_file_name = zeros LO_NAME_SIZE,
     i64_crypt_name = zeros LO_NAME_SIZE, i64_encrypt_key = [1, 2, 3, 4] @ zeros 28, i64_init = (0, 0)\<rparr>"

definition demo_dev :: loop_device where
  "demo_dev = (new_device demo_env 0)\<lparr>lo_state := Lo_bound, lo_backing_file := Some 0, lo_device := Some (0, 0)\<rparr>"

lemma demo_dev_sel:
  "lo_state demo_dev = Lo_bound" "lo_backing_file demo_dev = Some 0" "lo_encryption demo_dev = None" "lo_offset demo_dev = 0"
  "lo_encrypt_key_size demo_dev = 0" "transfer demo_dev = None"
  by (simp_all add: demo_dev_def new_device_def)

lemma demo_xfer: "w_xfer (ix_world demo_index) = xfer_funcs" "vfs_getattr demo_env f = (0, \<lparr>st_dev = 1, st_ino = 2, st_rdev = 3\<rparr>)"
  "tables demo_env 1 = xor_funcs"
  by (simp_all add: demo_index_def put_dev_simps empty_index_def demo_env_def)

lemma demo_numbered: "numbered demo_env (ix_world demo_index)"
  by (auto simp: numbered_def demo_xfer xfer_funcs_def demo_env_def none_funcs_def xor_funcs_def split: if_splits)

lemma demo_size: "figure_loop_size demo_env w 4096 0 lo = (0, lo\<lparr>lo_offset := 4096, lo_sizelimit := 0, lo_capacity := 2040\<rparr>)"
  if "lo_backing_file lo = Some 0"
proof -
  have "i_size_read demo_env w 0 = 1048576" "sector_cast demo_env 2040 = 2040"
    by (simp_all add: i_size_read_def demo_env_def reg_file_def sector_cast_def)
  moreover have "get_size 4096 0 1048576 = 2040"
    by (simp add: get_size_def loff_def signed_take_bit_int_eq_self_iff Let_def)
  ultimately show ?thesis using that by (simp add: figure_loop_size_def)
qed

lemma demo_set_status:
  obtains lo1 w1 where "loop_set_status demo_env demo_status demo_dev (ix_world demo_index) = (0, lo1, w1)"
proof -
  have i: "loop_init_xfer demo_env (Some 1) demo_status demo_dev w = (0, demo_dev\<lparr>lo_encryption := Some 1\<rparr>,
      w\<lparr>w_xref := (w_xref w)(1 := w_xref w 1 + 1)\<rparr>)" for w
    by (simp add: loop_init_xfer_def demo_xfer xor_funcs_def xor_init_def demo_status_def del: One_nat_def)
  have f: "find_xfer (ix_world demo_index) 1 = Inr (Some 1)"
    by (simp add: find_xfer_def MAX_LO_CRYPT_def demo_xfer xfer_funcs_def)
  have a: "\<exists>lo1 w1. status_apply demo_env (Some 1) demo_status lo w = (0, lo1, w1)" if "lo_backing_file lo = Some 0" "lo_offset lo = 0" for lo w
    using that by (simp add: status_apply_def demo_status_def demo_size)
  show thesis
    using a [of "demo_dev\<lparr>lo_encryption := Some 1\<rparr>"] i that
    by (auto simp: loop_set_status_def loop_release_xfer_def demo_dev_sel status_xfer_def f demo_status_def LO_KEY_SIZE_def)
qed

theorem status_roundtrip_witness:
  "\<exists>lo1 w1 i. loop_set_status demo_env demo_status demo_dev (ix_world demo_index) = (0, lo1, w1) \<and>
     loop_get_status demo_env lo1 = (0, Some i) \<and> i64_offset i = 4096 \<and> i64_encrypt_type i = 1"
proof -
  obtain lo1 w1 where r: "loop_set_status demo_env demo_status demo_dev (ix_world demo_index) = (0, lo1, w1)"
    by (rule demo_set_status)
  have "info_ok demo_status" by (simp add: info_ok_def demo_status_def LO_NAME_SIZE_def LO_KEY_SIZE_def zeros_def)
  from status_roundtrip [OF r demo_xfer(2) demo_numbered this] obtain i
    where "loop_get_status demo_env lo1 = (0, Some i)" "i64_offset i = i64_offset demo_status"
      "i64_encrypt_type i = i64_encrypt_type demo_status" by auto
  then show ?thesis using r by (auto simp: demo_status_def)
qed

text \<open>C22. A status that asks for an unknown transfer is refused with \<^verbatim>\<open>-EINVAL\<close>, and the device keeps its file,
  offset and size; its former transfer is already released at this point, so an encrypted device is left without one.\<close>

theorem status_refused:
  assumes "lo_state lo = Lo_bound" and "lo_key_owner lo = current_uid E" and "unat (i64_encrypt_key_size info) \<le> LO_KEY_SIZE"
    and "i64_encrypt_type info \<noteq> 0" and "w_xfer w (unat (i64_encrypt_type info)) = None"
    and "\<forall>x e. lo_encryption lo = Some x \<and> xt_release (tables E x) = Some e \<longrightarrow> e = 0"
  shows "\<exists>lo1 w1. loop_set_status E info lo w = (- EINVAL, lo1, w1) \<and> lo_backing_file lo1 = lo_backing_file lo \<and>
    lo_offset lo1 = lo_offset lo \<and> lo_sizelimit lo1 = lo_sizelimit lo \<and> lo_encryption lo1 = None \<and>
    transfer lo1 = (if lo_encryption lo = None then transfer lo else None)"
proof -
  obtain e lo1 w1 where r: "loop_release_xfer E lo w = (e, lo1, w1)" by (metis prod_cases3)
  have e: "e = 0" "transfer lo1 = (if lo_encryption lo = None then transfer lo else None)"
    using r assms(6) by (auto simp: loop_release_xfer_def split: option.splits)
  have "find_xfer w1 (i64_encrypt_type info) = Inl (- EINVAL)"
    using assms(4,5) release_xfer_table [OF r] by (simp add: find_xfer_def)
  then have "loop_set_status E info lo w = (- EINVAL, lo1, w1)"
    using assms(1-3) r e(1) by (simp add: loop_set_status_def status_xfer_def)
  then show ?thesis using e(2) loop_release_xfer_ok [OF r] by blast
qed

theorem status_refused_witness:
  "\<exists>lo1 w1. loop_set_status demo_env (demo_status\<lparr>i64_encrypt_type := 5\<rparr>)
     (demo_dev\<lparr>transfer := Some TransferXor, lo_encryption := Some 1\<rparr>) (ix_world demo_index) = (- EINVAL, lo1, w1) \<and> transfer lo1 = None"
proof -
  let ?lo = "demo_dev\<lparr>transfer := Some TransferXor, lo_encryption := Some 1\<rparr>" and ?i = "demo_status\<lparr>i64_encrypt_type := 5\<rparr>"
  have h: "lo_state ?lo = Lo_bound" "lo_key_owner ?lo = current_uid demo_env" "unat (i64_encrypt_key_size ?i) \<le> LO_KEY_SIZE"
    "i64_encrypt_type ?i \<noteq> 0" "w_xfer (ix_world demo_index) (unat (i64_encrypt_type ?i)) = None"
    "\<forall>x e. lo_encryption ?lo = Some x \<and> xt_release (tables demo_env x) = Some e \<longrightarrow> e = 0"
    by (simp_all add: demo_dev_def new_device_def demo_env_def demo_status_def LO_KEY_SIZE_def demo_xfer xfer_funcs_def xor_funcs_def)
  from status_refused [OF h] show ?thesis by auto
qed

text \<open>The old status command needs a writable open or \<^verbatim>\<open>CAP_SYS_ADMIN\<close> on the native entry; the 32-bit entry runs
  it for any caller.\<close>

theorem status_permission:
  assumes "\<not> cap_sys_admin E"
  shows "lo_ioctl E False bdev (LOOP_SET_STATUS arg) lo w = Some (- EPERM, NoOut, unlock_ctl (lock_ctl lo), w) \<and>
    lo_compat_ioctl E False bdev (LOOP_SET_STATUS carg) lo w = lo_compat_ioctl E True bdev (LOOP_SET_STATUS carg) lo w \<and>
    (loop_info64_from_compat True info = (0, Some i64) \<and> loop_set_status E i64 (lock_ctl lo) w = (0, lo1, w1) \<longrightarrow>
      lo_compat_ioctl E False bdev (LOOP_SET_STATUS (Some info)) lo w = Some (0, NoOut, unlock_ctl lo1, w1))"
  using assms by (simp add: lo_ioctl_def lo_compat_ioctl_def no_out_def loop_set_status_compat_def)

theorem status_permission_witness:
  "lo_ioctl (demo_env\<lparr>cap_sys_admin := False\<rparr>) False (0, 0) (LOOP_SET_STATUS None :: (64, 64) loop_info ioctl_cmd) demo_dev
     (ix_world demo_index) = Some (- EPERM, NoOut, unlock_ctl (lock_ctl demo_dev), ix_world demo_index)"
  by (rule conjunct1 [OF status_permission]) simp

section \<open>The control device\<close>

lemma find_free_spec:
  assumes "index_ok ix" and "ix_freed ix = {}" and "set js \<subseteq> ids ix"
  shows "find_free ix js = (case find (\<lambda>j. lo_state (the (ix_devs ix j)) = Lo_unbound) js of None \<Rightarrow> Some (- ENODEV) | Some j \<Rightarrow> Some (int j))"
  using assms(3)
proof (induction js)
  case (Cons j js)
  then obtain lo where "ix_devs ix j = Some lo" using assms(2) by (auto simp: ids_def)
  then show ?case using Cons index_okD(4) [OF assms(1), of j lo] by simp
qed simp

text \<open>C23. \<^verbatim>\<open>LOOP_CTL_GET_FREE\<close> returns the least number of an unbound device and changes nothing; when every device
  is in use and no allocation fails it creates one under a number that was free, unbound and in order.\<close>

theorem control_get_free:
  assumes "reach ix" and "ix_freed ix = {}" and "idr_ok A" and "idr_get A (ids ix) 0 = (0, n)"
    and "kzalloc_ok A" and "idr_pre_get A" and "queue_ok A" and "disk_ok A"
  shows "(\<exists>j lo. ix_devs ix j = Some lo \<and> lo_state lo = Lo_unbound \<and> loop_control_ioctl E A LOOP_CTL_GET_FREE ix = Some (int j, ix) \<and>
      (\<forall>i lo'. ix_devs ix i = Some lo' \<and> lo_state lo' = Lo_unbound \<longrightarrow> j \<le> i)) \<or>
    (\<forall>i lo'. ix_devs ix i = Some lo' \<longrightarrow> lo_state lo' \<noteq> Lo_unbound) \<and> n \<notin> ids ix \<and>
      loop_control_ioctl E A LOOP_CTL_GET_FREE ix = Some (int n, put_dev n (new_device E n) ix)"
proof -
  note ok = reach_ok [OF assms(1)]
  let ?js = "sorted_list_of_set (ids ix)" and ?P = "\<lambda>j. lo_state (the (ix_devs ix j)) = Lo_unbound"
  have js: "set ?js = ids ix" "sorted ?js" "dom (ix_devs ix) = ids ix" using index_okD(1) [OF ok] assms(2) by (simp_all add: ids_def)
  have l: "loop_lookup (- 1) ix = (case find ?P ?js of None \<Rightarrow> Some (- ENODEV) | Some j \<Rightarrow> Some (int j))"
    using find_free_spec [OF ok assms(2), of ?js] js(1) by (simp add: loop_lookup_def)
  show ?thesis
  proof (cases "find ?P ?js")
    case None
    then have "\<forall>i lo'. ix_devs ix i = Some lo' \<longrightarrow> lo_state lo' \<noteq> Lo_unbound" using js(1) unfolding js(3) [symmetric]
      by (force simp: find_None_iff dom_def)
    moreover have "n \<notin> ids ix" using assms(3,4) index_okD(1) [OF ok] by (auto simp: idr_ok_def)
    ultimately show ?thesis using l None assms(4-8) by (simp add: loop_control_ioctl_def loop_add_def pick_number_def)
  next
    case (Some j)
    then obtain k where k: "k < length ?js" "?js ! k = j" "?P j" "\<forall>i < k. \<not> ?P (?js ! i)" by (auto simp: find_Some_iff)
    have "j \<le> i" if "ix_devs ix i = Some lo'" "lo_state lo' = Lo_unbound" for i lo'
    proof -
      have "i \<in> set ?js" using that(1) js by auto
      then obtain m where m: "m < length ?js" "?js ! m = i" by (auto simp: in_set_conv_nth)
      then have "k \<le> m" using k(4) that by (metis not_le_imp_less option.sel)
      then show ?thesis using sorted_nth_mono [OF js(2) \<open>k \<le> m\<close> m(1)] k(2) m(2) by simp
    qed
    moreover obtain lo where "ix_devs ix j = Some lo" using js k(1,2) nth_mem [OF k(1)] by (auto simp: dom_def)
    ultimately show ?thesis using l Some k(3) by (auto simp: loop_control_ioctl_def)
  qed
qed

theorem control_get_free_witness:
  "loop_control_ioctl demo_env demo_add LOOP_CTL_GET_FREE demo_index = Some (0, demo_index)"
proof -
  have h: "ix_freed demo_index = {}" "idr_get demo_add (ids demo_index) 0 = (0, snd (idr_get demo_add (ids demo_index) 0))"
    "kzalloc_ok demo_add" "idr_pre_get demo_add" "queue_ok demo_add" "disk_ok demo_add"
    by (simp_all add: demo_index_def put_dev_simps empty_index_def demo_add_def)
  have "lo_state (new_device demo_env 0) = Lo_unbound" by (simp add: new_device_def)
  with control_get_free [OF demo_reach h(1) demo_add_ok h(2-6), of demo_env] demo_dev0(1) show ?thesis by auto
qed

text \<open>When the queue or the disk cannot be allocated, a creation reports success and its number stays taken by a freed
  device, which the next look-up of the number reads.\<close>

lemma add_without_disk:
  assumes "kzalloc_ok A" and "idr_pre_get A" and "idr_get A (ids ix) 5 = (0, 5)" and "\<not> disk_ok A" and "ix_devs ix 5 = None"
  shows "fst (loop_add E A 5 ix) = 0" "loop_lookup 5 (snd (loop_add E A 5 ix)) = None"
  using assms by (simp_all add: loop_add_def pick_number_def loop_lookup_def ids_def)

end
