(* ===== verification/Sfs_Kv.thy ===== *)
theory Sfs_Kv
  imports MultiLanes_Prelude
begin

text \<open>
  The links of SFS (\<^verbatim>\<open>sfs16/kv.c\<close>): four partition numbers in one extended attribute of a file of a partition,
  written as decimal text into a buffer on the stack.  The attribute store of the partition is the environment.

  The conversions \<^verbatim>\<open>sprintf\<close> and \<^verbatim>\<open>sscanf\<close> are modelled for the one format that is used.  \<open>None\<close> is a buffer
  that is overrun or has no terminator.
\<close>

section \<open>Decimal text\<close>

definition digit :: "nat \<Rightarrow> char" where "digit n = char_of (48 + n)"

definition is_digit :: "char \<Rightarrow> bool" where "is_digit c \<longleftrightarrow> 48 \<le> (of_char c :: nat) \<and> (of_char c :: nat) \<le> 57"

definition digit_val :: "char \<Rightarrow> nat" where "digit_val c = of_char c - 48"

fun dec :: "nat \<Rightarrow> string" where
  "dec n = (if n < 10 then [digit n] else dec (n div 10) @ [digit (n mod 10)])"

declare dec.simps [simp del]

definition dec_int :: "int \<Rightarrow> string" where
  "dec_int i = (if i < 0 then CHR ''-'' # dec (nat (- i)) else dec (nat i))"

fun fmt :: "int list \<Rightarrow> string" where
  "fmt [] = []"
| "fmt [v] = dec_int v"
| "fmt (v # vs) = dec_int v @ CHR '':'' # fmt vs"

fun scan_nat :: "nat \<Rightarrow> string \<Rightarrow> nat \<times> string" where
  "scan_nat acc [] = (acc, [])"
| "scan_nat acc (c # cs) = (if is_digit c then scan_nat (10 * acc + digit_val c) cs else (acc, c # cs))"

definition isspace :: "char \<Rightarrow> bool" where
  "isspace c \<longleftrightarrow> (of_char c :: nat) \<in> {9, 10, 11, 12, 13, 32, 160}"

definition scan_int :: "string \<Rightarrow> (int \<times> string) option" where
  "scan_int s =
     (let s1 = dropWhile isspace s; neg = (s1 \<noteq> [] \<and> hd s1 = CHR ''-''); s2 = (if neg then tl s1 else s1)
      in if s2 \<noteq> [] \<and> is_digit (hd s2)
         then (case scan_nat 0 s2 of (n, r) \<Rightarrow> Some (signed_take_bit 31 (if neg then - int n else int n), r))
         else None)"

text \<open>\<^verbatim>\<open>sscanf\<close> stores the numbers up to the first mismatch and leaves the other variables as they were.\<close>

fun scan :: "string \<Rightarrow> int list \<Rightarrow> int list" where
  "scan s [] = []"
| "scan s (v # vs) =
     (case scan_int s of
        None \<Rightarrow> v # vs
      | Some (x, r) \<Rightarrow> x # (if r \<noteq> [] \<and> hd r = CHR '':'' then scan (tl r) vs else vs))"

section \<open>Buffers\<close>

definition NUL :: char where "NUL = CHR 0x00"

definition sprintf :: "char list \<Rightarrow> string \<Rightarrow> char list option" where
  "sprintf buf text = (if length text < length buf then Some (text @ NUL # drop (Suc (length text)) buf) else None)"

definition c_string :: "char list \<Rightarrow> string option" where
  "c_string buf = (if NUL \<in> set buf then Some (takeWhile (\<lambda>c. c \<noteq> NUL) buf) else None)"

section \<open>Links\<close>

text \<open>The attribute store: \<open>getxattr d key size\<close> returns the length or an error, and the bytes it stored.\<close>

record ('d, 's) xattr_ops =
  vfs_setxattr :: "'d \<Rightarrow> string \<Rightarrow> char list \<Rightarrow> 's \<Rightarrow> errcode \<times> 's"
  vfs_getxattr :: "'d \<Rightarrow> string \<Rightarrow> nat \<Rightarrow> 's \<Rightarrow> int \<times> char list"
  generic_getxattr :: "'d \<Rightarrow> string \<Rightarrow> nat \<Rightarrow> 's \<Rightarrow> int \<times> char list"

text \<open>The positions of the links.\<close>

definition POINTER :: nat where "POINTER = 0"
definition RENAME :: nat where "RENAME = 1"
definition HIDDEN :: nat where "HIDDEN = 2"
definition STALE :: nat where "STALE = 3"

definition no_links :: "int list" where "no_links = [- 1, - 1, - 1, - 1]"

text \<open>The stack below a call: the former contents of its buffer.\<close>

definition stack_buf :: "(nat \<Rightarrow> char) \<Rightarrow> nat \<Rightarrow> char list" where
  "stack_buf stack n = map stack [0..<n]"

lemma length_stack_buf [simp]: "length (stack_buf stack n) = n"
  by (simp add: stack_buf_def)

definition reset :: "('d, 's) xattr_ops \<Rightarrow> (nat \<Rightarrow> char) \<Rightarrow> 'd \<Rightarrow> string \<Rightarrow> 's \<Rightarrow> (errcode \<times> 's) option" where
  "reset X stack d key s =
     (case sprintf (stack_buf stack 20) (fmt no_links) of
        None \<Rightarrow> None
      | Some buf \<Rightarrow> Some (vfs_setxattr X d key buf s))"

definition fill_buf :: "char list \<Rightarrow> char list \<Rightarrow> char list" where
  "fill_buf bytes buf = bytes @ drop (length bytes) buf"

definition read_links :: "int \<times> char list \<Rightarrow> char list \<Rightarrow> int list \<Rightarrow> int list option" where
  "read_links r buf value =
     (if 0 < fst r then map_option (\<lambda>t. scan t value) (c_string (fill_buf (snd r) buf)) else Some value)"

definition modify ::
  "('d, 's) xattr_ops \<Rightarrow> (nat \<Rightarrow> char) \<Rightarrow> 'd \<Rightarrow> string \<Rightarrow> int \<Rightarrow> nat \<Rightarrow> 's \<Rightarrow> (errcode \<times> 's) option" where
  "modify X stack d key value sequence s =
     (case read_links (generic_getxattr X d key 20 s) (stack_buf stack 20) no_links of
        None \<Rightarrow> None
      | Some pointer \<Rightarrow>
          (case sprintf (fill_buf (snd (generic_getxattr X d key 20 s)) (stack_buf stack 20)) (fmt (pointer[sequence := value])) of
             None \<Rightarrow> None
           | Some buf \<Rightarrow> Some (vfs_setxattr X d key buf s)))"

definition put :: "('d, 's) xattr_ops \<Rightarrow> (nat \<Rightarrow> char) \<Rightarrow> 'd \<Rightarrow> string \<Rightarrow> int list \<Rightarrow> 's \<Rightarrow> (errcode \<times> 's) option" where
  "put X stack d key value s =
     (case sprintf (stack_buf stack 15) (fmt value) of
        None \<Rightarrow> None
      | Some buf \<Rightarrow> Some (vfs_setxattr X d key buf s))"

definition get ::
  "('d, 's) xattr_ops \<Rightarrow> (nat \<Rightarrow> char) \<Rightarrow> 'd \<Rightarrow> string \<Rightarrow> int list \<Rightarrow> 's \<Rightarrow> (int \<times> int list) option" where
  "get X stack d key value s =
     (let r = vfs_getxattr X d key 20 s in map_option (Pair (fst r)) (read_links r (stack_buf stack 20) value))"

section \<open>Text and numbers\<close>

lemma digit_simps: "n < 10 \<Longrightarrow> is_digit (digit n)" "n < 10 \<Longrightarrow> digit_val (digit n) = n"
  by (simp_all add: is_digit_def digit_val_def digit_def)

lemma is_digit_plain: "is_digit c \<Longrightarrow> c \<noteq> CHR ''-''" "is_digit c \<Longrightarrow> \<not> isspace c" "is_digit c \<Longrightarrow> c \<noteq> NUL"
  by (auto simp: is_digit_def isspace_def NUL_def)

lemma scan_nat_append:
  "scan_nat acc (s @ r) = (if list_all is_digit s then scan_nat (fst (scan_nat acc s)) r else scan_nat acc (s @ r))"
  by (induction s arbitrary: acc) auto

lemma scan_nat_stop: "r = [] \<or> \<not> is_digit (hd r) \<Longrightarrow> scan_nat acc r = (acc, r)"
  by (cases r) auto

lemma dec_all: "list_all is_digit (dec n) \<and> dec n \<noteq> []"
proof (induction n rule: dec.induct)
  case (1 n)
  then show ?case by (subst (1 2) dec.simps) (auto simp: digit_simps)
qed

lemma dec_digits: "list_all is_digit (dec n)" "dec n \<noteq> []" "is_digit (hd (dec n))" "NUL \<notin> set (dec n)"
  "hd (dec n) \<noteq> CHR ''-''" "\<not> isspace (hd (dec n))"
  using dec_all [of n] is_digit_plain by (auto simp: list_all_iff)

lemma scan_nat_dec: "fst (scan_nat 0 (dec n)) = n"
proof (induction n rule: dec.induct)
  case (1 n)
  show ?case
  proof (cases "n < 10")
    case False
    have "scan_nat 0 (dec n) = scan_nat (fst (scan_nat 0 (dec (n div 10)))) [digit (n mod 10)]"
      using False scan_nat_append [of 0 "dec (n div 10)" "[digit (n mod 10)]"] dec_digits(1) by (subst dec.simps) simp
    then show ?thesis using 1 False by (simp add: digit_simps)
  qed (simp add: dec.simps digit_simps)
qed

lemma scan_int_dec:
  assumes "r = [] \<or> \<not> is_digit (hd r)" and "- (2 ^ 31) \<le> i" and "i < 2 ^ 31"
  shows "scan_int (dec_int i @ r) = Some (i, r)"
proof -
  have n: "scan_nat 0 (dec n @ r) = (n, r)" for n
    using scan_nat_append [of 0 "dec n" r] dec_digits(1) scan_nat_dec scan_nat_stop [OF assms(1)] by simp
  have w: "dropWhile isspace (dec_int i @ r) = dec_int i @ r"
    using dec_digits(2,6) [of "nat i"] by (cases "dec (nat i)") (auto simp: dec_int_def isspace_def)
  have i: "signed_take_bit 31 i = i" using assms(2,3) by (intro signed_take_bit_int_eq_self) auto
  show ?thesis
    unfolding scan_int_def w Let_def using n i dec_digits(2,3,5) by (auto simp: dec_int_def hd_append)
qed

lemma colon_stops: "\<not> is_digit (CHR '':'')"
  by (simp add: is_digit_def)

lemma scan_fmt:
  assumes "length w = length v" and "\<forall>x \<in> set v. - (2 ^ 31) \<le> x \<and> x < 2 ^ 31"
  shows "scan (fmt v) w = v"
  using assms
proof (induction v arbitrary: w rule: fmt.induct)
  case (2 x)
  then show ?case using scan_int_dec [of "[]" x] by (cases w) auto
next
  case (3 x y vs)
  then show ?case using scan_int_dec [of "CHR '':'' # fmt (y # vs)" x] colon_stops by (cases w) auto
qed simp

lemma dec_int_plain: "NUL \<notin> set (dec_int i)"
  using dec_digits(4) by (auto simp: dec_int_def NUL_def)

lemma fmt_plain: "NUL \<notin> set (fmt v)"
  by (induction v rule: fmt.induct) (auto simp: dec_int_plain NUL_def [symmetric], auto simp: NUL_def)

lemma c_string_sprintf:
  assumes "NUL \<notin> set t" and "sprintf buf t = Some b"
  shows "c_string (b @ x) = Some t" "length b = length buf"
  using assms by (auto simp: sprintf_def c_string_def takeWhile_append split: if_splits)

section \<open>Properties of the links\<close>

text \<open>What is used of the attribute store: a value that was set is what a large enough buffer receives.\<close>

definition xattr_ok :: "('d, 's) xattr_ops \<Rightarrow> bool" where
  "xattr_ok X \<longleftrightarrow>
     (\<forall>d k v s s'. vfs_setxattr X d k v s = (0, s') \<longrightarrow>
        (\<forall>n \<ge> length v. vfs_getxattr X d k n s' = (int (length v), v) \<and> generic_getxattr X d k n s' = (int (length v), v)))"

text \<open>The numbers that fit: one sign or two digits, which covers every partition and the empty link.\<close>

definition links :: "int list \<Rightarrow> bool" where
  "links v \<longleftrightarrow> length v = 4 \<and> (\<forall>x \<in> set v. - 9 \<le> x \<and> x \<le> 99)"

lemma length_dec_int: "- 9 \<le> x \<Longrightarrow> x \<le> 99 \<Longrightarrow> length (dec_int x) \<le> 2"
  by (auto simp: dec_int_def dec.simps)

lemma length_fmt: "links v \<Longrightarrow> length (fmt v) \<le> 11"
  using length_dec_int by (auto simp: links_def length_Suc_conv numeral_eq_Suc) (fastforce dest: length_dec_int)

lemma fits:
  assumes "links v" and "15 \<le> length buf"
  obtains b where "sprintf buf (fmt v) = Some b" "length b = length buf" "\<And>x. c_string (b @ x) = Some (fmt v)"
proof -
  have "length (fmt v) < length buf" using length_fmt [OF assms(1)] assms(2) by simp
  then obtain b where b: "sprintf buf (fmt v) = Some b" by (simp add: sprintf_def)
  show thesis by (rule that [OF b c_string_sprintf(2) [OF fmt_plain b] c_string_sprintf(1) [OF fmt_plain b]])
qed

lemma get_stored:
  assumes "links v" and "length w = 4" and "\<And>x. c_string (b @ x) = Some (fmt v)" and "0 < length b"
    and "vfs_getxattr X d key 20 s = (int (length b), b)"
  shows "get X stack d key w s = Some (int (length b), v)"
proof -
  have "scan (fmt v) w = v" using assms(1,2) by (intro scan_fmt) (auto simp: links_def)
  then show ?thesis using assms(3-5) by (simp add: get_def read_links_def fill_buf_def)
qed

text \<open>C28. Links are read as they were written: \<^verbatim>\<open>put\<close> stays within its buffer for partition numbers of up to two
  digits, and \<^verbatim>\<open>get\<close> of the attribute returns them, whatever was on the stack.\<close>

theorem links_put_get:
  assumes "xattr_ok X" and "links v" and "length w = 4"
  shows "\<exists>err s'. put X stack d key v s = Some (err, s') \<and> (err = 0 \<longrightarrow> get X stack' d key w s' = Some (15, v))"
proof -
  obtain b where b: "sprintf (stack_buf stack 15) (fmt v) = Some b" "length b = 15" "\<And>x. c_string (b @ x) = Some (fmt v)"
    using fits [OF assms(2), of "stack_buf stack 15"] by auto
  have "get X stack' d key w s' = Some (15, v)" if "vfs_setxattr X d key b s = (0, s')" for s'
    using get_stored [OF assms(2,3) b(3), of X d key s' stack'] assms(1) that b(2) by (simp add: xattr_ok_def)
  then show ?thesis using b(1) by (cases "vfs_setxattr X d key b s") (simp add: put_def)
qed

text \<open>\<^verbatim>\<open>modify\<close> changes one link and keeps the others.\<close>

theorem links_modify:
  assumes "xattr_ok X" and "links v" and "- 9 \<le> x" and "x \<le> 99" and "k < 4" and "length w = 4"
    and "put X stack d key v s = Some (0, s1)"
  shows "\<exists>err s2. modify X stack' d key x k s1 = Some (err, s2) \<and> (err = 0 \<longrightarrow> get X stack'' d key w s2 = Some (20, v[k := x]))"
proof -
  obtain b where b: "sprintf (stack_buf stack 15) (fmt v) = Some b" "length b = 15" "\<And>x. c_string (b @ x) = Some (fmt v)"
    using fits [OF assms(2), of "stack_buf stack 15"] by auto
  have g: "generic_getxattr X d key 20 s1 = (15, b)"
    using assms(1,7) b(1,2) by (simp add: put_def xattr_ok_def)
  have "scan (fmt v) no_links = v" using assms(2) by (intro scan_fmt) (auto simp: links_def no_links_def)
  then have r: "read_links (15, b) buf no_links = Some v" for buf
    using b(3) by (simp add: read_links_def fill_buf_def)
  have v: "links (v[k := x])" using assms(2-4) set_update_subset_insert [of v k x] by (auto simp: links_def)
  obtain c where c: "sprintf (fill_buf b (stack_buf stack' 20)) (fmt (v[k := x])) = Some c" "length c = 20"
      "\<And>z. c_string (c @ z) = Some (fmt (v[k := x]))"
    using fits [OF v, of "fill_buf b (stack_buf stack' 20)"] b(2) by (auto simp: fill_buf_def)
  have "get X stack'' d key w s2 = Some (20, v[k := x])" if "vfs_setxattr X d key c s1 = (0, s2)" for s2
    using get_stored [OF v assms(6) c(3), of X d key s2 stack''] assms(1) that c(2) by (simp add: xattr_ok_def)
  then show ?thesis using g r c(1) by (cases "vfs_setxattr X d key c s1") (simp add: modify_def)
qed

text \<open>Four numbers of three digits overrun the buffer of \<^verbatim>\<open>put\<close>.\<close>

lemma put_overrun: "put X stack d key [100, 100, 100, 100] s = None"
  by (simp add: put_def sprintf_def dec_int_def dec.simps)

text \<open>An attribute store.\<close>

definition mem_xattr :: "(nat, nat \<Rightarrow> string \<Rightarrow> char list) xattr_ops" where
  "mem_xattr = \<lparr>vfs_setxattr = (\<lambda>d k v s. (0, s(d := (s d)(k := v)))),
     vfs_getxattr = (\<lambda>d k n s. if n < length (s d k) then (- ERANGE, []) else (int (length (s d k)), s d k)),
     generic_getxattr = (\<lambda>d k n s. if n < length (s d k) then (- ERANGE, []) else (int (length (s d k)), s d k))\<rparr>"

lemma mem_xattr_ok: "xattr_ok mem_xattr"
  by (simp add: xattr_ok_def mem_xattr_def)

lemma mem_put:
  assumes "links v"
  obtains s' where "put mem_xattr stack d k v s = Some (0, s')"
proof -
  obtain b where "sprintf (stack_buf stack 15) (fmt v) = Some b" using fits [OF assms, of "stack_buf stack 15"] by auto
  then have "put mem_xattr stack d k v s = Some (0, s(d := (s d)(k := b)))" by (simp add: put_def mem_xattr_def)
  then show thesis by (rule that)
qed

lemma mem_modify: "modify mem_xattr stack d k x n s = Some (err, s') \<Longrightarrow> err = 0"
  by (auto simp: modify_def mem_xattr_def split: option.splits)

lemma sample_links: "links [3, - 1, - 1, 12]" "length no_links = 4"
  by (simp_all add: links_def no_links_def)

theorem links_put_get_witness:
  "\<exists>s'. put mem_xattr (\<lambda>_. NUL) 0 ''trusted.sfs.meta'' [3, - 1, - 1, 12] (\<lambda>_ _. []) = Some (0, s') \<and>
     get mem_xattr (\<lambda>_. NUL) 0 ''trusted.sfs.meta'' no_links s' = Some (15, [3, - 1, - 1, 12])"
proof -
  obtain s' where p: "put mem_xattr (\<lambda>_. NUL) 0 ''trusted.sfs.meta'' [3, - 1, - 1, 12] (\<lambda>_ _. []) = Some (0, s')"
    by (rule mem_put [OF sample_links(1)])
  from links_put_get [OF mem_xattr_ok sample_links, of "\<lambda>_. NUL" 0 "''trusted.sfs.meta''" "\<lambda>_ _. []" "\<lambda>_. NUL", unfolded p]
  show ?thesis using p by simp
qed

theorem links_modify_witness:
  "\<exists>s1 s2. put mem_xattr (\<lambda>_. NUL) 0 ''k'' [3, - 1, - 1, 12] (\<lambda>_ _. []) = Some (0, s1) \<and>
     modify mem_xattr (\<lambda>_. NUL) 0 ''k'' 7 1 s1 = Some (0, s2) \<and>
     get mem_xattr (\<lambda>_. NUL) 0 ''k'' no_links s2 = Some (20, [3, - 1, - 1, 12][1 := 7])"
proof -
  obtain s1 where p: "put mem_xattr (\<lambda>_. NUL) 0 ''k'' [3, - 1, - 1, 12] (\<lambda>_ _. []) = Some (0, s1)"
    by (rule mem_put [OF sample_links(1)])
  have "- 9 \<le> (7 :: int)" "(7 :: int) \<le> 99" "1 < (4 :: nat)" by simp_all
  from links_modify [OF mem_xattr_ok sample_links(1) this sample_links(2) p, of "\<lambda>_. NUL" "\<lambda>_. NUL"]
  obtain err s2 where m: "modify mem_xattr (\<lambda>_. NUL) 0 ''k'' 7 1 s1 = Some (err, s2)"
    "err = 0 \<longrightarrow> get mem_xattr (\<lambda>_. NUL) 0 ''k'' no_links s2 = Some (20, [3, - 1, - 1, 12][1 := 7])" by blast
  then show ?thesis using p mem_modify [OF m(1)] by blast
qed

end
