(* ===== verification/Sfs_Dispatch.thy ===== *)
theory Sfs_Dispatch
  imports MultiLanes_Prelude
begin

text \<open>
  Placement of new objects on the partitions (\<^verbatim>\<open>sfs16/dispatch.c\<close>), with the dentry of SFS and its bitmap of
  normal directories (\<^verbatim>\<open>sfs16/sfs_fs.h\<close>).  A directory is normal on the partitions that hold some of its entries and
  a shadow on the others; \<^verbatim>\<open>local_dispatch\<close> spreads a directory over new partitions up to a threshold and then
  takes its normal partitions in turn.

  The loops are partial functions; the properties include that they end.
\<close>

section \<open>The dentry of SFS\<close>

record sfs_dentry =
  replicas :: "nat \<Rightarrow> ptr option"
  unused_replica_dentry :: "ptr option"
  replica_id :: int
  meta_id :: int
  local_counter :: nat
  global_counter :: nat
  normal_dir_count :: nat
  first_normal_dir_id :: int
  normal_dir_map :: u64

definition SPAN_THRESHOLD :: nat where "SPAN_THRESHOLD = 20"

definition test_bitmap :: "u64 \<Rightarrow> nat \<Rightarrow> u64" where
  "test_bitmap bitmap shift = push_bit shift 1 AND bitmap"

definition set_bitmap :: "u64 \<Rightarrow> nat \<Rightarrow> u64" where
  "set_bitmap bitmap shift = bitmap OR push_bit shift 1"

lemma test_bitmap_bit: "test_bitmap m i \<noteq> 0 \<longleftrightarrow> bit m i"
proof
  assume "test_bitmap m i \<noteq> 0"
  then obtain n where "bit (test_bitmap m i) n" by (auto simp: bit_eq_iff)
  then show "bit m i" by (auto simp: test_bitmap_def bit_simps)
next
  assume b: "bit m i"
  then have "i < 64" using bit_imp_le_length [OF b] by simp
  with b have "bit (test_bitmap m i) i" by (simp add: test_bitmap_def bit_simps)
  then show "test_bitmap m i \<noteq> 0" by auto
qed

lemma bit_set_bitmap: "i < 64 \<Longrightarrow> bit (set_bitmap m i) j \<longleftrightarrow> bit m j \<or> j = i"
  by (auto simp: set_bitmap_def bit_simps)

section \<open>Operations\<close>

text \<open>The counter \<^verbatim>\<open>last_dispatch\<close>; \<open>rc\<close> is the number of partitions.\<close>

definition DISPATCH_MAX :: nat where "DISPATCH_MAX = 1024"

definition dispatch :: "nat \<Rightarrow> nat \<Rightarrow> nat \<times> nat" where
  "dispatch rc lastd =
     (if rc = 1 then (0, lastd)
      else (let id = lastd + 1 in ((id - 1) mod rc, if DISPATCH_MAX < id then 0 else id)))"

partial_function (option) seek_normal :: "u64 \<Rightarrow> nat \<Rightarrow> nat \<Rightarrow> nat option" where
  "seek_normal m rc c = (if test_bitmap m c \<noteq> 0 then Some c else seek_normal m rc ((c + 1) mod rc))"

text \<open>\<open>None\<close> as the result of the whole call: the loop does not end.\<close>

definition next_normal :: "nat \<Rightarrow> sfs_dentry \<Rightarrow> (int \<times> sfs_dentry) option" where
  "next_normal rc d =
     (case seek_normal (normal_dir_map d) rc (local_counter d) of
        None \<Rightarrow> None
      | Some ret \<Rightarrow> Some (int ret, d\<lparr>local_counter := (ret + 1) mod rc\<rparr>))"

definition select_normal_dir_rr :: "nat \<Rightarrow> sfs_dentry \<Rightarrow> (int \<times> sfs_dentry) option" where
  "select_normal_dir_rr rc d = (if normal_dir_count d = 0 then Some (- 1, d) else next_normal rc d)"

partial_function (option) dispatch_new :: "u64 \<Rightarrow> nat \<Rightarrow> nat \<Rightarrow> (nat \<times> nat) option" where
  "dispatch_new m rc lastd =
     (case dispatch rc lastd of (ret, l1) \<Rightarrow> if test_bitmap m ret \<noteq> 0 then dispatch_new m rc l1 else Some (ret, l1))"

definition span_threshold :: "nat \<Rightarrow> nat" where
  "span_threshold rc = (if SPAN_THRESHOLD < rc then SPAN_THRESHOLD else rc)"

definition local_dispatch :: "nat \<Rightarrow> sfs_dentry \<Rightarrow> nat \<Rightarrow> (int \<times> sfs_dentry \<times> nat) option" where
  "local_dispatch rc d lastd =
     (if normal_dir_count d < span_threshold rc then
        (case dispatch_new (normal_dir_map d) rc lastd of None \<Rightarrow> None | Some (ret, l1) \<Rightarrow> Some (int ret, d, l1))
      else
        (case next_normal rc d of None \<Rightarrow> None | Some (ret, d1) \<Rightarrow> Some (ret, d1, lastd)))"

text \<open>The assignment of processors: the pairs of processor and partition in the order of the stores, \<open>None\<close> when a
  store is behind the table of \<open>n\<close> processors.\<close>

definition assign_cpus :: "nat \<Rightarrow> nat \<Rightarrow> errcode \<times> (nat \<times> nat) list option" where
  "assign_cpus n count =
     (let nr_online_cpus = 16 in
      if nr_online_cpus < count then (- E2BIG, Some [])
      else
        (let ratio = (nr_online_cpus + count - 1) div count; st = map (\<lambda>i. (i, i div ratio)) [0..<ratio * count]
         in (0, if ratio * count \<le> n then Some st else None)))"

text \<open>The accounting of accessing processes, per processor.\<close>

record sfs_sb_info =
  nr_accessing_cpus :: nat
  nr_accessing_processes_percpu :: "nat \<Rightarrow> nat"

definition inc_concurrency :: "nat \<Rightarrow> sfs_sb_info \<Rightarrow> sfs_sb_info" where
  "inc_concurrency cpu sbi =
     (let n = nr_accessing_processes_percpu sbi cpu + 1 in
      sbi\<lparr>nr_accessing_processes_percpu := (nr_accessing_processes_percpu sbi)(cpu := n),
          nr_accessing_cpus := (if n = 1 then nr_accessing_cpus sbi + 1 else nr_accessing_cpus sbi)\<rparr>)"

definition dec_cocurrency :: "nat \<Rightarrow> sfs_sb_info \<Rightarrow> sfs_sb_info" where
  "dec_cocurrency cpu sbi =
     (let n = nr_accessing_processes_percpu sbi cpu - 1 in
      sbi\<lparr>nr_accessing_processes_percpu := (nr_accessing_processes_percpu sbi)(cpu := n),
          nr_accessing_cpus := (if n = 0 then nr_accessing_cpus sbi - 1 else nr_accessing_cpus sbi)\<rparr>)"

text \<open>The two entries that the file operations call do not move the thread; they return no processor, and then the end
  of the operation changes nothing.\<close>

definition migrate_on_update :: "nat option" where "migrate_on_update = None"

definition bind_on_update_1 :: "nat \<Rightarrow> sfs_sb_info \<Rightarrow> nat option \<times> sfs_sb_info" where
  "bind_on_update_1 cpu sbi = (Some cpu, inc_concurrency cpu sbi)"

definition finish_update :: "nat option \<Rightarrow> sfs_sb_info \<Rightarrow> sfs_sb_info" where
  "finish_update dest_cpu sbi = (case dest_cpu of None \<Rightarrow> sbi | Some cpu \<Rightarrow> dec_cocurrency cpu sbi)"

section \<open>Taking the normal partitions in turn\<close>

text \<open>The partitions from a position on, around the end.\<close>

definition ring :: "nat \<Rightarrow> nat \<Rightarrow> nat list" where
  "ring rc c = rotate c [0..<rc]"

definition normals :: "u64 \<Rightarrow> nat \<Rightarrow> nat \<Rightarrow> nat list" where
  "normals m rc c = filter (bit m) (ring rc c)"

lemma ring_next: "ring rc ((c + 1) mod rc) = rotate1 (ring rc c)"
  by (simp add: ring_def rotate_conv_mod [of "Suc c"] rotate_Suc [symmetric] del: rotate_Suc)

lemma ring_hd: "c < rc \<Longrightarrow> ring rc c \<noteq> [] \<and> hd (ring rc c) = c"
  by (simp add: ring_def hd_rotate_conv_nth)

lemma filter_rotate1:
  "xs \<noteq> [] \<Longrightarrow> filter P (rotate1 xs) = (if P (hd xs) then rotate1 (filter P xs) else filter P xs)"
  by (cases xs) simp_all

lemma normals_next:
  "c < rc \<Longrightarrow> normals m rc ((c + 1) mod rc) = (if bit m c then rotate1 (normals m rc c) else normals m rc c)"
  using ring_hd [of c rc] unfolding normals_def ring_next by (simp add: filter_rotate1)

lemma normals_hd: "c < rc \<Longrightarrow> bit m c \<Longrightarrow> normals m rc c \<noteq> [] \<and> hd (normals m rc c) = c"
  using ring_hd [of c rc] by (cases "ring rc c") (auto simp: normals_def)

lemma set_normals: "set (normals m rc c) = {i. i < rc \<and> bit m i}" "distinct (normals m rc c)"
  by (auto simp: normals_def ring_def)

lemma seek_normal_ends:
  assumes "c < rc" and "i < rc" and "bit m i"
  shows "\<exists>r. seek_normal m rc c = Some r \<and> r < rc \<and> bit m r \<and> normals m rc r = normals m rc c"
proof -
  have "i \<in> set (ring rc c)" using assms(2) by (simp add: ring_def)
  then have "\<exists>us vs. ring rc c = us @ i # vs" by (simp add: split_list)
  then obtain us vs where "ring rc c = us @ i # vs" by blast
  then show ?thesis using assms(1)
  proof (induction us arbitrary: c vs)
    case Nil
    then have "c = i" using ring_hd [of c rc] by simp
    then show ?case using Nil assms by (subst seek_normal.simps) (simp add: test_bitmap_bit)
  next
    case (Cons u us)
    show ?case
    proof (cases "bit m c")
      case True
      then show ?thesis using Cons.prems by (subst seek_normal.simps) (simp add: test_bitmap_bit)
    next
      case False
      have "ring rc ((c + 1) mod rc) = us @ i # (vs @ [u])" using Cons.prems ring_next [of rc c] by simp
      from Cons.IH [OF this] Cons.prems(2) normals_next [OF Cons.prems(2), of m] False
      have "\<exists>r. seek_normal m rc ((c + 1) mod rc) = Some r \<and> r < rc \<and> bit m r \<and> normals m rc r = normals m rc c" by simp
      then show ?thesis using False by (subst seek_normal.simps) (simp add: test_bitmap_bit)
    qed
  qed
qed

text \<open>The state of a directory: the counter is a partition, the bitmap has only partitions, and the count is its size.\<close>

definition normal_ok :: "nat \<Rightarrow> sfs_dentry \<Rightarrow> bool" where
  "normal_ok rc d \<longleftrightarrow> 0 < rc \<and> rc \<le> 64 \<and> local_counter d < rc \<and> (\<forall>i. bit (normal_dir_map d) i \<longrightarrow> i < rc) \<and>
     normal_dir_count d = card {i. bit (normal_dir_map d) i}"

lemma normal_okD: "normal_ok rc d \<Longrightarrow> 0 < rc" "normal_ok rc d \<Longrightarrow> local_counter d < rc"
  "normal_ok rc d \<Longrightarrow> bit (normal_dir_map d) i \<Longrightarrow> i < rc" "normal_ok rc d \<Longrightarrow> finite {i. bit (normal_dir_map d) i}"
  by (auto simp: normal_ok_def intro: finite_subset [of _ "{..<rc}"])

lemma normal_exists: "normal_ok rc d \<Longrightarrow> normal_dir_count d \<noteq> 0 \<Longrightarrow> \<exists>i < rc. bit (normal_dir_map d) i"
  by (auto simp: normal_ok_def)

lemma next_normal_rotates:
  assumes "normal_ok rc d" and "normal_dir_count d \<noteq> 0"
  shows "\<exists>d1. next_normal rc d = Some (int (hd (normals (normal_dir_map d) rc (local_counter d))), d1) \<and> normal_ok rc d1 \<and>
    normal_dir_map d1 = normal_dir_map d \<and> normal_dir_count d1 = normal_dir_count d \<and>
    normals (normal_dir_map d) rc (local_counter d1) = rotate1 (normals (normal_dir_map d) rc (local_counter d))"
proof -
  obtain i where i: "i < rc" "bit (normal_dir_map d) i" using normal_exists [OF assms] by blast
  obtain r where r: "seek_normal (normal_dir_map d) rc (local_counter d) = Some r" "r < rc" "bit (normal_dir_map d) r"
      "normals (normal_dir_map d) rc r = normals (normal_dir_map d) rc (local_counter d)"
    using seek_normal_ends [OF normal_okD(2) [OF assms(1)] i] by blast
  have "normal_ok rc (d\<lparr>local_counter := (r + 1) mod rc\<rparr>)" using assms(1) normal_okD(1) [OF assms(1)] by (simp add: normal_ok_def)
  then show ?thesis
    using r normals_hd [OF r(2,3)] normals_next [OF r(2), of "normal_dir_map d"] by (simp add: next_normal_def)
qed

primrec rr_run :: "nat \<Rightarrow> nat \<Rightarrow> sfs_dentry \<Rightarrow> int list option" where
  "rr_run rc 0 d = Some []"
| "rr_run rc (Suc k) d =
     (case select_normal_dir_rr rc d of
        None \<Rightarrow> None
      | Some (r, d1) \<Rightarrow> map_option (\<lambda>rs. r # rs) (rr_run rc k d1))"

lemma take_rotate1: "Suc k \<le> length xs \<Longrightarrow> take (Suc k) xs = hd xs # take k (rotate1 xs)"
  by (cases xs) simp_all

lemma length_normals: "normal_ok rc d \<Longrightarrow> length (normals (normal_dir_map d) rc c) = normal_dir_count d"
proof -
  assume ok: "normal_ok rc d"
  then have "{i. i < rc \<and> bit (normal_dir_map d) i} = {i. bit (normal_dir_map d) i}" using normal_okD(3) by blast
  then show ?thesis
    using ok distinct_card [OF set_normals(2) [of "normal_dir_map d" rc c]] by (simp add: set_normals(1) normal_ok_def)
qed

lemma rr_run_take:
  "normal_ok rc d \<Longrightarrow> k \<le> normal_dir_count d \<Longrightarrow>
   rr_run rc k d = Some (map int (take k (normals (normal_dir_map d) rc (local_counter d))))"
proof (induction k arbitrary: d)
  case (Suc k)
  let ?ns = "normals (normal_dir_map d) rc (local_counter d)"
  obtain d1 where d1: "next_normal rc d = Some (int (hd ?ns), d1)" "normal_ok rc d1" "normal_dir_map d1 = normal_dir_map d"
      "normal_dir_count d1 = normal_dir_count d" "normals (normal_dir_map d) rc (local_counter d1) = rotate1 ?ns"
    using next_normal_rotates [of rc d] Suc.prems by auto
  have "take (Suc k) ?ns = hd ?ns # take k (rotate1 ?ns)"
    by (rule take_rotate1) (use length_normals [OF Suc.prems(1)] Suc.prems(2) in simp)
  then show ?case
    using Suc.IH [OF d1(2)] Suc.prems(2) d1 by (simp add: select_normal_dir_rr_def)
qed simp

text \<open>C30. The normal partitions of a directory are taken in turn: as many selections as there are normal partitions end
  and return each of them once.\<close>

theorem select_rr_fair:
  assumes "normal_ok rc d"
  shows "\<exists>rs. rr_run rc (normal_dir_count d) d = Some rs \<and> distinct rs \<and> set rs = int ` {i. bit (normal_dir_map d) i}"
proof -
  let ?ns = "normals (normal_dir_map d) rc (local_counter d)"
  have "rr_run rc (normal_dir_count d) d = Some (map int ?ns)"
    using rr_run_take [OF assms order_refl] length_normals [OF assms, of "local_counter d"] by simp
  moreover have "set ?ns = {i. bit (normal_dir_map d) i}" using set_normals(1) normal_okD(3) [OF assms] by auto
  ultimately show ?thesis using set_normals(2) by (auto simp: distinct_map)
qed

section \<open>Choosing a partition for a new object\<close>

lemma dispatch_range: "0 < rc \<Longrightarrow> lastd \<le> DISPATCH_MAX \<Longrightarrow> dispatch rc lastd = (r, l) \<Longrightarrow> r < rc \<and> l \<le> DISPATCH_MAX"
  by (auto simp: dispatch_def Let_def split: if_splits)

lemma dispatch_new_low:
  assumes "t < rc" and "\<not> bit m t" and "rc \<le> 64" and "k \<le> t"
  shows "\<exists>r l. dispatch_new m rc k = Some (r, l) \<and> r < rc \<and> \<not> bit m r \<and> l \<le> DISPATCH_MAX"
  using assms(4)
proof (induction "t - k" arbitrary: k)
  case 0
  then have "dispatch rc k = (t, if rc = 1 then k else k + 1)" using assms by (simp add: dispatch_def DISPATCH_MAX_def)
  then show ?case using assms 0 by (subst dispatch_new.simps) (simp add: test_bitmap_bit DISPATCH_MAX_def)
next
  case (Suc n)
  then have d: "dispatch rc k = (k, k + 1)" using assms by (simp add: dispatch_def DISPATCH_MAX_def)
  show ?case
  proof (cases "bit m k")
    case True
    then show ?thesis using Suc d by (subst dispatch_new.simps) (simp add: test_bitmap_bit)
  next
    case False
    then show ?thesis using Suc assms d by (subst dispatch_new.simps) (simp add: test_bitmap_bit DISPATCH_MAX_def)
  qed
qed

lemma dispatch_new_ends:
  assumes "t < rc" and "\<not> bit m t" and "rc \<le> 64" and "k \<le> DISPATCH_MAX"
  shows "\<exists>r l. dispatch_new m rc k = Some (r, l) \<and> r < rc \<and> \<not> bit m r \<and> l \<le> DISPATCH_MAX"
  using assms(4)
proof (induction "DISPATCH_MAX - k" arbitrary: k rule: less_induct)
  case less
  obtain r l where d: "dispatch rc k = (r, l)" by fastforce
  have rl: "r < rc" "l \<le> DISPATCH_MAX" using dispatch_range [OF _ less.prems d] assms(1) by auto
  consider "k \<le> t" | "\<not> bit m r" | "\<not> k \<le> t" "bit m r" by blast
  then show ?case
  proof cases
    case 1
    then show ?thesis by (rule dispatch_new_low [OF assms(1-3)])
  next
    case 2
    then show ?thesis using d rl by (subst dispatch_new.simps) (auto simp: test_bitmap_bit)
  next
    case False: 3
    then have "rc \<noteq> 1" using d assms(1,2) by (auto simp: dispatch_def)
    then have "l = 0 \<or> l = k + 1 \<and> k < DISPATCH_MAX" using d by (auto simp: dispatch_def split: if_splits)
    then have "\<exists>r l'. dispatch_new m rc l = Some (r, l') \<and> r < rc \<and> \<not> bit m r \<and> l' \<le> DISPATCH_MAX"
      using dispatch_new_low [OF assms(1-3), of 0] less.hyps [of l] by auto
    then show ?thesis using d False by (subst dispatch_new.simps) (auto simp: test_bitmap_bit)
  qed
qed

lemma local_dispatch_ok:
  assumes "normal_ok rc d" and "lastd \<le> DISPATCH_MAX"
  shows "\<exists>r d1 l1. local_dispatch rc d lastd = Some (int r, d1, l1) \<and> r < rc \<and> normal_ok rc d1 \<and> l1 \<le> DISPATCH_MAX \<and>
    normal_dir_map d1 = normal_dir_map d \<and> (bit (normal_dir_map d) r \<longleftrightarrow> min SPAN_THRESHOLD rc \<le> normal_dir_count d)"
proof (cases "normal_dir_count d < span_threshold rc")
  case True
  have "\<exists>t < rc. \<not> bit (normal_dir_map d) t"
  proof (rule ccontr)
    assume "\<not> (\<exists>t < rc. \<not> bit (normal_dir_map d) t)"
    then have "{i. bit (normal_dir_map d) i} = {..<rc}" using normal_okD(3) [OF assms(1)] by auto
    then show False using True assms(1) by (simp add: normal_ok_def span_threshold_def split: if_splits)
  qed
  then obtain t where t: "t < rc" "\<not> bit (normal_dir_map d) t" by blast
  have "rc \<le> 64" using assms(1) by (simp add: normal_ok_def)
  from dispatch_new_ends [OF t this assms(2)] True assms show ?thesis
    by (auto simp: local_dispatch_def span_threshold_def split: if_splits)
next
  case False
  then have c: "normal_dir_count d \<noteq> 0" using normal_okD(1) [OF assms(1)] by (auto simp: span_threshold_def SPAN_THRESHOLD_def split: if_splits)
  let ?ns = "normals (normal_dir_map d) rc (local_counter d)"
  have "?ns \<noteq> []" using length_normals [OF assms(1), of "local_counter d"] c by auto
  then have "hd ?ns < rc" "bit (normal_dir_map d) (hd ?ns)" using set_normals(1) [of "normal_dir_map d" rc] hd_in_set by blast+
  then show ?thesis
    using next_normal_rotates [OF assms(1) c] False assms by (auto simp: local_dispatch_def span_threshold_def split: if_splits)
qed

text \<open>C29. \<^verbatim>\<open>local_dispatch\<close> returns a partition: one on which the directory is not normal yet while it spans fewer than
  the threshold, one of its normal ones from then on; the directory stays in order.\<close>

theorem local_dispatch_place:
  assumes "normal_ok rc d" and "lastd \<le> DISPATCH_MAX"
  shows "\<exists>r d1 l1. local_dispatch rc d lastd = Some (int r, d1, l1) \<and> r < rc \<and> normal_ok rc d1 \<and> l1 \<le> DISPATCH_MAX \<and>
    normal_dir_map d1 = normal_dir_map d \<and> (bit (normal_dir_map d) r \<longleftrightarrow> min SPAN_THRESHOLD rc \<le> normal_dir_count d)"
  by (rule local_dispatch_ok [OF assms])

lemma local_dispatch_data: "local_dispatch rc d l = Some (r, d1, l1) \<Longrightarrow> \<exists>c. d1 = d\<lparr>local_counter := c\<rparr>"
  by (auto simp: local_dispatch_def next_normal_def split: if_splits option.splits prod.splits)
    (rule exI [of _ "local_counter d"], simp)

definition demo_dir :: sfs_dentry where
  "demo_dir = \<lparr>replicas = (\<lambda>_. None), unused_replica_dentry = None, replica_id = - 1, meta_id = - 1, local_counter = 1,
     global_counter = 0, normal_dir_count = 2, first_normal_dir_id = 0, normal_dir_map = 5\<rparr>"

lemma demo_map: "bit (normal_dir_map demo_dir) i \<longleftrightarrow> i = 0 \<or> i = 2"
proof -
  have "normal_dir_map demo_dir = set_bitmap (set_bitmap 0 0) 2" by (simp add: demo_dir_def set_bitmap_def)
  then show ?thesis by (simp add: bit_set_bitmap)
qed

lemma demo_dir_ok: "normal_ok 3 demo_dir"
proof -
  have "{i. i = (0 :: nat) \<or> i = 2} = {0, 2}" by auto
  then show ?thesis unfolding normal_ok_def demo_map by (auto simp: demo_dir_def)
qed

theorem select_rr_fair_witness:
  "\<exists>rs. rr_run 3 2 demo_dir = Some rs \<and> set rs = {0, 2}"
proof -
  have "int ` {i. bit (normal_dir_map demo_dir) i} = {0, 2}" by (auto simp: demo_map)
  moreover have "normal_dir_count demo_dir = 2" by (simp add: demo_dir_def)
  ultimately show ?thesis using select_rr_fair [OF demo_dir_ok] by auto
qed

theorem local_dispatch_place_witness:
  "\<exists>d1 l1. local_dispatch 3 demo_dir 7 = Some (1, d1, l1)"
proof -
  have c: "normal_dir_count demo_dir = 2" by (simp add: demo_dir_def)
  have l: "7 \<le> DISPATCH_MAX" by (simp add: DISPATCH_MAX_def)
  obtain r d1 l1 where r: "local_dispatch 3 demo_dir 7 = Some (int r, d1, l1)" "r < 3" "\<not> bit (normal_dir_map demo_dir) r"
    using local_dispatch_place [OF demo_dir_ok l] c by (auto simp: SPAN_THRESHOLD_def)
  then have "r = 1" by (auto simp: demo_map numeral_eq_Suc less_Suc_eq)
  then show ?thesis using r by auto
qed

section \<open>Processors\<close>

lemma assign_ratio: "0 < c \<Longrightarrow> (n + c - 1) div c * c = n \<longleftrightarrow> c dvd n" for c n :: nat
proof
  assume c: "0 < c" "c dvd n"
  then obtain k where k: "n = c * k" by blast
  have "(c * k + c - 1) div c = k" using c(1) div_mult_self4 [of c k "c - 1"] by (simp add: div_if)
  then show "(n + c - 1) div c * c = n" using k by simp
qed (metis dvd_triv_right)

text \<open>The processors are distributed one range to each partition and within the table of 16 exactly when the number of
  partitions divides 16; with 3 partitions, for example, two stores are behind the table.\<close>

lemma assign_cpus_bounds:
  assumes "0 < c" and "c \<le> 16"
  shows "(\<exists>st. assign_cpus 16 c = (0, Some st)) \<longleftrightarrow> c dvd 16"
proof -
  have "(16 + c - 1) div c * c \<ge> 16"
    using assms div_mult_mod_eq [of "16 + c - 1" c] mod_less_divisor [of c "16 + c - 1"] by linarith
  then show ?thesis using assign_ratio [OF assms(1), of 16] assms by (auto simp: assign_cpus_def Let_def)
qed

lemma concurrency_balanced: "finish_update (fst (bind_on_update_1 cpu sbi)) (snd (bind_on_update_1 cpu sbi)) = sbi"
  by (simp add: finish_update_def bind_on_update_1_def inc_concurrency_def dec_cocurrency_def Let_def)

end
