(* ===== verification/Sfs_Dir.thy ===== *)
theory Sfs_Dir
  imports MultiLanes_Prelude "HOL-Library.Monad_Syntax"
begin

text \<open>
  Reading a directory of SFS (\<^verbatim>\<open>sfs16/dir.c\<close>): the entries of the directory's replicas on the partitions are
  combined, and a hash table of the directory names that were read removes the names that exist on several partitions.

  A replica file is known by its place in the list of the open file.  What the partitions return is the environment:
  the entries of each replica file in their order and the error of reading it.  \<^verbatim>\<open>iterate\<close> of a partition calls the
  actor for one entry after another from the position on, until the actor returns an error, and keeps the position of
  that entry.  \<open>None\<close> is an access through a null or error pointer or the head of a list, or a write beyond the end of
  an allocated object.
\<close>

section \<open>Data\<close>

datatype d_type = DT_DIR | DT_REG | DT_UNKNOWN | DT_OTHER

record dirent =
  de_name :: string
  de_ino :: nat
  de_type :: d_type

record dir_entry =
  hash :: nat
  offset :: nat
  ino :: nat
  name_len :: nat
  file_type :: d_type
  name :: string

text \<open>\<open>dirent_bucket\<close> is \<open>None\<close> where it holds the error pointer of \<^verbatim>\<open>alloc_hash_table\<close>, which is not tested.\<close>

record dir_info =
  dirent_bucket :: "(nat \<Rightarrow> dir_entry list) option"
  hash_len :: nat
  last_pos :: int
  curr_file :: "nat option"
  end_file :: "nat option"
  curr_major_pos :: int
  curr_minor_pos :: int

text \<open>\<open>actor\<close> is the callback of the caller, with its buffer.  \<open>kmalloc_size n\<close> is the size of the object that \<^verbatim>\<open>kmalloc\<close>
  returns for a request of \<open>n\<close> bytes.\<close>

record 'u dir_env =
  full_name_hash :: "string \<Rightarrow> nat"
  kzalloc_info :: bool
  hash_table_ok :: bool
  kmalloc_entry :: bool
  kmalloc_size :: "nat \<Rightarrow> nat"
  rf_count :: nat
  rf_entries :: "nat \<Rightarrow> dirent list"
  rf_isize :: "nat \<Rightarrow> int"
  rf_err :: "nat \<Rightarrow> errcode"
  dir_isize :: nat
  actor :: "dirent \<Rightarrow> int \<Rightarrow> 'u \<Rightarrow> errcode \<times> 'u"

record 'u dir_state =
  ds_info :: "dir_info option"
  ds_fpos :: "nat \<Rightarrow> nat"
  ds_user :: 'u
  ds_pos :: int

section \<open>The hash table\<close>

definition AVARAGE_DIR_LEN :: nat where "AVARAGE_DIR_LEN = 32"

definition caculate_hash_len :: "nat \<Rightarrow> nat" where
  "caculate_hash_len sz = (let ret = sz div AVARAGE_DIR_LEN mod 2 ^ 32 in if ret < 2 ^ 6 then 2 ^ 6 else ret)"

definition alloc_hash_table :: "'u dir_env \<Rightarrow> (nat \<Rightarrow> dir_entry list) option" where
  "alloc_hash_table E = (if hash_table_ok E then Some (\<lambda>_. []) else None)"

definition sfs_alloc_dir_info :: "'u dir_env \<Rightarrow> dir_info option" where
  "sfs_alloc_dir_info E =
     (if kzalloc_info E
      then Some \<lparr>dirent_bucket = alloc_hash_table E, hash_len = caculate_hash_len (dir_isize E), last_pos = 0, curr_file = None,
                 end_file = None, curr_major_pos = 0, curr_minor_pos = 0\<rparr>
      else None)"

fun dir_string_cmp :: "string \<Rightarrow> string \<Rightarrow> nat \<Rightarrow> nat" where
  "dir_string_cmp (c # cs) (d # ds) n = (if c \<noteq> d then 1 else if n = 1 then 0 else dir_string_cmp cs ds (n - 1))"
| "dir_string_cmp _ _ n = 0"

text \<open>The old table is walked and freed before the new one is allocated.\<close>

definition sfs_refresh_hash_dirent :: "'u dir_env \<Rightarrow> dir_info \<Rightarrow> dir_info option" where
  "sfs_refresh_hash_dirent E info =
     (let n = caculate_hash_len (dir_isize E) in
      if hash_len info + 2 ^ 6 < n
      then map_option (\<lambda>_. info\<lparr>hash_len := n, dirent_bucket := alloc_hash_table E\<rparr>) (dirent_bucket info)
      else Some info)"

definition dir_lookup :: "dir_info \<Rightarrow> string \<Rightarrow> nat \<Rightarrow> bool option" where
  "dir_lookup info nm h =
     map_option (\<lambda>b. find (\<lambda>e. hash e = h \<and> name_len e = length nm \<and> dir_string_cmp (name e) nm (length nm) = 0)
                       (b (h mod hash_len info)) \<noteq> None) (dirent_bucket info)"

definition dir_hash_add :: "dir_info \<Rightarrow> dir_entry \<Rightarrow> dir_info option" where
  "dir_hash_add info e =
     map_option (\<lambda>b. info\<lparr>dirent_bucket := Some (b(hash e mod hash_len info := e # b (hash e mod hash_len info)))\<rparr>)
       (dirent_bucket info)"

section \<open>Callbacks\<close>

definition sfs_skip_filldir :: "int \<Rightarrow> dirent \<Rightarrow> nat \<Rightarrow> dir_info \<Rightarrow> (errcode \<times> dir_info) option" where
  "sfs_skip_filldir inline_pos de off info =
     (let p = curr_minor_pos info + int (length (de_name de)) in
      Some (if inline_pos < p then (- EINVAL, info) else (0, info\<lparr>curr_minor_pos := p\<rparr>)))"

definition add_minor :: "dirent \<Rightarrow> dir_info \<Rightarrow> dir_info" where
  "add_minor de info = info\<lparr>curr_minor_pos := curr_minor_pos info + int (length (de_name de))\<rparr>"

text \<open>The size of \<^verbatim>\<open>struct dir_entry\<close> and the place of its member \<^verbatim>\<open>name\<close>, an array of one character: two pointers, the
  hash and padding, the offset, the inode number, two bytes, and the name.  \<^verbatim>\<open>kmalloc\<close> is asked for the size of the
  structure, whatever the length of the name that is then copied.\<close>

definition DIR_ENTRY_SIZE :: nat where "DIR_ENTRY_SIZE = 40"
definition DIR_ENTRY_NAME :: nat where "DIR_ENTRY_NAME = 38"

definition name_fits :: "'u dir_env \<Rightarrow> dirent \<Rightarrow> bool" where
  "name_fits E de \<longleftrightarrow> DIR_ENTRY_NAME + length (de_name de) \<le> kmalloc_size E DIR_ENTRY_SIZE"

definition new_dirent :: "'u dir_env \<Rightarrow> dirent \<Rightarrow> nat \<Rightarrow> nat \<Rightarrow> dir_entry option" where
  "new_dirent E de off h =
     (if name_fits E de
      then Some \<lparr>hash = h, offset = off, ino = de_ino de mod 2 ^ 32, name_len = length (de_name de) mod 256,
                 file_type = de_type de, name = de_name de\<rparr>
      else None)"

definition emit :: "'u dir_env \<Rightarrow> dirent \<Rightarrow> dir_info \<times> 'u \<Rightarrow> errcode \<times> dir_info \<times> 'u" where
  "emit E de c =
     (case c of (info, u) \<Rightarrow>
        (case actor E de (curr_major_pos info + curr_minor_pos info) u of (err, u1) \<Rightarrow>
           (err, if err = 0 then add_minor de info else info, u1)))"

definition sfs_filldir :: "'u dir_env \<Rightarrow> dirent \<Rightarrow> nat \<Rightarrow> dir_info \<times> 'u \<Rightarrow> (errcode \<times> dir_info \<times> 'u) option" where
  "sfs_filldir E de off c =
     (case c of (info, u) \<Rightarrow>
        (let h = full_name_hash E (de_name de) in
         if de_type de = DT_DIR \<or> de_type de = DT_UNKNOWN then do {
           found \<leftarrow> dir_lookup info (de_name de) h;
           if found then Some (0, add_minor de info, u)
           else if \<not> kmalloc_entry E then Some (- ENOMEM, info, u)
           else do {
             e \<leftarrow> new_dirent E de off h;
             info1 \<leftarrow> dir_hash_add info e;
             Some (emit E de (info1, u))
           }
         }
         else Some (emit E de (info, u))))"

text \<open>\<^verbatim>\<open>iterate\<close> of a partition.\<close>

fun run_entries :: "(dirent \<Rightarrow> nat \<Rightarrow> 'c \<Rightarrow> (errcode \<times> 'c) option) \<Rightarrow> dirent list \<Rightarrow> nat \<Rightarrow> 'c \<Rightarrow> (nat \<times> 'c) option" where
  "run_entries act [] pos c = Some (pos, c)"
| "run_entries act (e # es) pos c = do {
     (err, c1) \<leftarrow> act e pos c;
     if err \<noteq> 0 then Some (pos, c1) else run_entries act es (Suc pos) c1
   }"

definition iterate ::
  "'u dir_env \<Rightarrow> nat \<Rightarrow> (dirent \<Rightarrow> nat \<Rightarrow> 'c \<Rightarrow> (errcode \<times> 'c) option) \<Rightarrow> nat \<Rightarrow> 'c \<Rightarrow> (errcode \<times> nat \<times> 'c) option" where
  "iterate E k act pos c =
     (if rf_err E k \<noteq> 0 then Some (rf_err E k, pos, c)
      else map_option (\<lambda>r. (0, r)) (run_entries act (drop pos (rf_entries E k)) pos c))"

section \<open>Positions\<close>

text \<open>The replica file that a position lies in, with the bytes of the files before it and the rest.\<close>

fun seek_file :: "'u dir_env \<Rightarrow> nat list \<Rightarrow> int \<Rightarrow> int \<Rightarrow> nat option \<times> int \<times> int" where
  "seek_file E [] major inline_pos = (None, major, inline_pos)"
| "seek_file E (k # ks) major inline_pos =
     (if rf_isize E k \<le> inline_pos then seek_file E ks (major + rf_isize E k) (inline_pos - rf_isize E k)
      else (Some k, major, inline_pos))"

text \<open>The callback of the skip is set up before the loop, with the whole position; its own position is not stored to the
  replica file.\<close>

definition sfs_dir_seek ::
  "'u dir_env \<Rightarrow> int \<Rightarrow> dir_info \<Rightarrow> (nat \<Rightarrow> nat) \<Rightarrow> (errcode \<times> dir_info \<times> (nat \<Rightarrow> nat)) option" where
  "sfs_dir_seek E f_pos info fpos =
     (case seek_file E [0..<rf_count E] 0 f_pos of (cur, major, inline_pos) \<Rightarrow>
        (let info1 = info\<lparr>curr_file := cur, curr_major_pos := major, curr_minor_pos := 0\<rparr> in
         case cur of
           None \<Rightarrow> Some (- EINVAL, info1, fpos)
         | Some k \<Rightarrow>
             if inline_pos \<noteq> 0 then do {
               (err, _, info2) \<leftarrow> iterate E k (sfs_skip_filldir f_pos) 0 info1;
               Some (err, info2, fpos(k := 0))
             }
             else Some (0, info1, fpos(k := 0))))"

section \<open>Reading\<close>

text \<open>The loop over the replica files; the first component tells an error of a partition.\<close>

fun read_files ::
  "'u dir_env \<Rightarrow> nat list \<Rightarrow> dir_info \<Rightarrow> (nat \<Rightarrow> nat) \<Rightarrow> 'u \<Rightarrow> (errcode \<times> dir_info \<times> (nat \<Rightarrow> nat) \<times> 'u) option" where
  "read_files E [] info fpos u = Some (0, info\<lparr>curr_file := None\<rparr>, fpos, u)"
| "read_files E (k # ks) info fpos u = do {
     (error, p, info1, u1) \<leftarrow> iterate E k (sfs_filldir E) (fpos k) (info\<lparr>curr_file := Some k, end_file := Some k\<rparr>, u);
     if error \<noteq> 0 then Some (error, info1, fpos(k := p), u1)
     else read_files E ks (info1\<lparr>curr_major_pos := curr_major_pos info1 + rf_isize E k, curr_minor_pos := 0\<rparr>)
            (fpos(k := 0)) u1
   }"

definition finish :: "errcode \<times> dir_info \<times> (nat \<Rightarrow> nat) \<times> 'u \<Rightarrow> errcode \<times> 'u dir_state" where
  "finish r =
     (case r of (error, info, fpos, u) \<Rightarrow>
        (let p = curr_major_pos info + curr_minor_pos info
         in (error, \<lparr>ds_info = Some (info\<lparr>last_pos := p\<rparr>), ds_fpos = fpos, ds_user = u, ds_pos = p\<rparr>)))"

definition iterate_from :: "'u dir_env \<Rightarrow> dir_info \<Rightarrow> (nat \<Rightarrow> nat) \<Rightarrow> 'u dir_state \<Rightarrow> (errcode \<times> 'u dir_state) option" where
  "iterate_from E info fpos st =
     (case curr_file info of
        Some k \<Rightarrow> map_option finish (read_files E [k..<rf_count E] info fpos (ds_user st))
      | None \<Rightarrow>
          (case end_file info of
             None \<Rightarrow> None
           | Some e \<Rightarrow>
               if Suc e < rf_count E
               then map_option finish (read_files E [Suc e..<rf_count E] info fpos (ds_user st))
               else Some (0, st\<lparr>ds_info := Some info, ds_fpos := fpos\<rparr>)))"

definition seek_if_moved :: "'u dir_env \<Rightarrow> dir_info \<Rightarrow> 'u dir_state \<Rightarrow> (errcode \<times> dir_info \<times> (nat \<Rightarrow> nat)) option" where
  "seek_if_moved E info st =
     (if ds_pos st \<noteq> last_pos info then do {
        info1 \<leftarrow> sfs_refresh_hash_dirent E info;
        sfs_dir_seek E (ds_pos st) info1 (ds_fpos st)
      }
      else Some (0, info, ds_fpos st))"

definition sfs_iterate :: "'u dir_env \<Rightarrow> 'u dir_state \<Rightarrow> (errcode \<times> 'u dir_state) option" where
  "sfs_iterate E st =
     (case (case ds_info st of None \<Rightarrow> sfs_alloc_dir_info E | Some info \<Rightarrow> Some info) of
        None \<Rightarrow> Some (- ENOMEM, st)
      | Some info \<Rightarrow> do {
          (error, info1, fpos) \<leftarrow> seek_if_moved E info st;
          if error \<noteq> 0 then Some (finish (error, info1, fpos, ds_user st))
          else if ds_pos st = 0 then
            (if rf_count E = 0 then None
             else iterate_from E (info1\<lparr>curr_file := Some 0, curr_major_pos := 0, curr_minor_pos := 0\<rparr>) (fpos(0 := 0)) st)
          else iterate_from E info1 fpos st
        })"

section \<open>The table is a set of names\<close>

abbreviation dir_like :: "dirent \<Rightarrow> bool" where
  "dir_like de \<equiv> de_type de = DT_DIR \<or> de_type de = DT_UNKNOWN"

definition name_ok :: "dirent \<Rightarrow> bool" where
  "name_ok de \<longleftrightarrow> de_name de \<noteq> [] \<and> length (de_name de) < 256"

definition table_names :: "dir_info \<Rightarrow> string set" where
  "table_names info = (case dirent_bucket info of None \<Rightarrow> {} | Some b \<Rightarrow> (\<Union>i. name ` set (b i)))"

definition table_ok :: "(string \<Rightarrow> nat) \<Rightarrow> dir_info \<Rightarrow> bool" where
  "table_ok H info \<longleftrightarrow>
     (\<exists>b. dirent_bucket info = Some b \<and>
       (\<forall>i. \<forall>e \<in> set (b i). hash e = H (name e) \<and> H (name e) mod hash_len info = i \<and> name_len e = length (name e)))"

lemma dir_string_cmp_eq:
  "length cs = n \<Longrightarrow> length ds = n \<Longrightarrow> n \<noteq> 0 \<Longrightarrow> dir_string_cmp cs ds n = 0 \<longleftrightarrow> cs = ds"
proof (induction cs ds n rule: dir_string_cmp.induct)
  case (1 c cs d ds n)
  then show ?case by (cases "n = 1") auto
qed auto

lemma table_okE:
  assumes "table_ok H info"
  obtains b where "dirent_bucket info = Some b" "table_names info = (\<Union>i. name ` set (b i))"
    "\<And>e i. e \<in> set (b i) \<Longrightarrow> hash e = H (name e) \<and> H (name e) mod hash_len info = i \<and> name_len e = length (name e)"
  using assms unfolding table_ok_def table_names_def by fastforce

lemma dir_lookup_names:
  assumes "table_ok H info" and "nm \<noteq> []"
  shows "dir_lookup info nm (H nm) = Some (nm \<in> table_names info)"
proof -
  obtain b where b: "dirent_bucket info = Some b" "table_names info = (\<Union>i. name ` set (b i))"
    "\<And>e i. e \<in> set (b i) \<Longrightarrow> hash e = H (name e) \<and> H (name e) mod hash_len info = i \<and> name_len e = length (name e)"
    using table_okE [OF assms(1)] by blast
  let ?b = "set (b (H nm mod hash_len info))"
  have c: "hash e = H nm \<and> name_len e = length nm \<and> dir_string_cmp (name e) nm (length nm) = 0 \<longleftrightarrow> name e = nm" if "e \<in> ?b" for e
    using b(3) [OF that] dir_string_cmp_eq [of "name e" "length nm" nm] assms(2) by (cases "length (name e) = length nm") auto
  have "find (\<lambda>e. hash e = H nm \<and> name_len e = length nm \<and> dir_string_cmp (name e) nm (length nm) = 0)
      (b (H nm mod hash_len info)) \<noteq> None \<longleftrightarrow>
      (\<exists>e \<in> ?b. hash e = H nm \<and> name_len e = length nm \<and> dir_string_cmp (name e) nm (length nm) = 0)"
    unfolding find_None_iff by blast
  also have "\<dots> \<longleftrightarrow> (\<exists>e \<in> ?b. name e = nm)" using c by blast
  also have "\<dots> \<longleftrightarrow> nm \<in> table_names info" unfolding b(2) using b(3) by blast
  finally show ?thesis by (simp add: dir_lookup_def b(1))
qed

lemma names_add: "(\<Union>i. name ` set ((f(j := x # f j)) i)) = insert (name x) (\<Union>i. name ` set (f i))"
proof (intro equalityI subsetI)
  fix z assume "z \<in> insert (name x) (\<Union>i. name ` set (f i))"
  then consider "z = name x" | i where "z \<in> name ` set (f i)" by blast
  then show "z \<in> (\<Union>i. name ` set ((f(j := x # f j)) i))" by cases (auto intro: UN_I [of j] UN_I)
qed (auto split: if_splits)

definition entry_ok :: "'u dir_env \<Rightarrow> dirent \<Rightarrow> bool" where
  "entry_ok E de \<longleftrightarrow> name_ok de \<and> (dir_like de \<longrightarrow> name_fits E de)"

lemma dir_hash_add_names:
  assumes "table_ok H info" and "name_ok de" and "name_fits E de"
  obtains e info1 where "new_dirent E de off (H (de_name de)) = Some e" "dir_hash_add info e = Some info1" "table_ok H info1"
    "table_names info1 = insert (de_name de) (table_names info)" "curr_major_pos info1 = curr_major_pos info"
    "hash_len info1 = hash_len info" "last_pos info1 = last_pos info" "end_file info1 = end_file info"
proof -
  obtain b where b: "dirent_bucket info = Some b" "table_names info = (\<Union>i. name ` set (b i))"
    "\<And>e i. e \<in> set (b i) \<Longrightarrow> hash e = H (name e) \<and> H (name e) mod hash_len info = i \<and> name_len e = length (name e)"
    using table_okE [OF assms(1)] by blast
  let ?h = "H (de_name de)"
  let ?e = "\<lparr>hash = ?h, offset = off, ino = de_ino de mod 2 ^ 32, name_len = length (de_name de) mod 256,
    file_type = de_type de, name = de_name de\<rparr>"
  let ?b = "b(?h mod hash_len info := ?e # b (?h mod hash_len info))"
  have "table_ok H (info\<lparr>dirent_bucket := Some ?b\<rparr>)" using b(3) assms(2) by (simp add: table_ok_def name_ok_def)
  moreover have "table_names (info\<lparr>dirent_bucket := Some ?b\<rparr>) = insert (de_name de) (table_names info)"
    using names_add [of b "?h mod hash_len info" ?e] b(2) by (simp add: table_names_def)
  ultimately show thesis
    using that [of ?e "info\<lparr>dirent_bucket := Some ?b\<rparr>"] assms(3) b(1) by (simp add: new_dirent_def dir_hash_add_def)
qed

lemma table_fields:
  "table_ok H (info\<lparr>curr_minor_pos := a\<rparr>) = table_ok H info" "table_ok H (info\<lparr>curr_major_pos := a\<rparr>) = table_ok H info"
  "table_ok H (info\<lparr>curr_file := c\<rparr>) = table_ok H info" "table_ok H (info\<lparr>end_file := c\<rparr>) = table_ok H info"
  "table_ok H (info\<lparr>last_pos := a\<rparr>) = table_ok H info"
  "table_names (info\<lparr>curr_minor_pos := a\<rparr>) = table_names info" "table_names (info\<lparr>curr_major_pos := a\<rparr>) = table_names info"
  "table_names (info\<lparr>curr_file := c\<rparr>) = table_names info" "table_names (info\<lparr>end_file := c\<rparr>) = table_names info"
  "table_names (info\<lparr>last_pos := a\<rparr>) = table_names info"
  by (simp_all add: table_ok_def table_names_def)

section \<open>What is listed\<close>

text \<open>The entries that are passed on when the names in \<open>S\<close> were read before.\<close>

fun merge :: "string set \<Rightarrow> dirent list \<Rightarrow> dirent list" where
  "merge S [] = []"
| "merge S (e # es) =
     (if dir_like e then (if de_name e \<in> S then merge S es else e # merge (insert (de_name e) S) es) else e # merge S es)"

definition dir_names :: "dirent list \<Rightarrow> string set" where
  "dir_names es = {de_name e | e. e \<in> set es \<and> dir_like e}"

lemma dir_names_simps [simp]:
  "dir_names [] = {}" "dir_names (e # es) = (if dir_like e then insert (de_name e) (dir_names es) else dir_names es)"
  "dir_names (es @ fs) = dir_names es \<union> dir_names fs"
  by (auto simp: dir_names_def)

lemma merge_append: "merge S (es @ fs) = merge S es @ merge (S \<union> dir_names es) fs"
  by (induction S es rule: merge.induct) (auto simp: insert_absorb)

lemma merge_files: "filter (\<lambda>e. \<not> dir_like e) (merge S es) = filter (\<lambda>e. \<not> dir_like e) es"
  by (induction S es rule: merge.induct) auto

lemma merge_dir_names: "dir_names (merge S es) = dir_names es - S"
  by (induction S es rule: merge.induct) auto

lemma merge_distinct: "distinct (map de_name (filter (\<lambda>e. dir_like e) (merge S es)))"
proof (induction S es rule: merge.induct)
  case (2 S e es)
  have "de_name e \<notin> dir_names (merge (insert (de_name e) S) es)" by (simp add: merge_dir_names)
  then show ?case using 2 by (auto simp: dir_names_def)
qed simp

lemma merge_all_read: "dir_names es \<subseteq> S \<Longrightarrow> merge S es = filter (\<lambda>e. \<not> dir_like e) es"
  by (induction S es rule: merge.induct) (auto split: if_splits)

text \<open>An environment without failures whose caller takes every entry, with names of directories that fit the objects
  allocated for them.\<close>

definition takes_all :: "'u dir_env \<Rightarrow> (dirent \<Rightarrow> 'u \<Rightarrow> 'u) \<Rightarrow> bool" where
  "takes_all E app \<longleftrightarrow>
     kzalloc_info E \<and> hash_table_ok E \<and> kmalloc_entry E \<and> (\<forall>k. rf_err E k = 0) \<and> (\<forall>de p u. actor E de p u = (0, app de u)) \<and>
     (\<forall>k < rf_count E. \<forall>de \<in> set (rf_entries E k). entry_ok E de) \<and> 0 < rf_count E \<and> (\<forall>k < rf_count E. 0 < rf_isize E k)"

lemma takes_allD:
  assumes "takes_all E app"
  shows "kzalloc_info E" "kmalloc_entry E" "rf_err E k = 0" "actor E de p u = (0, app de u)" "0 < rf_count E"
    "k < rf_count E \<Longrightarrow> \<forall>de \<in> set (rf_entries E k). entry_ok E de" "k < rf_count E \<Longrightarrow> 0 < rf_isize E k"
  using assms unfolding takes_all_def by blast+

lemma sfs_filldir_takes:
  assumes "takes_all E app" and "table_ok (full_name_hash E) info" and "entry_ok E de"
  obtains info1 where "sfs_filldir E de off (info, u) = Some (0, info1, fold app (merge (table_names info) [de]) u)"
    "table_ok (full_name_hash E) info1" "table_names info1 = table_names info \<union> dir_names [de]"
    "curr_major_pos info1 = curr_major_pos info" "hash_len info1 = hash_len info" "last_pos info1 = last_pos info"
    "end_file info1 = end_file info"
proof -
  have n: "name_ok de" "dir_like de \<Longrightarrow> name_fits E de" using assms(3) by (auto simp: entry_ok_def)
  have l: "dir_lookup info (de_name de) (full_name_hash E (de_name de)) = Some (de_name de \<in> table_names info)"
    using dir_lookup_names [OF assms(2)] n(1) by (simp add: name_ok_def)
  have e: "emit E de (i, u) = (0, add_minor de i, app de u)" for i using assms(1) by (simp add: emit_def takes_all_def)
  show thesis
  proof (cases "dir_like de \<and> de_name de \<notin> table_names info")
    case True
    obtain x i1 where x: "new_dirent E de off (full_name_hash E (de_name de)) = Some x" "dir_hash_add info x = Some i1"
      "table_ok (full_name_hash E) i1" "table_names i1 = insert (de_name de) (table_names info)" "curr_major_pos i1 = curr_major_pos info"
      "hash_len i1 = hash_len info" "last_pos i1 = last_pos info" "end_file i1 = end_file info"
      using dir_hash_add_names [OF assms(2) n(1) n(2)] True by blast
    then show ?thesis
      using True that [of "add_minor de i1"] l e assms(1)
      by (auto simp: sfs_filldir_def takes_all_def add_minor_def table_fields Let_def)
  next
    case False
    then show ?thesis using that [of "add_minor de info"] l e assms(1,2)
      by (auto simp: sfs_filldir_def takes_all_def add_minor_def table_fields Let_def insert_absorb split: if_splits)
  qed
qed

lemma run_entries_takes:
  assumes "takes_all E app" and "table_ok (full_name_hash E) info" and "\<forall>de \<in> set es. entry_ok E de"
  obtains p info1 where "run_entries (sfs_filldir E) es pos (info, u) = Some (p, info1, fold app (merge (table_names info) es) u)"
    "table_ok (full_name_hash E) info1" "table_names info1 = table_names info \<union> dir_names es"
    "curr_major_pos info1 = curr_major_pos info" "hash_len info1 = hash_len info" "last_pos info1 = last_pos info"
    "end_file info1 = end_file info"
  using assms(2,3)
proof (induction es arbitrary: info pos u thesis)
  case Nil
  then show ?case by simp
next
  case (Cons e es)
  have ne: "entry_ok E e" "\<forall>de \<in> set es. entry_ok E de" using Cons.prems(3) by simp_all
  obtain i1 where i1: "sfs_filldir E e pos (info, u) = Some (0, i1, fold app (merge (table_names info) [e]) u)"
    "table_ok (full_name_hash E) i1" "table_names i1 = table_names info \<union> dir_names [e]"
    "curr_major_pos i1 = curr_major_pos info" "hash_len i1 = hash_len info" "last_pos i1 = last_pos info"
    "end_file i1 = end_file info"
    by (rule sfs_filldir_takes [OF assms(1) Cons.prems(2) ne(1)])
  obtain p i2 where i2: "run_entries (sfs_filldir E) es (Suc pos) (i1, fold app (merge (table_names info) [e]) u) =
      Some (p, i2, fold app (merge (table_names i1) es) (fold app (merge (table_names info) [e]) u))"
    "table_ok (full_name_hash E) i2" "table_names i2 = table_names i1 \<union> dir_names es"
    "curr_major_pos i2 = curr_major_pos i1" "hash_len i2 = hash_len i1" "last_pos i2 = last_pos i1" "end_file i2 = end_file i1"
    by (rule Cons.IH [OF _ i1(2) ne(2)])
  have "merge (table_names info) (e # es) = merge (table_names info) [e] @ merge (table_names i1) es"
    using merge_append [of "table_names info" "[e]" es] i1(3) by simp
  then show ?case
    using Cons.prems(1) [of p i2] i1 i2 by (simp add: Un_assoc)
qed

lemma read_files_takes:
  assumes "takes_all E app" and "table_ok (full_name_hash E) info" and "set ks \<subseteq> {..<rf_count E}" and "\<forall>k. fpos k = 0"
  obtains info1 where
    "read_files E ks info fpos u = Some (0, info1, fpos, fold app (merge (table_names info) (concat (map (rf_entries E) ks))) u)"
    "table_ok (full_name_hash E) info1" "table_names info1 = table_names info \<union> dir_names (concat (map (rf_entries E) ks))"
    "curr_file info1 = None" "hash_len info1 = hash_len info"
    "end_file info1 = (if ks = [] then end_file info else Some (last ks))"
    "curr_major_pos info1 = curr_major_pos info + (\<Sum>k\<leftarrow>ks. rf_isize E k)" "ks \<noteq> [] \<longrightarrow> curr_minor_pos info1 = 0"
  using assms(2,3)
proof (induction ks arbitrary: info u thesis)
  case Nil
  show ?case by (rule Nil.prems(1) [of "info\<lparr>curr_file := None\<rparr>"]) (use Nil.prems(2) in \<open>simp_all add: table_fields\<close>)
next
  case (Cons k ks)
  let ?es = "rf_entries E k" and ?i = "info\<lparr>curr_file := Some k, end_file := Some k\<rparr>"
  have ok: "table_ok (full_name_hash E) ?i" "\<forall>de \<in> set ?es. entry_ok E de"
    using Cons.prems(2,3) takes_allD(6) [OF assms(1), of k] by (simp_all add: table_fields)
  obtain p i1 where i1: "run_entries (sfs_filldir E) ?es 0 (?i, u) = Some (p, i1, fold app (merge (table_names ?i) ?es) u)"
    "table_ok (full_name_hash E) i1" "table_names i1 = table_names ?i \<union> dir_names ?es" "curr_major_pos i1 = curr_major_pos ?i"
    "hash_len i1 = hash_len ?i" "last_pos i1 = last_pos ?i" "end_file i1 = end_file ?i"
    by (rule run_entries_takes [OF assms(1) ok])
  let ?i2 = "i1\<lparr>curr_major_pos := curr_major_pos i1 + rf_isize E k, curr_minor_pos := 0\<rparr>"
    and ?u = "fold app (merge (table_names info) ?es) u"
  have ok2: "table_ok (full_name_hash E) ?i2" "set ks \<subseteq> {..<rf_count E}" using i1(2) Cons.prems(3) by (simp_all add: table_fields)
  obtain i3 where i3: "read_files E ks ?i2 fpos ?u = Some (0, i3, fpos, fold app (merge (table_names ?i2) (concat (map (rf_entries E) ks))) ?u)"
    "table_ok (full_name_hash E) i3" "table_names i3 = table_names ?i2 \<union> dir_names (concat (map (rf_entries E) ks))"
    "curr_file i3 = None" "hash_len i3 = hash_len ?i2"
    "end_file i3 = (if ks = [] then end_file ?i2 else Some (last ks))"
    "curr_major_pos i3 = curr_major_pos ?i2 + (\<Sum>k\<leftarrow>ks. rf_isize E k)" "ks \<noteq> [] \<longrightarrow> curr_minor_pos i3 = 0"
    by (rule Cons.IH [OF _ ok2])
  have f: "fpos(k := 0) = fpos" using assms(4) by auto
  have "ks = [] \<Longrightarrow> i3 = ?i2\<lparr>curr_file := None\<rparr>" using i3(1) by simp
  then have m: "curr_minor_pos i3 = 0" using i3(8) by (cases "ks = []") simp_all
  have t: "table_names ?i = table_names info" "table_names ?i2 = table_names info \<union> dir_names ?es"
    using i1(3) by (simp_all add: table_fields)
  have "read_files E (k # ks) info fpos u = Some (0, i3, fpos, fold app (merge (table_names info) (concat (map (rf_entries E) (k # ks)))) u)"
    using i1(1) i3(1) assms(4) f t by (simp add: iterate_def takes_allD [OF assms(1)] merge_append)
  then show ?case by (rule Cons.prems(1)) (use i1 i3 t m in \<open>simp_all add: Un_assoc\<close>)
qed

text \<open>A state between two readings of the whole directory.\<close>

definition rest_state :: "'u dir_env \<Rightarrow> 'u dir_state \<Rightarrow> bool" where
  "rest_state E st \<longleftrightarrow> ds_pos st = 0 \<and> (\<forall>k. ds_fpos st k = 0) \<and>
     (\<forall>info. ds_info st = Some info \<longrightarrow> table_ok (full_name_hash E) info \<and> hash_len info = caculate_hash_len (dir_isize E))"

definition read_names :: "'u dir_state \<Rightarrow> string set" where
  "read_names st = (case ds_info st of None \<Rightarrow> {} | Some info \<Rightarrow> table_names info)"

abbreviation all_entries :: "'u dir_env \<Rightarrow> dirent list" where
  "all_entries E \<equiv> concat (map (rf_entries E) [0..<rf_count E])"

lemma start_reading:
  assumes "takes_all E app" and "rest_state E st"
  obtains info where "sfs_iterate E st = iterate_from E (info\<lparr>curr_file := Some 0, curr_major_pos := 0, curr_minor_pos := 0\<rparr>) (ds_fpos st) st"
    "table_ok (full_name_hash E) info" "table_names info = read_names st" "hash_len info = caculate_hash_len (dir_isize E)"
proof -
  obtain info0 where i0: "(case ds_info st of None \<Rightarrow> sfs_alloc_dir_info E | Some info \<Rightarrow> Some info) = Some info0"
    "table_ok (full_name_hash E) info0" "table_names info0 = read_names st" "hash_len info0 = caculate_hash_len (dir_isize E)"
    using assms by (cases "ds_info st")
      (auto simp: sfs_alloc_dir_info_def takes_all_def rest_state_def read_names_def table_ok_def table_names_def alloc_hash_table_def)
  have f: "(ds_fpos st)(0 := 0) = ds_fpos st" using assms(2) by (auto simp: rest_state_def)
  have "0 < rf_count E" "0 < rf_isize E 0" using takes_allD [OF assms(1)] by blast+
  then have k: "[0..<rf_count E] = 0 # [1..<rf_count E]" "0 < rf_isize E 0" by (simp_all add: upt_conv_Cons)
  have "sfs_refresh_hash_dirent E info0 = Some info0" using i0(4) by (simp add: sfs_refresh_hash_dirent_def)
  moreover have "sfs_dir_seek E 0 info0 (ds_fpos st) =
      Some (0, info0\<lparr>curr_file := Some 0, curr_major_pos := 0, curr_minor_pos := 0\<rparr>, ds_fpos st)"
    using k f by (simp add: sfs_dir_seek_def)
  ultimately have "sfs_iterate E st = iterate_from E (info0\<lparr>curr_file := Some 0, curr_major_pos := 0, curr_minor_pos := 0\<rparr>) (ds_fpos st) st"
    using i0(1) assms f k(1) by (auto simp: sfs_iterate_def seek_if_moved_def rest_state_def takes_all_def)
  then show thesis using that i0 by blast
qed

lemma fold_snoc: "fold (\<lambda>x u. u @ [x]) xs u = u @ xs"
  by (induction xs arbitrary: u) simp_all

lemma whole_reading:
  assumes "takes_all E app" and "rest_state E st"
  obtains st1 info1 where "sfs_iterate E st = Some (0, st1)" "ds_user st1 = fold app (merge (read_names st) (all_entries E)) (ds_user st)"
    "ds_info st1 = Some info1" "table_ok (full_name_hash E) info1" "table_names info1 = read_names st \<union> dir_names (all_entries E)"
    "hash_len info1 = caculate_hash_len (dir_isize E)" "ds_fpos st1 = ds_fpos st" "0 < ds_pos st1"
proof -
  obtain info where i: "sfs_iterate E st = iterate_from E (info\<lparr>curr_file := Some 0, curr_major_pos := 0, curr_minor_pos := 0\<rparr>) (ds_fpos st) st"
    "table_ok (full_name_hash E) info" "table_names info = read_names st" "hash_len info = caculate_hash_len (dir_isize E)"
    by (rule start_reading [OF assms])
  let ?i = "info\<lparr>curr_file := Some 0, curr_major_pos := 0, curr_minor_pos := 0\<rparr>"
  have h: "table_ok (full_name_hash E) ?i" "set [0..<rf_count E] \<subseteq> {..<rf_count E}" "\<forall>k. ds_fpos st k = 0"
    using i(2) assms(2) by (auto simp: table_fields rest_state_def)
  obtain i1 where i1: "read_files E [0..<rf_count E] ?i (ds_fpos st) (ds_user st) =
      Some (0, i1, ds_fpos st, fold app (merge (table_names ?i) (all_entries E)) (ds_user st))"
    "table_ok (full_name_hash E) i1" "table_names i1 = table_names ?i \<union> dir_names (all_entries E)" "curr_file i1 = None"
    "hash_len i1 = hash_len ?i" "end_file i1 = (if [0..<rf_count E] = [] then end_file ?i else Some (last [0..<rf_count E]))"
    "curr_major_pos i1 = curr_major_pos ?i + (\<Sum>k\<leftarrow>[0..<rf_count E]. rf_isize E k)"
    "[0..<rf_count E] \<noteq> [] \<longrightarrow> curr_minor_pos i1 = 0"
    by (rule read_files_takes [OF assms(1) h])
  have n: "0 < rf_count E" "\<forall>k \<in> set [0..<rf_count E]. 0 < rf_isize E k" using takes_allD(5,7) [OF assms(1)] by auto
  then have "0 < (\<Sum>k\<leftarrow>[0..<rf_count E]. rf_isize E k)"
    using sum_pos [of "set [0..<rf_count E]" "rf_isize E"] by (simp add: interv_sum_list_conv_sum_set_nat)
  then have "0 < curr_major_pos i1 + curr_minor_pos i1" using i1(7,8) n by simp
  moreover define st1 where "st1 = snd (finish (0, i1, ds_fpos st, fold app (merge (table_names ?i) (all_entries E)) (ds_user st)))"
  moreover have "sfs_iterate E st = Some (0, st1)" using i(1) i1(1) by (simp add: iterate_from_def st1_def finish_def Let_def)
  ultimately show thesis
    using i(3,4) i1(2,3,5) by (intro that [of st1 "i1\<lparr>last_pos := curr_major_pos i1 + curr_minor_pos i1\<rparr>"])
      (simp_all add: finish_def Let_def table_fields)
qed

text \<open>C31. Reading a newly opened directory.  Let the allocations succeed, the partitions report no error, the buffer of the
  caller take every entry, and every directory name fit the object that is allocated for it.  The reading lists
  every file of every partition in its place and every directory name exactly once.\<close>

theorem dir_read_complete:
  assumes "takes_all E (\<lambda>de u. u @ [de])" and "ds_info st = None" and "ds_pos st = 0" and "\<forall>k. ds_fpos st k = 0" and "ds_user st = []"
  shows "\<exists>st1. sfs_iterate E st = Some (0, st1) \<and>
    filter (\<lambda>e. \<not> dir_like e) (ds_user st1) = filter (\<lambda>e. \<not> dir_like e) (all_entries E) \<and>
    distinct (map de_name (filter (\<lambda>e. dir_like e) (ds_user st1))) \<and> dir_names (ds_user st1) = dir_names (all_entries E)"
proof -
  have "rest_state E st" using assms(2-4) by (simp add: rest_state_def)
  then obtain st1 where st1: "sfs_iterate E st = Some (0, st1)"
      "ds_user st1 = fold (\<lambda>de u. u @ [de]) (merge (read_names st) (all_entries E)) (ds_user st)"
    by (rule whole_reading [OF assms(1)])
  then have u: "ds_user st1 = merge {} (all_entries E)" using assms(2,5) by (simp add: read_names_def fold_snoc)
  show ?thesis
    by (intro exI [of _ st1] conjI) (simp_all only: st1(1) u merge_files merge_distinct merge_dir_names Diff_empty)
qed

text \<open>A directory name that is longer than the object allocated for it is written beyond its end.\<close>

theorem sfs_filldir_overrun:
  assumes "dir_like de" and "\<not> name_fits E de" and "kmalloc_entry E" and "dir_lookup info (de_name de) (full_name_hash E (de_name de)) = Some False"
  shows "sfs_filldir E de off (info, u) = None"
  using assms by (simp add: sfs_filldir_def new_dirent_def Let_def)

text \<open>A second reading after a rewind lists the files only: the table of the directory names that were read is kept, so
  every directory is taken for one that was listed already.\<close>

theorem dir_rewind_omits:
  assumes "takes_all E (\<lambda>de u. u @ [de])" and "ds_info st = None" and "ds_pos st = 0" and "\<forall>k. ds_fpos st k = 0"
    and "sfs_iterate E st = Some (0, st1)"
  shows "\<exists>st2. sfs_iterate E (st1\<lparr>ds_pos := 0, ds_user := []\<rparr>) = Some (0, st2) \<and>
    ds_user st2 = filter (\<lambda>e. \<not> dir_like e) (all_entries E)"
proof -
  have "rest_state E st" using assms(2-4) by (simp add: rest_state_def)
  then obtain st1' info1 where s: "sfs_iterate E st = Some (0, st1')" "ds_info st1' = Some info1" "table_ok (full_name_hash E) info1"
      "table_names info1 = read_names st \<union> dir_names (all_entries E)" "hash_len info1 = caculate_hash_len (dir_isize E)"
      "ds_fpos st1' = ds_fpos st"
    by (rule whole_reading [OF assms(1)])
  then have [simp]: "st1' = st1" using assms(5) by simp
  let ?st = "st1\<lparr>ds_pos := 0, ds_user := []\<rparr>"
  have r: "rest_state E ?st" "dir_names (all_entries E) \<subseteq> read_names ?st"
    using s assms(4) by (simp_all add: rest_state_def read_names_def)
  obtain st2 where "sfs_iterate E ?st = Some (0, st2)" "ds_user st2 = fold (\<lambda>de u. u @ [de]) (merge (read_names ?st) (all_entries E)) (ds_user ?st)"
    by (rule whole_reading [OF assms(1) r(1)])
  then show ?thesis using merge_all_read [OF r(2)] by (simp add: fold_snoc)
qed

section \<open>A full buffer\<close>

lemma sfs_filldir_end: "sfs_filldir E e pos (info, u) = Some (err, info1, u1) \<Longrightarrow> end_file info1 = end_file info"
proof -
  have em: "emit E e (i, u) = (err, info1, u1) \<Longrightarrow> end_file info1 = end_file i" for i
    by (auto simp: emit_def add_minor_def split: prod.splits if_splits)
  have ad: "dir_hash_add info x = Some i \<Longrightarrow> end_file i = end_file info" for x i by (auto simp: dir_hash_add_def)
  assume "sfs_filldir E e pos (info, u) = Some (err, info1, u1)"
  then show ?thesis
    by (auto simp: sfs_filldir_def Let_def bind_eq_Some_conv dest!: em ad split: if_splits) (simp_all add: add_minor_def)
qed

lemma run_entries_end:
  "run_entries (sfs_filldir E) es pos (info, u) = Some (p, info1, u1) \<Longrightarrow> end_file info1 = end_file info"
proof (induction es arbitrary: pos info u)
  case (Cons e es)
  then obtain err i1 u2 where f: "sfs_filldir E e pos (info, u) = Some (err, i1, u2)"
    by (auto simp: bind_eq_Some_conv)
  show ?case using Cons sfs_filldir_end [OF f] f by (auto split: if_splits)
qed simp

lemma iterate_end:
  "iterate E k (sfs_filldir E) pos (info, u) = Some (err, p, info1, u1) \<Longrightarrow> end_file info1 = end_file info"
  using run_entries_end [of E "drop pos (rf_entries E k)" pos info u] by (auto simp: iterate_def split: if_splits)

lemma read_files_end:
  "read_files E ks info fpos u = Some (0, info1, fpos1, u1) \<Longrightarrow>
   curr_file info1 = None \<and> end_file info1 = (if ks = [] then end_file info else Some (last ks))"
proof (induction ks arbitrary: info fpos u)
  case (Cons k ks)
  let ?i = "info\<lparr>curr_file := Some k, end_file := Some k\<rparr>"
  obtain error p i1 u2 where i: "iterate E k (sfs_filldir E) (fpos k) (?i, u) = Some (error, p, i1, u2)"
    using Cons.prems by (auto simp: bind_eq_Some_conv)
  have e: "end_file i1 = Some k" using iterate_end [OF i] by simp
  have z: "error = 0" using Cons.prems i by (cases "error = 0") simp_all
  have "read_files E ks (i1\<lparr>curr_major_pos := curr_major_pos i1 + rf_isize E k, curr_minor_pos := 0\<rparr>) (fpos(k := 0)) u2 =
      Some (0, info1, fpos1, u1)"
    using Cons.prems i z by simp
  from Cons.IH [OF this] e show ?case by (cases "ks = []") simp_all
qed auto

lemma skip_curr: "run_entries (sfs_skip_filldir q) es pos info = Some (p, info1) \<Longrightarrow> curr_file info1 = curr_file info"
  by (induction es arbitrary: pos info) (auto simp: sfs_skip_filldir_def Let_def split: if_splits)

lemma seek_file_mem: "seek_file E ks a b = (Some k, c) \<Longrightarrow> k \<in> set ks"
  by (induction E ks a b rule: seek_file.induct) (auto split: if_splits)

lemma seek_curr:
  assumes "sfs_dir_seek E p info fpos = Some (0, info1, fpos1)"
  shows "\<exists>k < rf_count E. curr_file info1 = Some k"
proof -
  obtain cur major ip where s: "seek_file E [0..<rf_count E] 0 p = (cur, major, ip)" by (rule prod_cases3)
  then obtain k where k: "cur = Some k" using assms by (cases cur) (simp_all add: sfs_dir_seek_def)
  have "k < rf_count E" using seek_file_mem [OF s [unfolded k]] by simp
  moreover have "curr_file info1 = Some k"
    using assms s k by (auto simp: sfs_dir_seek_def iterate_def Let_def bind_eq_Some_conv dest: skip_curr split: if_splits)
  ultimately show ?thesis by blast
qed

text \<open>At the end of a directory.\<close>

definition at_end :: "nat \<Rightarrow> 'u dir_state \<Rightarrow> bool" where
  "at_end n st \<longleftrightarrow> (\<exists>info e. ds_info st = Some info \<and> curr_file info = None \<and> end_file info = Some e \<and> \<not> Suc e < n \<and>
     last_pos info = ds_pos st)"

lemma iterate_from_end:
  assumes "iterate_from E info fpos st = Some (0, st1)" and "curr_file info = None \<Longrightarrow> last_pos info = ds_pos st"
    and "\<forall>k. curr_file info = Some k \<longrightarrow> k < rf_count E"
  shows "at_end (rf_count E) st1"
proof -
  have "at_end (rf_count E) st1" if r: "map_option finish (read_files E [k..<rf_count E] info fpos (ds_user st)) = Some (0, st1)" and k: "k < rf_count E" for k
  proof -
    obtain err i1 f1 u1 where f: "read_files E [k..<rf_count E] info fpos (ds_user st) = Some (err, i1, f1, u1)"
      using r by auto
    then have "err = 0" using r by (simp add: finish_def Let_def)
    with read_files_end [of E "[k..<rf_count E]" info fpos "ds_user st" i1 f1 u1] f k r show ?thesis
      by (auto simp: at_end_def finish_def Let_def)
  qed
  then show ?thesis using assms
    by (auto simp: iterate_from_def at_end_def split: option.splits if_splits)
qed

definition place_ok :: "nat \<Rightarrow> 'u dir_state \<Rightarrow> bool" where
  "place_ok n st \<longleftrightarrow> (\<forall>info k. ds_info st = Some info \<and> curr_file info = Some k \<longrightarrow> k < n)"

lemma iterate_at_end:
  assumes "sfs_iterate E st = Some (0, st1)" and "rf_count E \<noteq> 0" and "place_ok (rf_count E) st"
  shows "at_end (rf_count E) st1"
proof -
  obtain info0 where i0: "(case ds_info st of None \<Rightarrow> sfs_alloc_dir_info E | Some info \<Rightarrow> Some info) = Some info0"
    using assms(1) by (cases "case ds_info st of None \<Rightarrow> sfs_alloc_dir_info E | Some info \<Rightarrow> Some info") (simp_all add: sfs_iterate_def)
  have c0: "\<forall>k. curr_file info0 = Some k \<longrightarrow> k < rf_count E"
    using i0 assms(3) by (cases "ds_info st") (auto simp: place_ok_def sfs_alloc_dir_info_def split: if_splits)
  obtain error info1 fpos where s: "seek_if_moved E info0 st = Some (error, info1, fpos)"
    using assms(1) i0 by (auto simp: sfs_iterate_def bind_eq_Some_conv)
  have z: "error = 0" using assms(1) i0 s by (cases "error = 0") (simp_all add: sfs_iterate_def finish_def Let_def)
  have p: "curr_file info1 = None \<Longrightarrow> last_pos info1 = ds_pos st" "\<forall>k. curr_file info1 = Some k \<longrightarrow> k < rf_count E"
    using s z c0 by (auto simp: seek_if_moved_def bind_eq_Some_conv dest: seek_curr split: if_splits)
  show ?thesis
  proof (cases "ds_pos st = 0")
    case True
    have "iterate_from E (info1\<lparr>curr_file := Some 0, curr_major_pos := 0, curr_minor_pos := 0\<rparr>) (fpos(0 := 0)) st = Some (0, st1)"
      using assms(1,2) i0 s z True by (simp add: sfs_iterate_def)
    then show ?thesis by (rule iterate_from_end) (use assms(2) in simp_all)
  next
    case False
    then have "iterate_from E info1 fpos st = Some (0, st1)" using assms(1) i0 s z by (simp add: sfs_iterate_def)
    then show ?thesis by (rule iterate_from_end) (use p in simp_all)
  qed
qed

text \<open>C32. A directory is read by one call: after a call that returned without an error, the next call at the position it left
  lists nothing, also when the buffer of the first one was full: the entries that did not fit are skipped.\<close>

theorem dir_read_once:
  assumes "sfs_iterate E st = Some (0, st1)" and "ds_pos st1 \<noteq> 0" and "rf_count E' = rf_count E" and "rf_count E \<noteq> 0"
    and "place_ok (rf_count E) st"
  shows "\<exists>st2. sfs_iterate E' (st1\<lparr>ds_user := u\<rparr>) = Some (0, st2) \<and> ds_user st2 = u"
proof -
  have "at_end (rf_count E) st1" by (rule iterate_at_end [OF assms(1,4,5)])
  then obtain info e where "ds_info st1 = Some info" "curr_file info = None" "end_file info = Some e" "\<not> Suc e < rf_count E"
      "last_pos info = ds_pos st1"
    unfolding at_end_def by blast
  then show ?thesis using assms(2,3) by (simp add: sfs_iterate_def seek_if_moved_def iterate_from_def)
qed

section \<open>An example\<close>

text \<open>Two partitions with one directory name in common and a file each; the caller's buffer takes \<open>n\<close> entries.\<close>

definition demo_files :: "nat \<Rightarrow> dirent list" where
  "demo_files k = [\<lparr>de_name = ''a'', de_ino = k, de_type = DT_DIR\<rparr>, \<lparr>de_name = (if k = 0 then ''f'' else ''g''), de_ino = 9, de_type = DT_REG\<rparr>]"

definition demo_read :: "nat option \<Rightarrow> dirent list dir_env" where
  "demo_read n = \<lparr>full_name_hash = length, kzalloc_info = True, hash_table_ok = True, kmalloc_entry = True,
     kmalloc_size = (\<lambda>n. n), rf_count = 2, rf_entries = demo_files,
     rf_isize = (\<lambda>_. 4096), rf_err = (\<lambda>_. 0), dir_isize = 4096,
     actor = (\<lambda>de p u. if n = Some (length u) then (- EINVAL, u) else (0, u @ [de]))\<rparr>"

definition demo_open :: "dirent list dir_state" where
  "demo_open = \<lparr>ds_info = None, ds_fpos = (\<lambda>_. 0), ds_user = [], ds_pos = 0\<rparr>"

lemma demo_takes_all: "takes_all (demo_read None) (\<lambda>de u. u @ [de])"
  by (simp add: takes_all_def demo_read_def demo_files_def entry_ok_def name_ok_def name_fits_def DIR_ENTRY_SIZE_def DIR_ENTRY_NAME_def)

lemma demo_all: "all_entries (demo_read n) = demo_files 0 @ demo_files 1"
  by (simp add: demo_read_def upt_rec)

lemma demo_open_sel: "ds_info demo_open = None" "ds_pos demo_open = 0" "\<forall>k. ds_fpos demo_open k = 0" "ds_user demo_open = []"
  by (simp_all add: demo_open_def)

theorem dir_read_complete_witness:
  "\<exists>st1. sfs_iterate (demo_read None) demo_open = Some (0, st1) \<and> dir_names (ds_user st1) = {''a''} \<and>
     map de_name (filter (\<lambda>e. \<not> dir_like e) (ds_user st1)) = [''f'', ''g'']"
proof -
  from dir_read_complete [OF demo_takes_all demo_open_sel] obtain st1 where
    "sfs_iterate (demo_read None) demo_open = Some (0, st1)"
    "filter (\<lambda>e. \<not> dir_like e) (ds_user st1) = filter (\<lambda>e. \<not> dir_like e) (all_entries (demo_read None))"
    "dir_names (ds_user st1) = dir_names (all_entries (demo_read None))"
    by blast
  then show ?thesis by (auto simp: demo_all demo_files_def)
qed

lemma demo_full:
  obtains st1 where "sfs_iterate (demo_read (Some 1)) demo_open = Some (0, st1)" "ds_pos st1 = 8192" "map de_name (ds_user st1) = [''a'']"
proof -
  have u: "[0..<2] = [0, 1 :: nat]" by (simp add: upt_rec)
  show thesis
    using that by (simp add: sfs_iterate_def demo_open_def sfs_alloc_dir_info_def demo_read_def seek_if_moved_def iterate_from_def u
        iterate_def demo_files_def sfs_filldir_def dir_lookup_def emit_def add_minor_def dir_hash_add_def new_dirent_def
        alloc_hash_table_def name_fits_def DIR_ENTRY_SIZE_def DIR_ENTRY_NAME_def finish_def Let_def)
qed

theorem dir_rewind_omits_witness:
  "\<exists>st1 st2. sfs_iterate (demo_read None) demo_open = Some (0, st1) \<and>
     sfs_iterate (demo_read None) (st1\<lparr>ds_pos := 0, ds_user := []\<rparr>) = Some (0, st2) \<and> map de_name (ds_user st2) = [''f'', ''g'']"
proof -
  have "rest_state (demo_read None) demo_open" by (simp add: rest_state_def demo_open_def)
  then obtain st1 where r: "sfs_iterate (demo_read None) demo_open = Some (0, st1)" by (rule whole_reading [OF demo_takes_all])
  from dir_rewind_omits [OF demo_takes_all demo_open_sel(1-3) r]
  obtain st2 where t: "sfs_iterate (demo_read None) (st1\<lparr>ds_pos := 0, ds_user := []\<rparr>) = Some (0, st2)"
    "ds_user st2 = filter (\<lambda>e. \<not> dir_like e) (demo_files 0 @ demo_files 1)" unfolding demo_all by blast
  from t(2) have "map de_name (ds_user st2) = [''f'', ''g'']" by (simp add: demo_files_def)
  with r t(1) show ?thesis by (intro exI conjI)
qed

text \<open>The name of three characters does not fit the object that a request for the size of the structure returns at least.\<close>

theorem sfs_filldir_overrun_witness:
  "sfs_filldir (demo_read None) \<lparr>de_name = ''src'', de_ino = 7, de_type = DT_DIR\<rparr> 0
     (\<lparr>dirent_bucket = Some (\<lambda>_. []), hash_len = 64, last_pos = 0, curr_file = None, end_file = None,
       curr_major_pos = 0, curr_minor_pos = 0\<rparr>, []) = None"
  by (rule sfs_filldir_overrun)
    (simp_all add: demo_read_def name_fits_def DIR_ENTRY_SIZE_def DIR_ENTRY_NAME_def dir_lookup_def)

theorem dir_read_once_witness:
  "\<exists>st1 st2. sfs_iterate (demo_read (Some 1)) demo_open = Some (0, st1) \<and> map de_name (ds_user st1) = [''a''] \<and>
     sfs_iterate (demo_read (Some 1)) (st1\<lparr>ds_user := []\<rparr>) = Some (0, st2) \<and> ds_user st2 = []"
proof -
  obtain st1 where r: "sfs_iterate (demo_read (Some 1)) demo_open = Some (0, st1)" "ds_pos st1 = 8192" "map de_name (ds_user st1) = [''a'']"
    by (rule demo_full)
  have p: "ds_pos st1 \<noteq> 0" using r(2) by simp
  have "rf_count (demo_read (Some 1)) \<noteq> 0" "place_ok (rf_count (demo_read (Some 1))) demo_open"
    by (simp_all add: demo_read_def place_ok_def demo_open_def)
  from dir_read_once [OF r(1) p refl this, of "[]"] obtain st2 where
    "sfs_iterate (demo_read (Some 1)) (st1\<lparr>ds_user := []\<rparr>) = Some (0, st2)" "ds_user st2 = []" by (elim exE conjE)
  with r(1,3) show ?thesis by (intro exI conjI)
qed

end
