(* ===== verification/Sfs_Vfs.thy ===== *)
theory Sfs_Vfs
  imports Sfs_Kv Sfs_Dispatch "HOL-Library.Monad_Syntax"
begin

text \<open>
  The directory entries that SFS works on.  A name of SFS has a dentry with the private data \<open>sfs_dentry\<close>, whose table
  \<open>replicas\<close> points to dentries of the partitions; all of them live in one heap, and \<open>d_sb\<close> is the number of the
  partition.  This theory holds the heap, the functions
  of the dentry cache that SFS calls (\<^verbatim>\<open>fs/dcache.c\<close>), the private data and its release (\<^verbatim>\<open>sfs16/dentry.c\<close>), new inodes
  (\<^verbatim>\<open>sfs16/inode.c\<close>) and the interface of the partitions.

  The partitions are a parameter: the directory operations that the code calls through \<^verbatim>\<open>i_op\<close> and the attribute store of
  \<open>Sfs_Kv\<close>, on a state of type \<open>'f\<close>.  An operation of the model returns \<open>None\<close> when the code dereferences a null or error
  pointer, reads outside of a table, runs into \<^verbatim>\<open>BUG_ON\<close> or does not end.  Locks and \<^verbatim>\<open>write_inode_now\<close> have no effect
  here: an operation runs alone, and what it wrote is kept.
\<close>

section \<open>Inodes and dentries\<close>

type_synonym umode = "16 word"

definition S_IFMT :: umode where "S_IFMT = 0xF000"
definition S_IFDIR :: umode where "S_IFDIR = 0x4000"
definition S_IFREG :: umode where "S_IFREG = 0x8000"
definition S_IFLNK :: umode where "S_IFLNK = 0xA000"

definition S_ISDIR :: "umode \<Rightarrow> bool" where "S_ISDIR m \<longleftrightarrow> m AND S_IFMT = S_IFDIR"

text \<open>An inode is its identity with its mode; link counts of the inodes of SFS are in the state.\<close>

record inode =
  i_ino :: nat
  i_mode :: umode

record dentry =
  d_name :: string
  d_parent :: ptr
  d_inode :: "inode option"
  d_count :: nat
  d_hashed :: bool
  d_sb :: nat
  d_fsdata :: "sfs_dentry option"

section \<open>The partitions\<close>

text \<open>The result of a look-up: an error pointer, another dentry that is to be used, or the dentry that was passed, with the
  inode of the name if there is one.\<close>

datatype lookup_result = LookupErr errcode | LookupOld ptr | LookupNew "inode option"

text \<open>The operations on a directory; those that the code compares with null are optional.  A new object is returned with its
  inode.\<close>

record 'f part_ops =
  op_lookup :: "inode \<Rightarrow> string \<Rightarrow> nat \<Rightarrow> 'f \<Rightarrow> lookup_result"
  op_create :: "inode \<Rightarrow> (string \<Rightarrow> umode \<Rightarrow> bool \<Rightarrow> 'f \<Rightarrow> (errcode + inode) \<times> 'f) option"
  op_mkdir :: "inode \<Rightarrow> (string \<Rightarrow> umode \<Rightarrow> 'f \<Rightarrow> (errcode + inode) \<times> 'f) option"
  op_symlink :: "inode \<Rightarrow> (string \<Rightarrow> string \<Rightarrow> 'f \<Rightarrow> (errcode + inode) \<times> 'f) option"
  op_mknod :: "inode \<Rightarrow> (string \<Rightarrow> umode \<Rightarrow> nat \<Rightarrow> 'f \<Rightarrow> (errcode + inode) \<times> 'f) option"
  op_link :: "inode \<Rightarrow> (inode \<Rightarrow> string \<Rightarrow> 'f \<Rightarrow> (errcode + inode) \<times> 'f) option"
  op_unlink :: "inode \<Rightarrow> string \<Rightarrow> inode \<Rightarrow> 'f \<Rightarrow> errcode \<times> 'f"
  op_rmdir :: "inode \<Rightarrow> string \<Rightarrow> inode \<Rightarrow> 'f \<Rightarrow> errcode \<times> 'f"
  op_rename :: "inode \<Rightarrow> string \<Rightarrow> inode \<Rightarrow> inode \<Rightarrow> string \<Rightarrow> 'f \<Rightarrow> errcode \<times> 'f"
  op_xattr :: "(inode, 'f) xattr_ops"
  rename_does_d_move :: "inode \<Rightarrow> bool"

text \<open>The environment adds the number of partitions, the outcome of the allocations, and what uninitialised memory holds.\<close>

record 'f sfs_env = "'f part_ops" +
  replica_count :: nat
  alloc_ok :: "nat \<Rightarrow> bool"
  stack_junk :: "nat \<Rightarrow> char"
  slab_junk :: int

record 'f sfs =
  dents :: "ptr \<Rightarrow> dentry"
  fresh :: nat
  nlinks :: "nat \<Rightarrow> int"
  last_dispatch :: nat
  parts :: 'f

definition upd_dentry :: "ptr \<Rightarrow> (dentry \<Rightarrow> dentry) \<Rightarrow> 'f sfs \<Rightarrow> 'f sfs" where
  "upd_dentry p f s = s\<lparr>dents := (dents s)(p := f (dents s p))\<rparr>"

definition upd_fsdata :: "ptr \<Rightarrow> (sfs_dentry \<Rightarrow> sfs_dentry) \<Rightarrow> 'f sfs \<Rightarrow> 'f sfs" where
  "upd_fsdata p f = upd_dentry p (\<lambda>d. d\<lparr>d_fsdata := map_option f (d_fsdata d)\<rparr>)"

text \<open>Every allocation has a number of its own, which is also the address it returns.\<close>

definition kalloc :: "('f, 'z) sfs_env_scheme \<Rightarrow> 'f sfs \<Rightarrow> ptr option \<times> 'f sfs" where
  "kalloc E s = (if alloc_ok E (fresh s) then Some (fresh s) else None, s\<lparr>fresh := fresh s + 1\<rparr>)"

text \<open>The target of a pointer that may be an error pointer.\<close>

definition deref :: "errcode + ptr \<Rightarrow> ptr option" where
  "deref r = (case r of Inl e \<Rightarrow> None | Inr p \<Rightarrow> Some p)"

definition inode_of :: "'f sfs \<Rightarrow> ptr option \<Rightarrow> inode option" where
  "inode_of s r = do { p \<leftarrow> r; d_inode (dents s p) }"

section \<open>The dentry cache\<close>

definition d_alloc :: "('f, 'z) sfs_env_scheme \<Rightarrow> ptr \<Rightarrow> string \<Rightarrow> 'f sfs \<Rightarrow> ptr option \<times> 'f sfs" where
  "d_alloc E parent name s =
     (case kalloc E s of
        (None, s1) \<Rightarrow> (None, s1)
      | (Some p, s1) \<Rightarrow>
          (Some p,
           upd_dentry p (\<lambda>_. \<lparr>d_name = name, d_parent = parent, d_inode = None, d_count = 1, d_hashed = False,
               d_sb = d_sb (dents s parent), d_fsdata = None\<rparr>)
             (upd_dentry parent (\<lambda>d. d\<lparr>d_count := d_count d + 1\<rparr>) s1)))"

definition d_instantiate :: "ptr \<Rightarrow> inode option \<Rightarrow> 'f sfs \<Rightarrow> 'f sfs" where
  "d_instantiate p i = upd_dentry p (\<lambda>d. d\<lparr>d_inode := i\<rparr>)"

definition d_add :: "ptr \<Rightarrow> inode option \<Rightarrow> 'f sfs \<Rightarrow> 'f sfs" where
  "d_add p i = upd_dentry p (\<lambda>d. d\<lparr>d_inode := i, d_hashed := True\<rparr>)"

definition d_drop :: "ptr \<Rightarrow> 'f sfs \<Rightarrow> 'f sfs" where
  "d_drop p = upd_dentry p (\<lambda>d. d\<lparr>d_hashed := False\<rparr>)"

partial_function (option) dput :: "ptr \<Rightarrow> 'f sfs \<Rightarrow> 'f sfs option" where
  "dput p s =
     (let d = dents s p in
      if d_count d = 0 then None
      else if 1 < d_count d \<or> d_hashed d then Some (upd_dentry p (\<lambda>d. d\<lparr>d_count := d_count d - 1\<rparr>) s)
      else
        (let s1 = upd_dentry p (\<lambda>d. d\<lparr>d_count := 0, d_inode := None\<rparr>) s in
         if d_parent d = p then Some s1 else dput (d_parent d) s1))"

definition d_delete :: "ptr \<Rightarrow> 'f sfs \<Rightarrow> 'f sfs option" where
  "d_delete p s =
     do { i \<leftarrow> d_inode (dents s p);
          Some (if d_count (dents s p) = 1 then upd_dentry p (\<lambda>d. d\<lparr>d_inode := None\<rparr>) s else d_drop p s) }"

text \<open>A short name is stored in the dentry itself.  When both names are short, the target keeps its name.\<close>

definition DNAME_INLINE_LEN :: nat where "DNAME_INLINE_LEN = 32"

definition dname_external :: "dentry \<Rightarrow> bool" where
  "dname_external d \<longleftrightarrow> DNAME_INLINE_LEN \<le> length (d_name d)"

definition switch_names :: "dentry \<Rightarrow> dentry \<Rightarrow> dentry \<times> dentry" where
  "switch_names d t =
     (d\<lparr>d_name := d_name t\<rparr>,
      if \<not> dname_external t \<and> \<not> dname_external d then t else t\<lparr>d_name := d_name d\<rparr>)"

definition d_move :: "ptr \<Rightarrow> ptr \<Rightarrow> 'f sfs \<Rightarrow> 'f sfs" where
  "d_move p q s =
     (case switch_names (dents s p) (dents s q) of
        (d, t) \<Rightarrow>
          let dp = (if d_parent d = p then (d_parent t, q) else (d_parent t, d_parent d))
          in upd_dentry q (\<lambda>_. t\<lparr>d_parent := snd dp, d_hashed := False\<rparr>)
               (upd_dentry p (\<lambda>_. d\<lparr>d_parent := fst dp, d_hashed := True\<rparr>) s))"

text \<open>A look-up in a partition: on success the dentry that is in use from then on.\<close>

definition part_lookup ::
  "('f, 'z) sfs_env_scheme \<Rightarrow> inode \<Rightarrow> ptr \<Rightarrow> nat \<Rightarrow> 'f sfs \<Rightarrow> ((errcode + ptr) \<times> 'f sfs) option" where
  "part_lookup E base new flags s =
     (case op_lookup E base (d_name (dents s new)) flags (parts s) of
        LookupErr e \<Rightarrow> do { s1 \<leftarrow> dput new s; Some (Inl e, s1) }
      | LookupOld old \<Rightarrow> do { s1 \<leftarrow> dput new s; Some (Inr old, s1) }
      | LookupNew i \<Rightarrow> Some (Inr new, d_add new i s))"

text \<open>An operation that makes a new object instantiates the dentry it was given.\<close>

definition made :: "ptr \<Rightarrow> (errcode + inode) \<times> 'f \<Rightarrow> 'f sfs \<Rightarrow> errcode \<times> 'f sfs" where
  "made p r s =
     (case r of
        (Inl e, f) \<Rightarrow> (e, s\<lparr>parts := f\<rparr>)
      | (Inr i, f) \<Rightarrow> (0, d_instantiate p (Some i) (s\<lparr>parts := f\<rparr>)))"

section \<open>The private data of a dentry\<close>

definition find_replica_dentry :: "('f, 'z) sfs_env_scheme \<Rightarrow> ptr \<Rightarrow> int \<Rightarrow> 'f sfs \<Rightarrow> ptr option option" where
  "find_replica_dentry E d i s =
     do { fd \<leftarrow> d_fsdata (dents s d); if 0 \<le> i \<and> i < int (replica_count E) then Some (replicas fd (nat i)) else None }"

definition list_first_replica_dentry :: "('f, 'z) sfs_env_scheme \<Rightarrow> ptr \<Rightarrow> 'f sfs \<Rightarrow> ptr option option" where
  "list_first_replica_dentry E d s = do { fd \<leftarrow> d_fsdata (dents s d); find_replica_dentry E d (replica_id fd) s }"

definition set_replica_id :: "ptr \<Rightarrow> int \<Rightarrow> 'f sfs \<Rightarrow> 'f sfs" where
  "set_replica_id d i = upd_fsdata d (\<lambda>fd. fd\<lparr>replica_id := i\<rparr>)"

definition set_meta_id :: "ptr \<Rightarrow> int \<Rightarrow> 'f sfs \<Rightarrow> 'f sfs" where
  "set_meta_id d i = upd_fsdata d (\<lambda>fd. fd\<lparr>meta_id := i\<rparr>)"

definition d_add_replica :: "ptr \<Rightarrow> ptr \<Rightarrow> nat \<Rightarrow> 'f sfs \<Rightarrow> 'f sfs" where
  "d_add_replica d p i =
     upd_fsdata d (\<lambda>fd. if replicas fd i = None then fd\<lparr>replicas := (replicas fd)(i := Some p)\<rparr> else fd)"

text \<open>The field \<^verbatim>\<open>first_normal_dir_id\<close> is not initialised.\<close>

definition new_sfs_dentry :: "int \<Rightarrow> sfs_dentry" where
  "new_sfs_dentry junk =
     \<lparr>replicas = (\<lambda>_. None), unused_replica_dentry = None, replica_id = - 1, meta_id = - 1, local_counter = 0,
      global_counter = 0, normal_dir_count = 0, first_normal_dir_id = junk, normal_dir_map = 0\<rparr>"

text \<open>When the table cannot be allocated, the structure stays attached with a null table, which nothing may read any more; the
  model leaves the dentry as it was.\<close>

definition sfs_dentry_alloc :: "('f, 'z) sfs_env_scheme \<Rightarrow> ptr \<Rightarrow> 'f sfs \<Rightarrow> errcode \<times> 'f sfs" where
  "sfs_dentry_alloc E d s =
     (case kalloc E s of
        (None, s1) \<Rightarrow> (- ENOMEM, s1)
      | (Some _, s1) \<Rightarrow>
          (case kalloc E s1 of
             (None, s2) \<Rightarrow> (- ENOMEM, s2)
           | (Some _, s2) \<Rightarrow> (0, upd_dentry d (\<lambda>x. x\<lparr>d_fsdata := Some (new_sfs_dentry (slab_junk E))\<rparr>) s2)))"

primrec put_replicas :: "ptr list \<Rightarrow> 'f sfs \<Rightarrow> 'f sfs option" where
  "put_replicas [] s = Some s"
| "put_replicas (p # ps) s = do { s1 \<leftarrow> dput p s; put_replicas ps s1 }"

definition replica_list :: "('f, 'z) sfs_env_scheme \<Rightarrow> sfs_dentry \<Rightarrow> ptr list" where
  "replica_list E fd = List.map_filter (replicas fd) [0..<replica_count E]"

definition clean_sfs_dentry :: "('f, 'z) sfs_env_scheme \<Rightarrow> sfs_dentry \<Rightarrow> sfs_dentry" where
  "clean_sfs_dentry E fd =
     fd\<lparr>unused_replica_dentry := None, local_counter := 0, global_counter := 0, normal_dir_count := 0, replica_id := - 1,
        meta_id := - 1, normal_dir_map := 0, replicas := (\<lambda>i. if i < replica_count E then None else replicas fd i)\<rparr>"

definition put_opt :: "ptr option \<Rightarrow> 'f sfs \<Rightarrow> 'f sfs option" where
  "put_opt r s = (case r of None \<Rightarrow> Some s | Some p \<Rightarrow> dput p s)"

definition clean_dentry :: "('f, 'z) sfs_env_scheme \<Rightarrow> ptr \<Rightarrow> 'f sfs \<Rightarrow> 'f sfs option" where
  "clean_dentry E d s =
     (case d_fsdata (dents s d) of
        None \<Rightarrow> Some s
      | Some fd \<Rightarrow>
          do { s1 \<leftarrow> put_replicas (replica_list E fd) s;
               s2 \<leftarrow> put_opt (unused_replica_dentry fd) s1;
               Some (upd_fsdata d (clean_sfs_dentry E) s2) })"

primrec drop_replicas :: "ptr list \<Rightarrow> 'f sfs \<Rightarrow> 'f sfs option" where
  "drop_replicas [] s = Some s"
| "drop_replicas (p # ps) s = do { s1 \<leftarrow> dput p (d_drop p s); drop_replicas ps s1 }"

definition sfs_dentry_release :: "('f, 'z) sfs_env_scheme \<Rightarrow> ptr \<Rightarrow> 'f sfs \<Rightarrow> 'f sfs option" where
  "sfs_dentry_release E d s =
     (case d_fsdata (dents s d) of
        None \<Rightarrow> Some s
      | Some fd \<Rightarrow> do { s1 \<leftarrow> drop_replicas (replica_list E fd) s; put_opt (unused_replica_dentry fd) s1 })"

section \<open>New inodes of SFS\<close>

text \<open>\<^verbatim>\<open>sfs_alloc_inode\<close> stores the inode number before it compares the inode with null.\<close>

definition sfs_alloc_inode :: "('f, 'z) sfs_env_scheme \<Rightarrow> 'f sfs \<Rightarrow> (nat \<times> 'f sfs) option" where
  "sfs_alloc_inode E s =
     (case kalloc E s of
        (None, s1) \<Rightarrow> None
      | (Some n, s1) \<Rightarrow> Some (n, s1\<lparr>nlinks := (nlinks s1)(n := 1)\<rparr>))"

definition sfs_new_inode :: "('f, 'z) sfs_env_scheme \<Rightarrow> umode \<Rightarrow> 'f sfs \<Rightarrow> ((errcode + inode) \<times> 'f sfs) option" where
  "sfs_new_inode E mode s =
     do { (n, s1) \<leftarrow> sfs_alloc_inode E s;
          Some (if mode AND S_IFMT \<in> {S_IFREG, S_IFDIR, S_IFLNK} then Inr \<lparr>i_ino = n, i_mode = mode\<rparr> else Inl (- EIO), s1) }"

section \<open>The links of a replica\<close>

definition META :: string where "META = ''trusted.sfs.meta''"

definition reset_links :: "('f, 'z) sfs_env_scheme \<Rightarrow> ptr \<Rightarrow> 'f sfs \<Rightarrow> (errcode \<times> 'f sfs) option" where
  "reset_links E p s =
     do { i \<leftarrow> d_inode (dents s p); (e, f) \<leftarrow> reset (op_xattr E) (stack_junk E) i META (parts s); Some (e, s\<lparr>parts := f\<rparr>) }"

definition modify_link :: "('f, 'z) sfs_env_scheme \<Rightarrow> ptr \<Rightarrow> int \<Rightarrow> nat \<Rightarrow> 'f sfs \<Rightarrow> (errcode \<times> 'f sfs) option" where
  "modify_link E p v k s =
     do { i \<leftarrow> d_inode (dents s p); (e, f) \<leftarrow> modify (op_xattr E) (stack_junk E) i META v k (parts s); Some (e, s\<lparr>parts := f\<rparr>) }"

definition put_links :: "('f, 'z) sfs_env_scheme \<Rightarrow> ptr \<Rightarrow> int list \<Rightarrow> 'f sfs \<Rightarrow> (errcode \<times> 'f sfs) option" where
  "put_links E p v s =
     do { i \<leftarrow> d_inode (dents s p); (e, f) \<leftarrow> put (op_xattr E) (stack_junk E) i META v (parts s); Some (e, s\<lparr>parts := f\<rparr>) }"

definition get_links :: "('f, 'z) sfs_env_scheme \<Rightarrow> ptr \<Rightarrow> int list \<Rightarrow> 'f sfs \<Rightarrow> (int \<times> int list) option" where
  "get_links E p v s = do { i \<leftarrow> d_inode (dents s p); get (op_xattr E) (stack_junk E) i META v (parts s) }"

end
