(* ===== verification/Sfs_Namei.thy ===== *)
theory Sfs_Namei
  imports Sfs_Vfs
begin

text \<open>
  Names of SFS (\<^verbatim>\<open>sfs16/namei.c\<close>): replicas of directories, validation of the links of a file, look-up, and the operations
  that add and remove names.  The state and the partitions are those of \<open>Sfs_Vfs\<close>; \<open>None\<close> is a crash or a loop
  that does not end.
\<close>

section \<open>Removing a replica of a file\<close>

definition simple_unlink_not_put ::
  "('f, 'z) sfs_env_scheme \<Rightarrow> inode \<Rightarrow> ptr \<Rightarrow> 'f sfs \<Rightarrow> (errcode \<times> 'f sfs) option" where
  "simple_unlink_not_put E replica_dir p s =
     do { i \<leftarrow> d_inode (dents s p);
          let (error, f) = op_unlink E replica_dir (d_name (dents s p)) i (parts s);
          let s1 = s\<lparr>parts := f\<rparr>;
          if error = 0 then do { s2 \<leftarrow> d_delete p s1; Some (error, s2) } else Some (error, s1) }"

section \<open>Normal directories\<close>

definition SHADOW :: string where "SHADOW = ''trusted.sfs.shadow''"

text \<open>The comparison with the literal, which stops at its terminator.\<close>

definition normal_value :: "char list" where "normal_value = ''normal'' @ [NUL, NUL]"

definition is_normal_value :: "char list \<Rightarrow> bool" where
  "is_normal_value v \<longleftrightarrow> take 7 v = ''normal'' @ [NUL]"

text \<open>The semicolon behind the test in \<^verbatim>\<open>check_normal_dir\<close> makes the assignment to \<^verbatim>\<open>first_normal_dir_id\<close> unconditional.\<close>

definition check_normal_dir :: "('f, 'z) sfs_env_scheme \<Rightarrow> ptr \<Rightarrow> int \<Rightarrow> 'f sfs \<Rightarrow> (int \<times> 'f sfs) option" where
  "check_normal_dir E parent rid s =
     do { r \<leftarrow> find_replica_dentry E parent rid s;
          i \<leftarrow> inode_of s r;
          let (ret, bytes) = vfs_getxattr (op_xattr E) i SHADOW 8 (parts s);
          Some
            (if 0 < ret \<and> is_normal_value (fill_buf bytes (stack_buf (stack_junk E) 8)) then
               (1, upd_fsdata parent (\<lambda>fd. fd\<lparr>first_normal_dir_id := rid, normal_dir_count := normal_dir_count fd + 1,
                     normal_dir_map := set_bitmap (normal_dir_map fd) (nat rid)\<rparr>) s)
             else (0, s)) }"

definition set_normal_dir :: "('f, 'z) sfs_env_scheme \<Rightarrow> ptr \<Rightarrow> int \<Rightarrow> 'f sfs \<Rightarrow> (errcode \<times> 'f sfs) option" where
  "set_normal_dir E parent rid s =
     do { fd \<leftarrow> d_fsdata (dents s parent);
          if test_bitmap (normal_dir_map fd) (nat rid) \<noteq> 0 then Some (0, s)
          else
            do { r \<leftarrow> find_replica_dentry E parent rid s;
                 i \<leftarrow> inode_of s r;
                 let (error, f) = vfs_setxattr (op_xattr E) i SHADOW normal_value (parts s);
                 let s1 = s\<lparr>parts := f\<rparr>;
                 Some
                   (error,
                    if error = 0 then
                      upd_fsdata parent (\<lambda>fd. fd\<lparr>
                        first_normal_dir_id := (if normal_dir_count fd = 0 then rid else first_normal_dir_id fd),
                        normal_dir_count := normal_dir_count fd + 1,
                        normal_dir_map := set_bitmap (normal_dir_map fd) (nat rid)\<rparr>) s1
                    else s1) } }"

definition can_turn2normal :: "('f, 'z) sfs_env_scheme \<Rightarrow> ptr \<Rightarrow> int \<Rightarrow> 'f sfs \<Rightarrow> bool option" where
  "can_turn2normal E d rid s =
     do { fd \<leftarrow> d_fsdata (dents s d);
          Some (\<not> (test_bitmap (normal_dir_map fd) (nat rid) = 0 \<and> span_threshold (replica_count E) \<le> normal_dir_count fd)) }"

section \<open>The replica of a name on a partition\<close>

definition clean_replica_dentry :: "ptr \<Rightarrow> 'f sfs \<Rightarrow> 'f sfs" where
  "clean_replica_dentry p s = d_drop p (upd_dentry (d_parent (dents s p)) (\<lambda>d. d\<lparr>d_count := d_count d - 1\<rparr>) s)"

definition instantiate_replica_dentry :: "ptr \<Rightarrow> ptr \<Rightarrow> 'f sfs \<Rightarrow> 'f sfs" where
  "instantiate_replica_dentry p parent s =
     upd_dentry p (\<lambda>d. d\<lparr>d_sb := d_sb (dents s parent), d_parent := parent\<rparr>)
       (upd_dentry parent (\<lambda>d. d\<lparr>d_count := d_count d + 1\<rparr>) s)"

definition sfs_lookup_one_len ::
  "('f, 'z) sfs_env_scheme \<Rightarrow> string \<Rightarrow> ptr option \<Rightarrow> 'f sfs \<Rightarrow> ((errcode + ptr) \<times> 'f sfs) option" where
  "sfs_lookup_one_len E name replica_parent s =
     do { rp \<leftarrow> replica_parent;
          base \<leftarrow> d_inode (dents s rp);
          let (r, s1) = d_alloc E rp name s;
          new \<leftarrow> r;
          part_lookup E base new 0 s1 }"

definition get_replica_dentry ::
  "('f, 'z) sfs_env_scheme \<Rightarrow> ptr option \<Rightarrow> ptr \<Rightarrow> int \<Rightarrow> 'f sfs \<Rightarrow> ((errcode + ptr) \<times> 'f sfs) option" where
  "get_replica_dentry E replica_parent d rid s =
     do { r \<leftarrow> find_replica_dentry E d rid s;
          case r of
            Some p \<Rightarrow> Some (Inr p, s)
          | None \<Rightarrow>
              do { fd \<leftarrow> d_fsdata (dents s d);
                   case unused_replica_dentry fd of
                     Some p \<Rightarrow>
                       do { rp \<leftarrow> replica_parent;
                            let s1 = instantiate_replica_dentry p rp (clean_replica_dentry p s);
                            let s2 = upd_fsdata d (\<lambda>fd. fd\<lparr>unused_replica_dentry := None\<rparr>) s1;
                            Some (Inr p, d_add_replica d p (nat rid) s2) }
                   | None \<Rightarrow>
                       do { (r, s1) \<leftarrow> sfs_lookup_one_len E (d_name (dents s d)) replica_parent s;
                            case r of
                              Inl e \<Rightarrow> Some (Inl e, s1)
                            | Inr p \<Rightarrow> Some (Inr p, d_add_replica d p (nat rid) s1) } } }"

section \<open>Validation of the links of a file\<close>

text \<open>The replica of a name on a partition together with the directory there, as the validation reads them: an error pointer is
  dereferenced.\<close>

definition replica_at ::
  "('f, 'z) sfs_env_scheme \<Rightarrow> ptr \<Rightarrow> ptr \<Rightarrow> int \<Rightarrow> 'f sfs \<Rightarrow> (ptr option \<times> ptr \<times> 'f sfs) option" where
  "replica_at E parent d i s =
     do { rp \<leftarrow> find_replica_dentry E parent i s;
          (r, s1) \<leftarrow> get_replica_dentry E rp d i s;
          p \<leftarrow> deref r;
          Some (rp, p, s1) }"

text \<open>Removal of the replica if it exists.\<close>

definition unlink_if_there ::
  "('f, 'z) sfs_env_scheme \<Rightarrow> ptr option \<Rightarrow> ptr \<Rightarrow> 'f sfs \<Rightarrow> (errcode \<times> 'f sfs) option" where
  "unlink_if_there E rp p s =
     (if d_inode (dents s p) = None then Some (0, s) else do { dir \<leftarrow> inode_of s rp; simple_unlink_not_put E dir p s })"

definition no_pointer :: "int list" where "no_pointer = [- 1, - 1, - 1, - 1]"

text \<open>Condition 0: a stale file that is hidden by this one is deleted, with its data file.\<close>

definition delete_stale ::
  "('f, 'z) sfs_env_scheme \<Rightarrow> ptr \<Rightarrow> ptr \<Rightarrow> ptr option \<Rightarrow> ptr \<Rightarrow> 'f sfs \<Rightarrow> (errcode \<times> 'f sfs) option" where
  "delete_stale E parent d stale_parent stale_dentry s =
     do { (ret, data_pointer) \<leftarrow> get_links E stale_dentry no_pointer s;
          let remote_id = data_pointer ! POINTER;
          (err, s1) \<leftarrow>
            (if 0 < ret \<and> remote_id \<noteq> - 1
             then do { (rp, p, s1) \<leftarrow> replica_at E parent d remote_id s; unlink_if_there E rp p s1 }
             else Some (0, s));
          if err \<noteq> 0 then Some (err, s1)
          else do { dir \<leftarrow> inode_of s1 stale_parent; simple_unlink_not_put E dir stale_dentry s1 } }"

definition validate_stale ::
  "('f, 'z) sfs_env_scheme \<Rightarrow> ptr \<Rightarrow> ptr \<Rightarrow> int \<Rightarrow> ptr \<Rightarrow> int list \<Rightarrow> 'f sfs \<Rightarrow> (errcode \<times> 'f sfs) option" where
  "validate_stale E parent d local_id local_dentry pointer s =
     do { (stale_parent, stale_dentry, s1) \<leftarrow> replica_at E parent d (pointer ! STALE) s;
          (err, s2) \<leftarrow>
            (if d_inode (dents s1 stale_dentry) = None then Some (0, s1)
             else delete_stale E parent d stale_parent stale_dentry s1);
          if err \<noteq> 0 then Some (err, s2)
          else
            do { (err, s3) \<leftarrow> reset_links E local_dentry s2;
                 Some (err, if err = 0 then set_replica_id d local_id s3 else s3) } }"

text \<open>Condition 1: a hidden file is deleted when the file that hides it is there; otherwise the link is corrected and the
  validation goes on, which is \<open>None\<close> as the error.\<close>

definition validate_hidden ::
  "('f, 'z) sfs_env_scheme \<Rightarrow> ptr \<Rightarrow> ptr \<Rightarrow> int \<Rightarrow> ptr \<Rightarrow> int list \<Rightarrow> 'f sfs \<Rightarrow> (errcode option \<times> 'f sfs) option" where
  "validate_hidden E parent d local_id local_dentry pointer s =
     (let remote_id = pointer ! HIDDEN; stale_id = pointer ! POINTER in
      do { (remote_parent, remote_dentry, s1) \<leftarrow> replica_at E parent d remote_id s;
           if d_inode (dents s1 remote_dentry) \<noteq> None then
             do { (err, s2) \<leftarrow>
                    (if stale_id \<noteq> - 1
                     then do { (sp, p, s2) \<leftarrow> replica_at E parent d stale_id s1; unlink_if_there E sp p s2 }
                     else Some (0, s1));
                  if err \<noteq> 0 then Some (Some err, s2)
                  else
                    do { local_parent \<leftarrow> find_replica_dentry E parent local_id s2;
                         dir \<leftarrow> inode_of s2 local_parent;
                         (err, s3) \<leftarrow> simple_unlink_not_put E dir local_dentry s2;
                         if err \<noteq> 0 then Some (Some err, s3)
                         else
                           do { (err, s4) \<leftarrow> reset_links E remote_dentry s3;
                                Some (Some err,
                                  if err = 0 then set_replica_id d remote_id (d_add_replica d remote_dentry (nat remote_id) s4)
                                  else s4) } } }
           else
             do { (err, s2) \<leftarrow> modify_link E local_dentry (- 1) HIDDEN s1;
                  Some (if err = 0 then (None, set_replica_id d local_id s2) else (Some err, s2)) } })"

text \<open>Condition 2: the file is a meta file of a rename that may not have finished.\<close>

definition validate_rename ::
  "('f, 'z) sfs_env_scheme \<Rightarrow> ptr \<Rightarrow> ptr \<Rightarrow> int \<Rightarrow> ptr \<Rightarrow> int list \<Rightarrow> 'f sfs \<Rightarrow> (errcode option \<times> 'f sfs) option" where
  "validate_rename E parent d local_id local_dentry pointer s =
     (let remote_id = pointer ! RENAME; stale_id = pointer ! POINTER in
      if remote_id = local_id then
        do { (err, s1) \<leftarrow> reset_links E local_dentry s;
             Some (Some err, if err = 0 then set_replica_id d local_id s1 else s1) }
      else
        do { (remote_parent, remote_dentry, s1) \<leftarrow> replica_at E parent d remote_id s;
             if d_inode (dents s1 remote_dentry) \<noteq> None then
               do { (err, s2) \<leftarrow>
                      (if 0 \<le> stale_id
                       then do { (sp, p, s2) \<leftarrow> replica_at E parent d stale_id s1; unlink_if_there E sp p s2 }
                       else Some (0, s1));
                    if err \<noteq> 0 then Some (Some err, s2)
                    else
                      do { (err, s3) \<leftarrow> put_links E local_dentry (no_pointer[POINTER := remote_id]) s2;
                           Some (Some err,
                             if err = 0
                             then set_meta_id d local_id (set_replica_id d remote_id (d_add_replica d remote_dentry (nat remote_id) s3))
                             else s3) } }
             else
               do { (err, s2) \<leftarrow> modify_link E local_dentry (- 1) RENAME s1;
                    Some (if err = 0 then None else Some err, s2) } })"

text \<open>Condition 3: a meta file whose data file is missing is deleted; otherwise the data file points back.\<close>

definition validate_pointer ::
  "('f, 'z) sfs_env_scheme \<Rightarrow> ptr \<Rightarrow> ptr \<Rightarrow> int \<Rightarrow> ptr \<Rightarrow> int list \<Rightarrow> 'f sfs \<Rightarrow> (errcode \<times> 'f sfs) option" where
  "validate_pointer E parent d local_id local_dentry pointer s =
     (let remote_id = pointer ! POINTER in
      if remote_id < 0 then Some (0, set_replica_id d local_id s)
      else
        do { (remote_parent, remote_dentry, s1) \<leftarrow> replica_at E parent d remote_id s;
             if d_inode (dents s1 remote_dentry) = None then
               do { local_parent \<leftarrow> find_replica_dentry E parent local_id s1;
                    dir \<leftarrow> inode_of s1 local_parent;
                    simple_unlink_not_put E dir local_dentry s1 }
             else
               do { (ret, data_pointer) \<leftarrow> get_links E remote_dentry no_pointer s1;
                    (err, s2) \<leftarrow>
                      (if ret \<le> 0 \<or> data_pointer ! POINTER \<noteq> local_id
                       then put_links E remote_dentry (no_pointer[POINTER := local_id]) s1
                       else Some (0, s1));
                    Some (err,
                      if err = 0
                      then set_meta_id d local_id (set_replica_id d remote_id (d_add_replica d remote_dentry (nat remote_id) s2))
                      else s2) } })"

text \<open>The conditions in the order of their priority.\<close>

definition next_condition ::
  "bool \<Rightarrow> ('f sfs \<Rightarrow> (errcode option \<times> 'f sfs) option) \<Rightarrow> ('f sfs \<Rightarrow> (errcode \<times> 'f sfs) option) \<Rightarrow> 'f sfs \<Rightarrow> (errcode \<times> 'f sfs) option" where
  "next_condition holds check continue s =
     (if holds
      then do { (r, s1) \<leftarrow> check s; case r of Some err \<Rightarrow> Some (err, s1) | None \<Rightarrow> continue s1 }
      else continue s)"

definition validate_partitioned_file ::
  "('f, 'z) sfs_env_scheme \<Rightarrow> ptr \<Rightarrow> int \<Rightarrow> 'f sfs \<Rightarrow> (errcode \<times> 'f sfs) option" where
  "validate_partitioned_file E d local_id s =
     (let parent = d_parent (dents s d) in
      do { l \<leftarrow> find_replica_dentry E d local_id s;
           local_dentry \<leftarrow> l;
           (ret, pointer) \<leftarrow> get_links E local_dentry no_pointer s;
           if 0 < ret then
             if 0 \<le> pointer ! STALE then validate_stale E parent d local_id local_dentry pointer s
             else
               next_condition (0 \<le> pointer ! HIDDEN) (validate_hidden E parent d local_id local_dentry pointer)
                 (next_condition (0 \<le> pointer ! RENAME) (validate_rename E parent d local_id local_dentry pointer)
                   (validate_pointer E parent d local_id local_dentry pointer)) s
           else Some (0, set_replica_id d local_id s) })"

definition validate_file :: "('f, 'z) sfs_env_scheme \<Rightarrow> ptr \<Rightarrow> 'f sfs \<Rightarrow> (errcode \<times> 'f sfs) option" where
  "validate_file E d s =
     do { fd \<leftarrow> d_fsdata (dents s d);
          validate_partitioned_file E d (if meta_id fd \<noteq> - 1 then meta_id fd else replica_id fd) s }"

section \<open>Look-up\<close>

datatype probe = Skip | Fail errcode | Miss ptr | Hit ptr inode

text \<open>The search for the name on one partition.  A dentry \<open>new\<close> that found nothing is used again for the next partition.\<close>

definition probe_dentry ::
  "('f, 'z) sfs_env_scheme \<Rightarrow> ptr \<Rightarrow> string \<Rightarrow> ptr option \<Rightarrow> 'f sfs \<Rightarrow> (ptr \<times> 'f sfs) option" where
  "probe_dentry E replica_parent name new s =
     (case new of
        None \<Rightarrow> (case d_alloc E replica_parent name s of (r, s1) \<Rightarrow> do { p \<leftarrow> r; Some (p, s1) })
      | Some p \<Rightarrow> Some (p, instantiate_replica_dentry p replica_parent (clean_replica_dentry p s)))"

definition lookup_probe ::
  "('f, 'z) sfs_env_scheme \<Rightarrow> ptr \<Rightarrow> ptr \<Rightarrow> nat \<Rightarrow> bool \<Rightarrow> nat \<Rightarrow> ptr option \<Rightarrow> 'f sfs \<Rightarrow> (probe \<times> 'f sfs) option" where
  "lookup_probe E parent d flags fullscan loop new s =
     do { pd \<leftarrow> d_fsdata (dents s parent);
          if \<not> fullscan \<and> test_bitmap (normal_dir_map pd) loop = 0 then Some (Skip, s)
          else
            do { r \<leftarrow> find_replica_dentry E parent (int loop) s;
                 own \<leftarrow> find_replica_dentry E d (int loop) s;
                 case (r, inode_of s r, own) of
                   (Some replica_parent, Some base, None) \<Rightarrow>
                     do { (p, s1) \<leftarrow> probe_dentry E replica_parent (d_name (dents s d)) new s;
                          (r, s2) \<leftarrow> part_lookup E base p flags s1;
                          case r of
                            Inl e \<Rightarrow> Some (Fail e, s2)
                          | Inr p \<Rightarrow>
                              (case d_inode (dents s2 p) of None \<Rightarrow> Some (Miss p, s2) | Some i \<Rightarrow> Some (Hit p i, s2)) }
                 | _ \<Rightarrow> Some (Skip, s) } }"

text \<open>A file was found: its links are validated.  The result is the mode of the file, none if the validation removed it.\<close>

definition found_file ::
  "('f, 'z) sfs_env_scheme \<Rightarrow> ptr \<Rightarrow> nat \<Rightarrow> umode \<Rightarrow> 'f sfs \<Rightarrow> ((errcode + ptr option \<times> umode option) \<times> 'f sfs) option" where
  "found_file E d loop mode s =
     do { (err, s1) \<leftarrow> validate_partitioned_file E d (int loop) s;
          if err \<noteq> 0 then do { s2 \<leftarrow> clean_dentry E d s1; Some (Inl err, s2) }
          else
            do { fd \<leftarrow> d_fsdata (dents s1 d);
                 Some (Inr (None, if replica_id fd = - 1 then None else Some mode), s1) } }"

text \<open>The loop over the partitions: the normal ones until a directory is found, then all of them from the beginning.  The result
  is the dentry that is left over, and the mode of the object that was found.\<close>

function lookup_loop ::
  "('f, 'z) sfs_env_scheme \<Rightarrow> ptr \<Rightarrow> ptr \<Rightarrow> nat \<Rightarrow> bool \<Rightarrow> nat \<Rightarrow> ptr option \<Rightarrow> umode option \<Rightarrow> 'f sfs \<Rightarrow>
   ((errcode + ptr option \<times> umode option) \<times> 'f sfs) option" where
  "lookup_loop E parent d flags fullscan loop new found s =
     (if replica_count E \<le> loop then Some (Inr (new, found), s)
      else
        do { (r, s1) \<leftarrow> lookup_probe E parent d flags fullscan loop new s;
             case r of
               Skip \<Rightarrow> lookup_loop E parent d flags fullscan (loop + 1) new found s1
             | Fail e \<Rightarrow> Some (Inl e, s1)
             | Miss p \<Rightarrow> lookup_loop E parent d flags fullscan (loop + 1) (Some p) found s1
             | Hit p i \<Rightarrow>
                 (let s2 = d_add_replica d p loop s1 in
                  if \<not> S_ISDIR (i_mode i) then found_file E d loop (i_mode i) s2
                  else
                    do { (err, s3) \<leftarrow> check_normal_dir E d (int loop) s2;
                         if err < 0 then do { s4 \<leftarrow> clean_dentry E d s3; Some (Inl err, s4) }
                         else if fullscan then lookup_loop E parent d flags True (loop + 1) None (Some (i_mode i)) s3
                         else lookup_loop E parent d flags True 0 None (Some (i_mode i)) s3 }) })"
  by pat_completeness auto

termination
  by (relation "measures [\<lambda>(E, parent, d, flags, fullscan, loop, _). if fullscan then 0 else 1,
       \<lambda>(E, parent, d, flags, fullscan, loop, _). replica_count E - loop]") auto

declare lookup_loop.simps [simp del]

definition sfs_lookup ::
  "('f, 'z) sfs_env_scheme \<Rightarrow> ptr \<Rightarrow> nat \<Rightarrow> 'f sfs \<Rightarrow> (errcode \<times> 'f sfs) option" where
  "sfs_lookup E d flags s =
     (case sfs_dentry_alloc E d s of
        (e, s1) \<Rightarrow>
          if e \<noteq> 0 then Some (e, s1)
          else
            do { (r, s2) \<leftarrow> lookup_loop E (d_parent (dents s d)) d flags False 0 None None s1;
                 case r of
                   Inl err \<Rightarrow> Some (err, s2)
                 | Inr (new, found) \<Rightarrow>
                     do { s3 \<leftarrow> put_opt new s2;
                          case found of
                            None \<Rightarrow> Some (0, d_add d None s3)
                          | Some mode \<Rightarrow>
                              do { (r, s4) \<leftarrow> sfs_new_inode E mode s3;
                                   Some (case r of Inl err \<Rightarrow> (err, s4) | Inr i \<Rightarrow> (0, d_add d (Some i) s4)) } } })"

section \<open>Replicas of directories\<close>

text \<open>The path up to the first ancestor that has a replica, from the top.  The root has all replicas; the comparison with the
  data root of the mount never holds, since that is set for the partitions only.\<close>

partial_function (option) clone_path ::
  "('f, 'z) sfs_env_scheme \<Rightarrow> int \<Rightarrow> ptr \<Rightarrow> ptr list \<Rightarrow> 'f sfs \<Rightarrow> ((errcode + ptr \<times> ptr list) \<times> 'f sfs) option" where
  "clone_path E rid tmp path s =
     (case kalloc E s of
        (None, s1) \<Rightarrow> Some (Inl (- ENOMEM), s1)
      | (Some _, s1) \<Rightarrow>
          (case find_replica_dentry E tmp rid s1 of
             None \<Rightarrow> None
           | Some found \<Rightarrow>
               if inode_of s1 found \<noteq> None then Some (Inr (the found, path), s1)
               else clone_path E rid (d_parent (dents s1 tmp)) (tmp # path) s1))"

primrec clone_dirs ::
  "('f, 'z) sfs_env_scheme \<Rightarrow> int \<Rightarrow> ptr list \<Rightarrow> ptr \<Rightarrow> errcode + ptr \<Rightarrow> 'f sfs \<Rightarrow> ((errcode + ptr) \<times> 'f sfs) option" where
  "clone_dirs E rid [] tmp ret s = Some (ret, s)"
| "clone_dirs E rid (node # path) tmp ret s =
     do { (r, s1) \<leftarrow> get_replica_dentry E (Some tmp) node rid s;
          case r of
            Inl e \<Rightarrow> Some (Inl e, s1)
          | Inr p \<Rightarrow>
              do { i \<leftarrow> d_inode (dents s1 node);
                   if d_inode (dents s1 p) \<noteq> None then clone_dirs E rid path p (Inr p) s1
                   else
                     do { dir \<leftarrow> d_inode (dents s tmp);
                          mkdir \<leftarrow> op_mkdir E dir;
                          let (err, s2) = made p (mkdir (d_name (dents s1 p)) (i_mode i) (parts s1)) s1;
                          if err \<noteq> 0 then Some (Inl err, s2) else clone_dirs E rid path p (Inr p) s2 } } }"

definition sfs_clone_branch ::
  "('f, 'z) sfs_env_scheme \<Rightarrow> ptr \<Rightarrow> int \<Rightarrow> 'f sfs \<Rightarrow> ((errcode + ptr) \<times> 'f sfs) option" where
  "sfs_clone_branch E d rid s =
     do { (r, s1) \<leftarrow> clone_path E rid d [] s;
          case r of Inl e \<Rightarrow> Some (Inl e, s1) | Inr (found, path) \<Rightarrow> clone_dirs E rid path found (Inl (- EIO)) s1 }"

datatype clone_type = CLONE_SHADOW | CLONE_NORMAL

definition create_replica_dir ::
  "('f, 'z) sfs_env_scheme \<Rightarrow> ptr \<Rightarrow> int \<Rightarrow> clone_type \<Rightarrow> 'f sfs \<Rightarrow> ((errcode + ptr) \<times> 'f sfs) option" where
  "create_replica_dir E d rid ct s =
     do { r \<leftarrow> find_replica_dentry E d rid s;
          (r, s1) \<leftarrow> (if inode_of s r = None then sfs_clone_branch E d rid s else Some (Inr (the r), s));
          case r of
            Inl e \<Rightarrow> Some (Inl e, s1)
          | Inr p \<Rightarrow>
              if ct = CLONE_NORMAL then
                do { (err, s2) \<leftarrow> set_normal_dir E d rid s1; Some (if err \<noteq> 0 then Inl err else Inr p, s2) }
              else Some (Inr p, s1) }"

section \<open>Adding names\<close>

datatype op_type = Creat bool | Mkdir | Symlink string | Mknod nat | Link ptr | Rename

record add_arg =
  arg_type :: op_type
  arg_mode :: umode

definition simple_add_dir_entry ::
  "('f, 'z) sfs_env_scheme \<Rightarrow> ptr \<Rightarrow> umode \<Rightarrow> int \<Rightarrow> clone_type \<Rightarrow> 'f sfs \<Rightarrow> (errcode \<times> 'f sfs) option" where
  "simple_add_dir_entry E d mode rid ct s =
     do { (r, s1) \<leftarrow> create_replica_dir E (d_parent (dents s d)) rid ct s;
          case r of
            Inl e \<Rightarrow> Some (e, s1)
          | Inr replica_parent \<Rightarrow>
              do { replica_dir \<leftarrow> d_inode (dents s1 replica_parent);
                   case op_mkdir E replica_dir of
                     None \<Rightarrow> Some (- EACCES, s1)
                   | Some mkdir \<Rightarrow>
                       do { new \<leftarrow> find_replica_dentry E d rid s1;
                            if inode_of s1 new \<noteq> None then Some (0, s1)
                            else
                              do { (r, s2) \<leftarrow> get_replica_dentry E (Some replica_parent) d rid s1;
                                   Some
                                     (case r of
                                        Inl e \<Rightarrow> (e, s2)
                                      | Inr p \<Rightarrow> made p (mkdir (d_name (dents s2 p)) mode (parts s2)) s2) } } } }"

definition dispatch_next :: "('f, 'z) sfs_env_scheme \<Rightarrow> 'f sfs \<Rightarrow> int \<times> 'f sfs" where
  "dispatch_next E s = (case dispatch (replica_count E) (last_dispatch s) of (r, l) \<Rightarrow> (int r, s\<lparr>last_dispatch := l\<rparr>))"

definition sfs_add_dir_entry ::
  "('f, 'z) sfs_env_scheme \<Rightarrow> inode \<Rightarrow> ptr \<Rightarrow> add_arg \<Rightarrow> 'f sfs \<Rightarrow> (errcode \<times> 'f sfs) option" where
  "sfs_add_dir_entry E dir d arg s =
     do { pd \<leftarrow> d_fsdata (dents s (d_parent (dents s d)));
          let (dispatch_id, s1) = (if normal_dir_count pd = 0 then dispatch_next E s else (first_normal_dir_id pd, s));
          let mode = arg_mode arg OR S_IFDIR;
          (r, s2) \<leftarrow> sfs_new_inode E mode s1;
          case r of
            Inl e \<Rightarrow> Some (e, s2)
          | Inr i \<Rightarrow>
              do { (err, s3) \<leftarrow> simple_add_dir_entry E d mode dispatch_id CLONE_NORMAL s2;
                   Some
                     (err,
                      if err = 0 then d_instantiate d (Some i) (s3\<lparr>nlinks := (nlinks s3)(i_ino dir := nlinks s3 (i_ino dir) + 1)\<rparr>)
                      else s3\<lparr>nlinks := (nlinks s3)(i_ino i := 0)\<rparr>) } }"

text \<open>A meta file on the partition \<open>local_id\<close> that points to the data file on \<open>remote_id\<close>, which points back.  An error of the
  second look-up is not seen, since the code tests the first result again.\<close>

definition simple_add_partitioned_entry ::
  "('f, 'z) sfs_env_scheme \<Rightarrow> ptr \<Rightarrow> add_arg \<Rightarrow> int \<Rightarrow> int \<Rightarrow> 'f sfs \<Rightarrow> (errcode \<times> 'f sfs) option" where
  "simple_add_partitioned_entry E d arg local_id remote_id s =
     (let parent = d_parent (dents s d); mode = arg_mode arg in
      do { (r, s1) \<leftarrow> create_replica_dir E parent local_id CLONE_NORMAL s;
           case r of Inl e \<Rightarrow> Some (e, s1) | Inr local_parent \<Rightarrow>
      do { (r, s2) \<leftarrow> create_replica_dir E parent remote_id CLONE_SHADOW s1;
           case r of Inl e \<Rightarrow> Some (e, s2) | Inr remote_parent \<Rightarrow>
      do { let local_inode = d_inode (dents s2 local_parent);
           let remote_inode = d_inode (dents s2 remote_parent);
           (r, s3) \<leftarrow> get_replica_dentry E (Some local_parent) d local_id s2;
           case r of Inl e \<Rightarrow> Some (e, s3) | Inr local_new \<Rightarrow>
      do { (remote, s4) \<leftarrow> get_replica_dentry E (Some remote_parent) d remote_id s3;
           if (case arg_type arg of Creat _ \<Rightarrow> False | Link _ \<Rightarrow> False | _ \<Rightarrow> True) then Some (- EIO, s4)
           else
      do { local_dir \<leftarrow> local_inode;
           create \<leftarrow> op_create E local_dir;
           let excl = (case arg_type arg of Creat b \<Rightarrow> b | _ \<Rightarrow> False);
           let (err, s5) = made local_new (create (d_name (dents s4 local_new)) mode excl (parts s4)) s4;
           if err \<noteq> 0 then Some (err, s5) else
      do { (err, s6) \<leftarrow> put_links E local_new (no_pointer[POINTER := remote_id]) s5;
           if err \<noteq> 0 then Some (err, s6) else
      do { remote_dir \<leftarrow> remote_inode;
           remote_new \<leftarrow> deref remote;
           (err, s7) \<leftarrow>
             (case arg_type arg of
                Link old \<Rightarrow>
                  do { old_inode \<leftarrow> d_inode (dents s6 old);
                       link \<leftarrow> op_link E remote_dir;
                       Some (made remote_new (link old_inode (d_name (dents s6 remote_new)) (parts s6)) s6) }
              | _ \<Rightarrow>
                  do { create \<leftarrow> op_create E remote_dir;
                       Some (made remote_new (create (d_name (dents s6 remote_new)) mode excl (parts s6)) s6) });
           if err \<noteq> 0 then Some (err, s7)
           else put_links E remote_new (no_pointer[POINTER := local_id]) s7 } } } } } } })"

text \<open>The operation on the directory of the partition; a null operation is \<^verbatim>\<open>-EACCES\<close>.\<close>

definition add_to ::
  "('f, 'z) sfs_env_scheme \<Rightarrow> inode \<Rightarrow> ptr \<Rightarrow> add_arg \<Rightarrow> 'f sfs \<Rightarrow> (errcode \<times> 'f sfs) option" where
  "add_to E dir p arg s =
     (let name = d_name (dents s p);
          run = (\<lambda>op. Some (case op of None \<Rightarrow> (- EACCES, s) | Some f \<Rightarrow> made p (f (parts s)) s))
      in case arg_type arg of
           Creat excl \<Rightarrow> run (map_option (\<lambda>f. f name (arg_mode arg) excl) (op_create E dir))
         | Mkdir \<Rightarrow> run (map_option (\<lambda>f. f name (arg_mode arg)) (op_mkdir E dir))
         | Symlink oldname \<Rightarrow> run (map_option (\<lambda>f. f name oldname) (op_symlink E dir))
         | Mknod dev \<Rightarrow> run (map_option (\<lambda>f. f name (arg_mode arg) dev) (op_mknod E dir))
         | Link old \<Rightarrow>
             (case op_link E dir of
                None \<Rightarrow> Some (- EACCES, s)
              | Some f \<Rightarrow> do { i \<leftarrow> d_inode (dents s old); Some (made p (f i name (parts s)) s) })
         | Rename \<Rightarrow> Some (- EIO, s))"

definition simple_add_entry ::
  "('f, 'z) sfs_env_scheme \<Rightarrow> ptr \<Rightarrow> add_arg \<Rightarrow> int \<Rightarrow> 'f sfs \<Rightarrow> (errcode \<times> 'f sfs) option" where
  "simple_add_entry E d arg local_id s =
     do { (r, s1) \<leftarrow> create_replica_dir E (d_parent (dents s d)) local_id CLONE_NORMAL s;
          case r of
            Inl e \<Rightarrow> Some (e, s1)
          | Inr replica_parent \<Rightarrow>
              do { let dir = d_inode (dents s1 replica_parent);
                   (r, s2) \<leftarrow> get_replica_dentry E (Some replica_parent) d local_id s1;
                   case r of
                     Inl e \<Rightarrow> Some (e, s2)
                   | Inr p \<Rightarrow> do { replica_dir \<leftarrow> dir; add_to E replica_dir p arg s2 } } }"

text \<open>\<^verbatim>\<open>local_dispatch\<close> on the state.  It sets the second partition only when the file system is compiled with partitioned files.\<close>

definition local_dispatch_on :: "('f, 'z) sfs_env_scheme \<Rightarrow> ptr \<Rightarrow> 'f sfs \<Rightarrow> (int \<times> int \<times> 'f sfs) option" where
  "local_dispatch_on E parent s =
     do { pd \<leftarrow> d_fsdata (dents s parent);
          (r, pd1, l) \<leftarrow> local_dispatch (replica_count E) pd (last_dispatch s);
          Some (r, - 1, upd_fsdata parent (\<lambda>_. pd1) (s\<lparr>last_dispatch := l\<rparr>)) }"

definition sfs_add_entry ::
  "('f, 'z) sfs_env_scheme \<Rightarrow> ptr \<Rightarrow> add_arg \<Rightarrow> 'f sfs \<Rightarrow> (errcode \<times> 'f sfs) option" where
  "sfs_add_entry E d arg s =
     do { (dispatch_id, partitioned_id, s1) \<leftarrow> local_dispatch_on E (d_parent (dents s d)) s;
          (r, s2) \<leftarrow> sfs_new_inode E (arg_mode arg) s1;
          case r of
            Inl e \<Rightarrow> Some (e, s2)
          | Inr i \<Rightarrow>
              do { (err, s3) \<leftarrow>
                     (if partitioned_id = - 1 then simple_add_entry E d arg dispatch_id s2
                      else simple_add_partitioned_entry E d arg dispatch_id partitioned_id s2);
                   Some
                     (err,
                      if err = 0 then
                        d_instantiate d (Some i)
                          (if partitioned_id = - 1 then set_replica_id d dispatch_id s3
                           else set_meta_id d dispatch_id (set_replica_id d partitioned_id s3))
                      else s3\<lparr>nlinks := (nlinks s3)(i_ino i := 0)\<rparr>) } }"

definition sfs_create :: "('f, 'z) sfs_env_scheme \<Rightarrow> ptr \<Rightarrow> umode \<Rightarrow> bool \<Rightarrow> 'f sfs \<Rightarrow> (errcode \<times> 'f sfs) option" where
  "sfs_create E d mode excl = sfs_add_entry E d \<lparr>arg_type = Creat excl, arg_mode = mode\<rparr>"

definition sfs_mkdir :: "('f, 'z) sfs_env_scheme \<Rightarrow> inode \<Rightarrow> ptr \<Rightarrow> umode \<Rightarrow> 'f sfs \<Rightarrow> (errcode \<times> 'f sfs) option" where
  "sfs_mkdir E dir d mode = sfs_add_dir_entry E dir d \<lparr>arg_type = Mkdir, arg_mode = mode\<rparr>"

text \<open>The mode is not given, and is 0.\<close>

definition sfs_symlink :: "('f, 'z) sfs_env_scheme \<Rightarrow> ptr \<Rightarrow> string \<Rightarrow> 'f sfs \<Rightarrow> (errcode \<times> 'f sfs) option" where
  "sfs_symlink E d oldname = sfs_add_entry E d \<lparr>arg_type = Symlink oldname, arg_mode = 0\<rparr>"

definition sfs_mknod :: "('f, 'z) sfs_env_scheme \<Rightarrow> ptr \<Rightarrow> umode \<Rightarrow> nat \<Rightarrow> 'f sfs \<Rightarrow> (errcode \<times> 'f sfs) option" where
  "sfs_mknod E d mode rdev = sfs_add_entry E d \<lparr>arg_type = Mknod rdev, arg_mode = mode\<rparr>"

definition select_normal_on :: "('f, 'z) sfs_env_scheme \<Rightarrow> ptr \<Rightarrow> 'f sfs \<Rightarrow> (int \<times> 'f sfs) option" where
  "select_normal_on E parent s =
     do { pd \<leftarrow> d_fsdata (dents s parent);
          (r, pd1) \<leftarrow> select_normal_dir_rr (replica_count E) pd;
          Some (r, upd_fsdata parent (\<lambda>_. pd1) s) }"

definition sfs_link :: "('f, 'z) sfs_env_scheme \<Rightarrow> ptr \<Rightarrow> ptr \<Rightarrow> 'f sfs \<Rightarrow> (errcode \<times> 'f sfs) option" where
  "sfs_link E old_dentry d s =
     (let new_parent = d_parent (dents s d) in
      do { r \<leftarrow> list_first_replica_dentry E old_dentry s;
           ofd \<leftarrow> d_fsdata (dents s old_dentry);
           let rid = replica_id ofd;
           can_turn \<leftarrow> can_turn2normal E new_parent rid s;
           (new_meta_id, s1) \<leftarrow> (if can_turn then Some (- 1, s) else select_normal_on E new_parent s);
           old_inode \<leftarrow> d_inode (dents s old_dentry);
           (ri, s2) \<leftarrow> sfs_new_inode E (i_mode old_inode) s1;
           case ri of
             Inl e \<Rightarrow> Some (e, s2)
           | Inr i \<Rightarrow>
               do { old_replica_dentry \<leftarrow> r;
                    let arg = \<lparr>arg_type = Link old_replica_dentry, arg_mode = i_mode old_inode\<rparr>;
                    (err, s3) \<leftarrow>
                      (if new_meta_id = - 1 then simple_add_entry E d arg rid s2
                       else simple_add_partitioned_entry E d arg new_meta_id rid s2);
                    Some
                      (err,
                       if err = 0 then
                         (let s4 = set_replica_id d rid (d_instantiate d (Some i) s3)
                          in if new_meta_id = - 1 then s4 else set_meta_id d new_meta_id s4)
                       else s3) } })"

section \<open>Removing names\<close>

text \<open>The removal of one replica of a directory.\<close>

definition rmdir_replica :: "('f, 'z) sfs_env_scheme \<Rightarrow> ptr \<Rightarrow> 'f sfs \<Rightarrow> (errcode \<times> 'f sfs) option" where
  "rmdir_replica E p s =
     do { i \<leftarrow> d_inode (dents s p);
          dir \<leftarrow> d_inode (dents s (d_parent (dents s p)));
          let (error, f) = op_rmdir E dir (d_name (dents s p)) i (parts s);
          let s1 = s\<lparr>parts := f\<rparr>;
          if error = 0 then do { s2 \<leftarrow> d_delete p s1; Some (error, s2) } else Some (error, s1) }"

primrec rmdir_loop ::
  "('f, 'z) sfs_env_scheme \<Rightarrow> ptr \<Rightarrow> int \<Rightarrow> nat list \<Rightarrow> errcode \<Rightarrow> 'f sfs \<Rightarrow> ((errcode + errcode) \<times> 'f sfs) option" where
  "rmdir_loop E d skip [] error s = Some (Inr error, s)"
| "rmdir_loop E d skip (k # ks) error s =
     (if int k = skip then rmdir_loop E d skip ks error s
      else
        do { r \<leftarrow> find_replica_dentry E d (int k) s;
             if inode_of s r = None then rmdir_loop E d skip ks error s
             else
               do { (error, s1) \<leftarrow> rmdir_replica E (the r) s;
                    if error \<noteq> 0 then Some (Inl error, s1) else rmdir_loop E d skip ks error s1 } })"

definition rmdir_done :: "('f, 'z) sfs_env_scheme \<Rightarrow> ptr \<Rightarrow> errcode \<Rightarrow> 'f sfs \<Rightarrow> (errcode \<times> 'f sfs) option" where
  "rmdir_done E d error s =
     do { i \<leftarrow> d_inode (dents s d);
          s1 \<leftarrow> clean_dentry E d (s\<lparr>nlinks := (nlinks s)(i_ino i := 0)\<rparr>);
          Some (error, s1) }"

text \<open>The replica under the first normal parent is removed last.\<close>

definition sfs_rmdir :: "('f, 'z) sfs_env_scheme \<Rightarrow> ptr \<Rightarrow> 'f sfs \<Rightarrow> (errcode \<times> 'f sfs) option" where
  "sfs_rmdir E d s =
     do { pd \<leftarrow> d_fsdata (dents s (d_parent (dents s d)));
          let parent_normal_dir_id = (if 0 < normal_dir_count pd then first_normal_dir_id pd else - 1);
          (r, s1) \<leftarrow> rmdir_loop E d parent_normal_dir_id [0..<replica_count E] (- ENOENT) s;
          case r of
            Inl error \<Rightarrow> Some (error, s1)
          | Inr error \<Rightarrow>
              if parent_normal_dir_id < 0 then rmdir_done E d error s1
              else
                do { r \<leftarrow> find_replica_dentry E d parent_normal_dir_id s1;
                     if inode_of s1 r = None then Some (- EIO, s1)
                     else
                       do { (error, s2) \<leftarrow> rmdir_replica E (the r) s1;
                            if error \<noteq> 0 then Some (error, s2) else rmdir_done E d error s2 } } }"

definition delete_partitioned_file :: "('f, 'z) sfs_env_scheme \<Rightarrow> ptr \<Rightarrow> 'f sfs \<Rightarrow> (errcode \<times> 'f sfs) option" where
  "delete_partitioned_file E d s =
     do { fd \<leftarrow> d_fsdata (dents s d);
          l \<leftarrow> find_replica_dentry E d (meta_id fd) s;
          r \<leftarrow> find_replica_dentry E d (replica_id fd) s;
          local_dentry \<leftarrow> l;
          remote_dentry \<leftarrow> r;
          remote_dir \<leftarrow> d_inode (dents s (d_parent (dents s remote_dentry)));
          (error, s1) \<leftarrow> simple_unlink_not_put E remote_dir remote_dentry s;
          if error \<noteq> 0 then Some (error, s1)
          else
            do { local_dir \<leftarrow> d_inode (dents s (d_parent (dents s local_dentry)));
                 simple_unlink_not_put E local_dir local_dentry s1 } }"

definition sfs_unlink :: "('f, 'z) sfs_env_scheme \<Rightarrow> ptr \<Rightarrow> 'f sfs \<Rightarrow> (errcode \<times> 'f sfs) option" where
  "sfs_unlink E d s =
     do { (error, s1) \<leftarrow> validate_file E d s;
          if error \<noteq> 0 then Some (error, s1)
          else
            do { fd \<leftarrow> d_fsdata (dents s1 d);
                 (error, s2) \<leftarrow>
                   (if meta_id fd \<noteq> - 1 then delete_partitioned_file E d s1
                    else
                      do { r \<leftarrow> list_first_replica_dentry E d s1;
                           p \<leftarrow> r;
                           dir \<leftarrow> d_inode (dents s1 (d_parent (dents s1 p)));
                           simple_unlink_not_put E dir p s1 });
                 if error \<noteq> 0 then Some (error, s2)
                 else
                   do { i \<leftarrow> d_inode (dents s2 d);
                        s3 \<leftarrow> clean_dentry E d (s2\<lparr>nlinks := (nlinks s2)(i_ino i := nlinks s2 (i_ino i) - 1)\<rparr>);
                        Some (error, s3) } } }"

end
