(* ===== verification/Sfs_Names.thy ===== *)
theory Sfs_Names
  imports Sfs_Namei
begin

text \<open>
  Properties of the names of SFS: what was created is found, what was removed is not, and symbolic links cannot be created.
  The laws of the partitions are stated over a view of their state: the entries of every directory, the extended attributes of
  every inode, and the partition an inode belongs to.
\<close>

section \<open>Laws of the partitions\<close>

record 'f part_view =
  entry :: "'f \<Rightarrow> nat \<Rightarrow> string \<Rightarrow> inode option"
  xattr :: "'f \<Rightarrow> nat \<Rightarrow> string \<Rightarrow> char list option"
  home :: "nat \<Rightarrow> nat"

definition same_view :: "'f part_view \<Rightarrow> 'f \<Rightarrow> 'f \<Rightarrow> bool" where
  "same_view V f f' \<longleftrightarrow> entry V f' = entry V f \<and> xattr V f' = xattr V f"

text \<open>A new object: a free name, an inode of the same partition without attributes.\<close>

definition new_object :: "'f part_view \<Rightarrow> nat \<Rightarrow> string \<Rightarrow> 'f \<Rightarrow> inode \<Rightarrow> 'f \<Rightarrow> bool" where
  "new_object V dir name f i f' \<longleftrightarrow>
     entry V f dir name = None \<and> entry V f' = (entry V f)(dir := (entry V f dir)(name \<mapsto> i)) \<and>
     xattr V f' = (xattr V f)(i_ino i := (\<lambda>_. None)) \<and> home V (i_ino i) = home V dir"

definition lookup_law :: "'f sfs_env \<Rightarrow> 'f part_view \<Rightarrow> bool" where
  "lookup_law E V \<longleftrightarrow>
     (\<forall>dir name fl f. op_lookup E dir name fl f = LookupNew (entry V f (i_ino dir) name) \<or>
        (\<exists>e < 0. op_lookup E dir name fl f = LookupErr e)) \<and>
     (\<forall>f dir name i. entry V f dir name = Some i \<longrightarrow> home V (i_ino i) = home V dir)"

definition create_law :: "'f sfs_env \<Rightarrow> 'f part_view \<Rightarrow> bool" where
  "create_law E V \<longleftrightarrow>
     (\<forall>dir c name mode excl f. op_create E dir = Some c \<longrightarrow>
        (case c name mode excl f of
           (Inl e, f') \<Rightarrow> e < 0 \<and> same_view V f f'
         | (Inr i, f') \<Rightarrow> new_object V (i_ino dir) name f i f' \<and> i_mode i AND S_IFMT = mode AND S_IFMT))"

definition mkdir_law :: "'f sfs_env \<Rightarrow> 'f part_view \<Rightarrow> bool" where
  "mkdir_law E V \<longleftrightarrow>
     (\<forall>dir c name mode f. op_mkdir E dir = Some c \<longrightarrow>
        (case c name mode f of
           (Inl e, f') \<Rightarrow> e < 0 \<and> same_view V f f'
         | (Inr i, f') \<Rightarrow> new_object V (i_ino dir) name f i f' \<and> S_ISDIR (i_mode i)))"

definition unlink_law :: "'f sfs_env \<Rightarrow> 'f part_view \<Rightarrow> bool" where
  "unlink_law E V \<longleftrightarrow>
     (\<forall>dir name i f e f'. op_unlink E dir name i f = (e, f') \<longrightarrow>
        (if e = 0 then entry V f' = (entry V f)(i_ino dir := (entry V f (i_ino dir))(name := None)) \<and> xattr V f' = xattr V f
         else same_view V f f'))"

definition xattr_law :: "'f sfs_env \<Rightarrow> 'f part_view \<Rightarrow> bool" where
  "xattr_law E V \<longleftrightarrow>
     (\<forall>i k v f e f'. vfs_setxattr (op_xattr E) i k v f = (e, f') \<longrightarrow>
        entry V f' = entry V f \<and>
        xattr V f' = (if e = 0 then (xattr V f)(i_ino i := (xattr V f (i_ino i))(k \<mapsto> v)) else xattr V f)) \<and>
     (\<forall>i k n f. case xattr V f (i_ino i) k of
        None \<Rightarrow> fst (vfs_getxattr (op_xattr E) i k n f) < 0 \<and> fst (generic_getxattr (op_xattr E) i k n f) < 0
      | Some v \<Rightarrow> length v \<le> n \<longrightarrow> vfs_getxattr (op_xattr E) i k n f = (int (length v), v) \<and>
          generic_getxattr (op_xattr E) i k n f = (int (length v), v))"

definition parts_ok :: "'f sfs_env \<Rightarrow> 'f part_view \<Rightarrow> bool" where
  "parts_ok E V \<longleftrightarrow> lookup_law E V \<and> create_law E V \<and> mkdir_law E V \<and> unlink_law E V \<and> xattr_law E V"

section \<open>What the operations keep\<close>

text \<open>The heap: private data only at allocated dentries, with replicas that are allocated and belong to their partition.\<close>

definition rep_ok :: "'f part_view \<Rightarrow> nat \<Rightarrow> dentry \<Rightarrow> bool" where
  "rep_ok V k d \<longleftrightarrow> d_fsdata d = None \<and> d_sb d = k \<and> (\<forall>i. d_inode d = Some i \<longrightarrow> home V (i_ino i) = k)"

definition data_ok :: "'f part_view \<Rightarrow> 'f sfs \<Rightarrow> sfs_dentry \<Rightarrow> bool" where
  "data_ok V s fd \<longleftrightarrow> unused_replica_dentry fd = None \<and> (\<forall>k q. replicas fd k = Some q \<longrightarrow> q < fresh s \<and> rep_ok V k (dents s q))"

definition heap_ok :: "'f part_view \<Rightarrow> 'f sfs \<Rightarrow> bool" where
  "heap_ok V s \<longleftrightarrow> (\<forall>p fd. d_fsdata (dents s p) = Some fd \<longrightarrow> p < fresh s \<and> data_ok V s fd)"

text \<open>What grows: replicas are added, dentries become positive, directories become normal.\<close>

definition data_grows :: "nat \<Rightarrow> sfs_dentry \<Rightarrow> sfs_dentry \<Rightarrow> bool" where
  "data_grows k a b \<longleftrightarrow> (\<forall>j q. replicas a j = Some q \<longrightarrow> replicas b j = Some q) \<and>
     (\<forall>j. bit (normal_dir_map a) j \<longrightarrow> bit (normal_dir_map b) j) \<and>
     (\<forall>j. bit (normal_dir_map b) j \<longrightarrow> bit (normal_dir_map a) j \<or> j = k)"

definition dentry_grows :: "nat \<Rightarrow> dentry \<Rightarrow> dentry \<Rightarrow> bool" where
  "dentry_grows k d d' \<longleftrightarrow> d_name d' = d_name d \<and> d_parent d' = d_parent d \<and>
     (\<forall>i. d_inode d = Some i \<longrightarrow> d_inode d' = Some i) \<and> rel_option (data_grows k) (d_fsdata d) (d_fsdata d')"

definition grows :: "'f part_view \<Rightarrow> nat \<Rightarrow> 'f sfs \<Rightarrow> 'f sfs \<Rightarrow> bool" where
  "grows V k s s' \<longleftrightarrow> fresh s \<le> fresh s' \<and> (\<forall>p < fresh s. dentry_grows k (dents s p) (dents s' p)) \<and>
     (\<forall>dir. home V dir \<noteq> k \<longrightarrow> entry V (parts s') dir = entry V (parts s) dir)"

text \<open>Names that do not exist are left alone.\<close>

definition still :: "'f sfs \<Rightarrow> 'f sfs \<Rightarrow> bool" where
  "still s s' \<longleftrightarrow> (\<forall>q < fresh s. d_inode (dents s q) = None \<longrightarrow> d_fsdata (dents s q) \<noteq> None \<longrightarrow>
     d_inode (dents s' q) = None \<and> d_fsdata (dents s' q) = d_fsdata (dents s q))"

lemma still_refl [simp]: "still s s"
  by (simp add: still_def)

lemma still_trans: "still a b \<Longrightarrow> still b c \<Longrightarrow> fresh a \<le> fresh b \<Longrightarrow> still a c"
  unfolding still_def by (metis less_le_trans)

lemma data_grows_refl [simp]: "data_grows k a a"
  by (simp add: data_grows_def)

lemma data_grows_trans: "data_grows k a b \<Longrightarrow> data_grows k b c \<Longrightarrow> data_grows k a c"
  unfolding data_grows_def by blast

lemma dentry_grows_refl [simp]: "dentry_grows k d d"
  by (simp add: dentry_grows_def option.rel_refl)

lemma dentry_grows_trans: "dentry_grows k a b \<Longrightarrow> dentry_grows k b c \<Longrightarrow> dentry_grows k a c"
  unfolding dentry_grows_def using data_grows_trans by (auto elim!: option.rel_cases)

lemma grows_refl [simp]: "grows V k s s"
  by (simp add: grows_def)

lemma grows_trans: "grows V k a b \<Longrightarrow> grows V k b c \<Longrightarrow> grows V k a c"
  unfolding grows_def by (auto intro: dentry_grows_trans)

lemma upd_dentry_sel [simp]:
  "dents (upd_dentry p f s) q = (if q = p then f (dents s p) else dents s q)" "fresh (upd_dentry p f s) = fresh s"
  "parts (upd_dentry p f s) = parts s" "last_dispatch (upd_dentry p f s) = last_dispatch s" "nlinks (upd_dentry p f s) = nlinks s"
  by (simp_all add: upd_dentry_def)

lemma upd_fsdata_sel [simp]:
  "dents (upd_fsdata p f s) q = (if q = p then (dents s p)\<lparr>d_fsdata := map_option f (d_fsdata (dents s p))\<rparr> else dents s q)"
  "fresh (upd_fsdata p f s) = fresh s" "parts (upd_fsdata p f s) = parts s"
  "last_dispatch (upd_fsdata p f s) = last_dispatch s" "nlinks (upd_fsdata p f s) = nlinks s"
  by (simp_all add: upd_fsdata_def)

lemma kalloc_sel:
  assumes "kalloc E s = (r, s1)"
  shows "dents s1 = dents s" "fresh s1 = fresh s + 1" "parts s1 = parts s" "r = Some p \<Longrightarrow> p = fresh s"
  using assms by (auto simp: kalloc_def split: if_splits)

lemmas heap_ops = d_alloc_def d_add_def d_instantiate_def d_drop_def d_add_replica_def set_replica_id_def set_meta_id_def

lemma part_lookup_new:
  assumes "lookup_law E V" and "part_lookup E base new fl s = Some (Inr p, s1)"
  shows "p = new" "s1 = d_add new (entry V (parts s) (i_ino base) (d_name (dents s new))) s"
proof -
  consider "op_lookup E base (d_name (dents s new)) fl (parts s) = LookupNew (entry V (parts s) (i_ino base) (d_name (dents s new)))"
    | e where "op_lookup E base (d_name (dents s new)) fl (parts s) = LookupErr e"
    using assms(1) unfolding lookup_law_def by blast
  then have "p = new \<and> s1 = d_add new (entry V (parts s) (i_ino base) (d_name (dents s new))) s"
    using assms(2) by cases (auto simp: part_lookup_def bind_eq_Some_conv)
  then show "p = new" "s1 = d_add new (entry V (parts s) (i_ino base) (d_name (dents s new))) s" by simp_all
qed

lemma lookup_home: "lookup_law E V \<Longrightarrow> entry V f dir name = Some i \<Longrightarrow> home V (i_ino i) = home V dir"
  unfolding lookup_law_def by blast

text \<open>The dentry of a name that is looked up in a directory.\<close>

definition looked_up :: "ptr \<Rightarrow> nat \<Rightarrow> string \<Rightarrow> inode option \<Rightarrow> dentry" where
  "looked_up rp sb name i = \<lparr>d_name = name, d_parent = rp, d_inode = i, d_count = 1, d_hashed = True, d_sb = sb, d_fsdata = None\<rparr>"

lemma lookup_one_len_new:
  assumes "lookup_law E V" and "sfs_lookup_one_len E name (Some rp) s = Some (Inr p, s1)" and "rp < fresh s"
  shows "\<exists>b. d_inode (dents s rp) = Some b \<and> p = fresh s \<and> fresh s1 = fresh s + 1 \<and> parts s1 = parts s \<and>
    dents s1 = (dents s)(rp := (dents s rp)\<lparr>d_count := d_count (dents s rp) + 1\<rparr>,
      fresh s := looked_up rp (d_sb (dents s rp)) name (entry V (parts s) (i_ino b) name))"
proof -
  obtain b where b: "d_inode (dents s rp) = Some b" using assms(2) by (auto simp: sfs_lookup_one_len_def bind_eq_Some_conv)
  obtain r s0 where a: "d_alloc E rp name s = (r, s0)" by fastforce
  then obtain new where r: "r = Some new" "part_lookup E b new 0 s0 = Some (Inr p, s1)"
    using assms(2) b by (auto simp: sfs_lookup_one_len_def bind_eq_Some_conv Let_def)
  note l = part_lookup_new [OF assms(1) r(2)]
  have n: "new = fresh s" "fresh s0 = fresh s + 1" "parts s0 = parts s"
    "dents s0 = (dents s)(rp := (dents s rp)\<lparr>d_count := d_count (dents s rp) + 1\<rparr>,
       fresh s := \<lparr>d_name = name, d_parent = rp, d_inode = None, d_count = 1, d_hashed = False, d_sb = d_sb (dents s rp), d_fsdata = None\<rparr>)"
    using a r(1) assms(3) by (auto simp: d_alloc_def kalloc_def upd_dentry_def split: if_splits)
  show ?thesis using b l n assms(3) by (simp add: d_add_def looked_up_def upd_dentry_def)
qed

text \<open>One change of the heap at a time.\<close>

lemma heap_okD:
  assumes "heap_ok V s" and "d_fsdata (dents s p) = Some fd"
  shows "p < fresh s" "unused_replica_dentry fd = None" "replicas fd k = Some q \<Longrightarrow> q < fresh s"
    "replicas fd k = Some q \<Longrightarrow> rep_ok V k (dents s q)" "data_ok V s fd"
  using assms unfolding heap_ok_def data_ok_def by blast+

lemma data_ok_step:
  assumes "data_ok V s fd" and "fresh s \<le> fresh s1" and "\<And>k q. q < fresh s \<Longrightarrow> rep_ok V k (dents s q) \<Longrightarrow> rep_ok V k (dents s1 q)"
  shows "data_ok V s1 fd"
  using assms unfolding data_ok_def by (meson less_le_trans)

lemma heap_ok_new:
  assumes "heap_ok V s" and "fresh s1 = fresh s + 1" and "rp < fresh s"
    and "dents s1 = (dents s)(rp := (dents s rp)\<lparr>d_count := n\<rparr>, fresh s := looked_up rp sb name i)"
  shows "heap_ok V s1"
  unfolding heap_ok_def
proof (intro allI impI)
  fix p fd assume p: "d_fsdata (dents s1 p) = Some fd"
  then have fd: "d_fsdata (dents s p) = Some fd" using assms(4) by (auto simp: looked_up_def split: if_splits)
  have "data_ok V s1 fd"
    by (rule data_ok_step [OF heap_okD(5) [OF assms(1) fd]]) (use assms(2-4) in \<open>auto simp: rep_ok_def\<close>)
  then show "p < fresh s1 \<and> data_ok V s1 fd" using heap_okD(1) [OF assms(1) fd] assms(2) by simp
qed

lemma heap_ok_fsdata:
  assumes "heap_ok V s" and "\<And>fd. d_fsdata (dents s d) = Some fd \<Longrightarrow> data_ok V s (g fd)"
  shows "heap_ok V (upd_fsdata d g s)"
  unfolding heap_ok_def
proof (intro allI impI)
  let ?s = "upd_fsdata d g s"
  fix p fd assume p: "d_fsdata (dents ?s p) = Some fd"
  have c: "data_ok V s fd \<Longrightarrow> data_ok V ?s fd" by (erule data_ok_step) (auto simp: rep_ok_def)
  show "p < fresh ?s \<and> data_ok V ?s fd"
  proof (cases "p = d")
    case True
    then obtain fd0 where f: "d_fsdata (dents s d) = Some fd0" "fd = g fd0" using p by auto
    show ?thesis using True assms(2) [OF f(1)] f(2) c heap_okD(1) [OF assms(1) f(1)] by simp
  next
    case False
    then have "d_fsdata (dents s p) = Some fd" using p by simp
    then show ?thesis using c heap_okD(1,5) [OF assms(1)] by simp
  qed
qed

lemma data_ok_add:
  assumes "data_ok V s fd" and "q < fresh s" and "rep_ok V k (dents s q)"
  shows "data_ok V s (if replicas fd k = None then fd\<lparr>replicas := (replicas fd)(k := Some q)\<rparr> else fd)"
  using assms by (simp add: data_ok_def)

lemma heap_ok_inode:
  assumes "heap_ok V s" and "home V (i_ino i) = d_sb (dents s q)"
    and "fresh s1 = fresh s" and "dents s1 = (dents s)(q := (dents s q)\<lparr>d_inode := Some i\<rparr>)"
  shows "heap_ok V s1"
  unfolding heap_ok_def
proof (intro allI impI)
  fix p fd assume "d_fsdata (dents s1 p) = Some fd"
  then have fd: "d_fsdata (dents s p) = Some fd" using assms(4) by (auto split: if_splits)
  have "data_ok V s1 fd"
    by (rule data_ok_step [OF heap_okD(5) [OF assms(1) fd]]) (use assms(2-4) in \<open>auto simp: rep_ok_def\<close>)
  then show "p < fresh s1 \<and> data_ok V s1 fd" using heap_okD(1) [OF assms(1) fd] assms(3) by simp
qed

lemma heap_ok_same: "heap_ok V s \<Longrightarrow> dents s1 = dents s \<Longrightarrow> fresh s \<le> fresh s1 \<Longrightarrow> heap_ok V s1"
  unfolding heap_ok_def data_ok_def by (metis less_le_trans)

lemma grows_new:
  assumes "fresh s1 = fresh s + 1" and "rp < fresh s" and "parts s1 = parts s"
    and "dents s1 = (dents s)(rp := (dents s rp)\<lparr>d_count := n\<rparr>, fresh s := looked_up rp sb name i)"
  shows "grows V k s s1"
  using assms by (simp add: grows_def dentry_grows_def option.rel_refl)

lemma grows_fsdata:
  assumes "\<And>fd. d_fsdata (dents s d) = Some fd \<Longrightarrow> data_grows k fd (g fd)"
  shows "grows V k s (upd_fsdata d g s)"
  using assms by (cases "d_fsdata (dents s d)") (auto simp: grows_def dentry_grows_def option.rel_refl)

lemma grows_inode:
  assumes "fresh s1 = fresh s" and "d_inode (dents s q) = None" and "dents s1 = (dents s)(q := (dents s q)\<lparr>d_inode := Some i\<rparr>)"
    and "\<And>dir. home V dir \<noteq> k \<Longrightarrow> entry V (parts s1) dir = entry V (parts s) dir"
  shows "grows V k s s1"
  using assms by (simp add: grows_def dentry_grows_def option.rel_refl)

lemma find_replica_SomeD:
  "find_replica_dentry E d (int k) s = Some r \<Longrightarrow>
   k < replica_count E \<and> (\<exists>fd. d_fsdata (dents s d) = Some fd \<and> r = replicas fd k)"
  by (auto simp: find_replica_dentry_def bind_eq_Some_conv split: if_splits)

lemma find_replica_eq:
  "k < replica_count E \<Longrightarrow> d_fsdata (dents s d) = Some fd \<Longrightarrow> find_replica_dentry E d (int k) s = Some (replicas fd k)"
  by (simp add: find_replica_dentry_def)

text \<open>The replica of a name: known, or looked up in the directory of the partition.\<close>

lemma get_replica_new:
  assumes "lookup_law E V" and "heap_ok V s" and "rp < fresh s" and "rep_ok V k (dents s rp)"
    and "get_replica_dentry E (Some rp) d (int k) s = Some (Inr p, s1)"
  shows "heap_ok V s1 \<and> grows V k s s1 \<and> parts s1 = parts s \<and> find_replica_dentry E d (int k) s1 = Some (Some p) \<and>
    (\<forall>q < fresh s. d_inode (dents s1 q) = d_inode (dents s q) \<and> (q \<noteq> d \<longrightarrow> d_fsdata (dents s1 q) = d_fsdata (dents s q))) \<and>
    (find_replica_dentry E d (int k) s = Some None \<longrightarrow>
       (\<exists>b. d_inode (dents s rp) = Some b \<and> p = fresh s \<and>
          dents s1 p = looked_up rp (d_sb (dents s rp)) (d_name (dents s d)) (entry V (parts s) (i_ino b) (d_name (dents s d)))))"
proof -
  obtain r where f: "find_replica_dentry E d (int k) s = Some r"
    using assms(5) by (auto simp: get_replica_dentry_def bind_eq_Some_conv)
  obtain fd where fd: "d_fsdata (dents s d) = Some fd" "r = replicas fd k" and k: "k < replica_count E"
    using find_replica_SomeD [OF f] by blast
  note h = heap_okD [OF assms(2) fd(1)]
  show ?thesis
  proof (cases r)
    case (Some q)
    then have "p = q" "s1 = s" using assms(5) f by (simp_all add: get_replica_dentry_def)
    then show ?thesis using Some f assms(2) by simp
  next
    case None
    then obtain r1 s0 where l1: "sfs_lookup_one_len E (d_name (dents s d)) (Some rp) s = Some (r1, s0)"
      using assms(5) f fd(1) h(2) by (auto simp: get_replica_dentry_def bind_eq_Some_conv)
    then have "r1 = Inr p" and s1: "s1 = d_add_replica d p k s0"
      using assms(5) f fd(1) h(2) None by (auto simp: get_replica_dentry_def split: sum.split_asm)
    then have l: "sfs_lookup_one_len E (d_name (dents s d)) (Some rp) s = Some (Inr p, s0)" using l1 by simp
    from lookup_one_len_new [OF assms(1) l assms(3)] obtain b where b: "d_inode (dents s rp) = Some b" "p = fresh s"
      "fresh s0 = fresh s + 1" "parts s0 = parts s"
      "dents s0 = (dents s)(rp := (dents s rp)\<lparr>d_count := d_count (dents s rp) + 1\<rparr>,
         fresh s := looked_up rp (d_sb (dents s rp)) (d_name (dents s d)) (entry V (parts s) (i_ino b) (d_name (dents s d))))" by blast
    have h0: "heap_ok V s0" by (rule heap_ok_new [OF assms(2) b(3) assms(3) b(5)])
    have d: "d \<noteq> fresh s" using h(1) by simp
    then have fd0: "d_fsdata (dents s0 d) = Some fd" using fd(1) b(5) by auto
    have i: "home V (i_ino j) = k" if "entry V (parts s) (i_ino b) (d_name (dents s d)) = Some j" for j
      using lookup_home [OF assms(1) that] assms(4) b(1) by (simp add: rep_ok_def)
    have dk: "data_ok V s0 fd" using h0 fd0 unfolding heap_ok_def by blast
    have p: "p < fresh s0" "dents s0 p = looked_up rp (d_sb (dents s rp)) (d_name (dents s d)) (entry V (parts s) (i_ino b) (d_name (dents s d)))"
      using b(2,3,5) by simp_all
    have da: "data_ok V s0 (if replicas fd k = None then fd\<lparr>replicas := (replicas fd)(k := Some p)\<rparr> else fd)"
      by (rule data_ok_add [OF dk p(1)]) (use assms(4) i p(2) in \<open>simp add: looked_up_def rep_ok_def\<close>)
    have hs: "heap_ok V s1"
      unfolding s1 d_add_replica_def
    proof (rule heap_ok_fsdata [OF h0])
      fix fd1 assume "d_fsdata (dents s0 d) = Some fd1"
      then have "fd1 = fd" using fd0 by simp
      then show "data_ok V s0 (if replicas fd1 k = None then fd1\<lparr>replicas := (replicas fd1)(k := Some p)\<rparr> else fd1)"
        using da by (simp only:)
    qed
    have g: "grows V k s s1"
      unfolding s1 d_add_replica_def
      by (rule grows_trans [OF grows_new [OF b(3) assms(3) b(4,5)] grows_fsdata]) (simp add: data_grows_def)
    have "d_fsdata (dents s1 d) = Some (fd\<lparr>replicas := (replicas fd)(k := Some p)\<rparr>)"
      using fd0 None fd(2) by (simp add: s1 d_add_replica_def)
    then have "find_replica_dentry E d (int k) s1 = Some (Some p)" using find_replica_eq [OF k] by simp
    moreover have "dents s1 p = dents s0 p" "parts s1 = parts s" using b(2,4) d by (simp_all add: s1 d_add_replica_def)
    moreover have "\<forall>q < fresh s. d_inode (dents s1 q) = d_inode (dents s q) \<and> (q \<noteq> d \<longrightarrow> d_fsdata (dents s1 q) = d_fsdata (dents s q))"
      using b(5) by (simp add: s1 d_add_replica_def)
    ultimately show ?thesis using hs g p(2) b(1,2) by simp
  qed
qed

section \<open>Replicas of directories\<close>

lemma madeD:
  assumes "made p r s = (0, s1)" and "case r of (Inl e, f) \<Rightarrow> e < 0 \<and> A e f | (Inr i, f) \<Rightarrow> B i f"
  obtains i f where "r = (Inr i, f)" "B i f" "s1 = d_instantiate p (Some i) (s\<lparr>parts := f\<rparr>)"
  using assms by (auto simp: made_def split: prod.splits sum.splits)

text \<open>A new object at a replica that has no inode yet.\<close>

lemma instantiate_step:
  assumes "heap_ok V s" and "rep_ok V k (dents s p)" and "d_inode (dents s p) = None" and "home V dir = k"
    and "new_object V dir name (parts s) i f" and "s1 = d_instantiate p (Some i) (s\<lparr>parts := f\<rparr>)"
  shows "heap_ok V s1" "grows V k s s1" "d_inode (dents s1 p) = Some i" "still s s1"
proof -
  have d: "dents s1 = (dents s)(p := (dents s p)\<lparr>d_inode := Some i\<rparr>)" "fresh s1 = fresh s" "parts s1 = f"
    by (simp_all add: assms(6) d_instantiate_def upd_dentry_def)
  have n: "home V (i_ino i) = k" "\<And>x. x \<noteq> dir \<Longrightarrow> entry V f x = entry V (parts s) x"
    using assms(4,5) by (simp_all add: new_object_def)
  show "heap_ok V s1" by (rule heap_ok_inode [OF assms(1) _ d(2,1)]) (use n(1) assms(2) in \<open>simp add: rep_ok_def\<close>)
  show "grows V k s s1" by (rule grows_inode [OF d(2) assms(3) d(1)]) (use n(2) assms(4) d(3) in metis)
  show "d_inode (dents s1 p) = Some i" by (simp add: d(1))
  show "still s s1" using assms(2) by (simp add: still_def d rep_ok_def)
qed

lemma find_replica_ok:
  assumes "heap_ok V s" and "find_replica_dentry E d (int k) s = Some (Some p)"
  shows "p < fresh s" "rep_ok V k (dents s p)"
  using find_replica_SomeD [OF assms(2)] heap_okD [OF assms(1)] by auto

lemma grows_fsdataD:
  assumes "grows V k s s1" and "heap_ok V s" and "d_fsdata (dents s d) = Some fd"
  obtains fd1 where "d_fsdata (dents s1 d) = Some fd1" "data_grows k fd fd1"
proof -
  have "dentry_grows k (dents s d) (dents s1 d)" using assms(1) heap_okD(1) [OF assms(2,3)] by (simp add: grows_def)
  then show thesis using assms(3) that by (auto simp: dentry_grows_def option_rel_Some1)
qed

lemma grows_find:
  assumes "grows V j s s1" and "heap_ok V s" and "find_replica_dentry E d (int k) s = Some (Some p)"
  shows "find_replica_dentry E d (int k) s1 = Some (Some p)"
proof -
  obtain fd where fd: "k < replica_count E" "d_fsdata (dents s d) = Some fd" "replicas fd k = Some p"
    using find_replica_SomeD [OF assms(3)] by auto
  obtain fd1 where "d_fsdata (dents s1 d) = Some fd1" "data_grows j fd fd1" by (rule grows_fsdataD [OF assms(1,2) fd(2)])
  then show ?thesis using fd by (simp add: find_replica_dentry_def data_grows_def)
qed

lemma grows_inode_of:
  "grows V j s s1 \<Longrightarrow> p < fresh s \<Longrightarrow> d_inode (dents s p) = Some i \<Longrightarrow> d_inode (dents s1 p) = Some i"
  by (simp add: grows_def dentry_grows_def)

lemma clone_dirs_makes:
  assumes "parts_ok E V" and "heap_ok V s" and "tmp < fresh s" and "rep_ok V k (dents s tmp)"
    and "clone_dirs E (int k) path tmp ret s = Some (Inr p, s1)"
  shows "heap_ok V s1 \<and> grows V k s s1 \<and> still s s1 \<and> (path = [] \<longrightarrow> ret = Inr p) \<and>
    (path \<noteq> [] \<longrightarrow> find_replica_dentry E (last path) (int k) s1 = Some (Some p) \<and> d_inode (dents s1 p) \<noteq> None)"
  using assms(2-5)
proof (induction path arbitrary: tmp ret s)
  case (Cons node path)
  obtain r sa where g: "get_replica_dentry E (Some tmp) node (int k) s = Some (r, sa)"
    using Cons.prems(4) by (auto simp: bind_eq_Some_conv)
  then obtain q where r: "r = Inr q" using Cons.prems(4) by (cases r) auto
  have l: "lookup_law E V" "mkdir_law E V" using assms(1) by (simp_all add: parts_ok_def)
  note n = get_replica_new [OF l(1) Cons.prems(1-3) g [unfolded r]]
  have ha: "heap_ok V sa" and ga: "grows V k s sa" and fa: "find_replica_dentry E node (int k) sa = Some (Some q)" using n by blast+
  note qa = find_replica_ok [OF ha fa]
  have pos: "d_inode (dents sa node) \<noteq> None" using Cons.prems(4) g r by (auto simp: bind_eq_Some_conv)
  have "node < fresh s" using g heap_okD(1) [OF Cons.prems(1)] by (auto simp: get_replica_dentry_def find_replica_dentry_def bind_eq_Some_conv)
  then have sa: "still s sa" using n pos by (auto simp: still_def)
  obtain sb where b: "heap_ok V sb" "grows V k sa sb" "still sa sb" "d_inode (dents sb q) \<noteq> None" "clone_dirs E (int k) path q (Inr q) sb = Some (Inr p, s1)"
  proof (cases "d_inode (dents sa q)")
    case (Some i)
    then show ?thesis using that [of sa] Cons.prems(4) g r ha by (auto simp: bind_eq_Some_conv)
  next
    case None
    obtain i dir c where c: "d_inode (dents sa node) = Some i" "d_inode (dents s tmp) = Some dir" "op_mkdir E dir = Some c"
      using Cons.prems(4) g r None by (auto simp: bind_eq_Some_conv)
    obtain e sb where m: "made q (c (d_name (dents sa q)) (i_mode i) (parts sa)) sa = (e, sb)" by fastforce
    have e: "e = 0" "clone_dirs E (int k) path q (Inr q) sb = Some (Inr p, s1)"
      using Cons.prems(4) g r None c m by (auto simp: Let_def split: if_splits)
    have law: "case c (d_name (dents sa q)) (i_mode i) (parts sa) of
       (Inl e, f) \<Rightarrow> e < 0 \<and> same_view V (parts sa) f
     | (Inr j, f) \<Rightarrow> new_object V (i_ino dir) (d_name (dents sa q)) (parts sa) j f \<and> S_ISDIR (i_mode j)"
      by (rule l(2) [unfolded mkdir_law_def, rule_format, OF c(3)])
    from madeD [OF m [unfolded e(1)] law] obtain j f where
      j: "new_object V (i_ino dir) (d_name (dents sa q)) (parts sa) j f" "sb = d_instantiate q (Some j) (sa\<lparr>parts := f\<rparr>)" by metis
    have "home V (i_ino dir) = k" using Cons.prems(3) c(2) by (simp add: rep_ok_def)
    from instantiate_step [OF ha qa(2) None this j] show ?thesis using that [of sb] e(2) by simp
  qed
  have fb: "find_replica_dentry E node (int k) sb = Some (Some q)" by (rule grows_find [OF b(2) ha fa])
  note qb = find_replica_ok [OF b(1) fb]
  from Cons.IH [OF b(1) qb b(5)] have ih: "heap_ok V s1" "grows V k sb s1" "still sb s1" "path = [] \<longrightarrow> Inr q = (Inr p :: errcode + ptr)"
    "path \<noteq> [] \<longrightarrow> find_replica_dentry E (last path) (int k) s1 = Some (Some p) \<and> d_inode (dents s1 p) \<noteq> None" by blast+
  have "path = [] \<longrightarrow> find_replica_dentry E node (int k) s1 = Some (Some p) \<and> d_inode (dents s1 p) \<noteq> None"
    using ih(4) grows_find [OF ih(2) b(1) fb] grows_inode_of [OF ih(2) qb(1)] b(4) by auto
  moreover have "still s s1"
    by (rule still_trans [OF still_trans [OF sa b(3)] ih(3)]) (use ga b(2) in \<open>simp_all add: grows_def\<close>)
  ultimately show ?case using ih grows_trans [OF grows_trans [OF ga b(2)] ih(2)] by simp
qed simp

text \<open>The path that \<^verbatim>\<open>sfs_clone_branch\<close> collects ends with the directory itself, below an ancestor that has a replica.\<close>

definition climbed ::
  "('f, 'z) sfs_env_scheme \<Rightarrow> int \<Rightarrow> ptr \<Rightarrow> ptr list \<Rightarrow> 'f sfs \<Rightarrow> (errcode + ptr \<times> ptr list) \<times> 'f sfs \<Rightarrow> bool" where
  "climbed E rid tmp path s r \<longleftrightarrow>
     (\<forall>found path1. fst r = Inr (found, path1) \<longrightarrow>
        dents (snd r) = dents s \<and> parts (snd r) = parts s \<and> fresh s \<le> fresh (snd r) \<and>
        (\<exists>d. find_replica_dentry E d rid s = Some (Some found)) \<and>
        (path1 = path \<or> path1 \<noteq> [] \<and> last path1 = (if path = [] then tmp else last path)))"

lemma clone_path_climbs:
  assumes "clone_path E rid tmp path s = Some r"
  shows "climbed E rid tmp path s r"
  using assms
proof (induction rule: clone_path.raw_induct [rotated, consumes 1, case_names 1])
  case (1 cp E rid tmp path s r)
  obtain a sa where k: "kalloc E s = (a, sa)" by fastforce
  note ks = kalloc_sel [OF k]
  have f: "find_replica_dentry E d rid sa = find_replica_dentry E d rid s" for d by (simp add: find_replica_dentry_def ks)
  show ?case
  proof (cases a)
    case None
    then show ?thesis using 1(2) k by (auto simp: climbed_def)
  next
    case (Some x)
    then obtain q where q: "find_replica_dentry E tmp rid s = Some q" using 1(2) k f by (auto split: option.splits)
    show ?thesis
    proof (cases "inode_of sa q")
      case None
      then have "cp E rid (d_parent (dents sa tmp)) (tmp # path) sa = Some r" using 1(2) k Some q f by simp
      from 1(1) [OF this] show ?thesis by (auto simp: climbed_def ks f split: if_splits)
    next
      case (Some j)
      then obtain q' where "q = Some q'" by (cases q) (auto simp: inode_of_def)
      then show ?thesis using 1(2) k \<open>a = Some x\<close> q f Some ks by (auto simp: climbed_def)
    qed
  qed
qed

lemma clone_branch_makes:
  assumes "parts_ok E V" and "heap_ok V s" and "sfs_clone_branch E d (int k) s = Some (Inr p, s1)"
  shows "heap_ok V s1 \<and> grows V k s s1 \<and> still s s1 \<and> find_replica_dentry E d (int k) s1 = Some (Some p) \<and> d_inode (dents s1 p) \<noteq> None"
proof -
  obtain r sa where c: "clone_path E (int k) d [] s = Some (r, sa)"
    using assms(3) by (auto simp: sfs_clone_branch_def bind_eq_Some_conv)
  then obtain found path where r: "r = Inr (found, path)" "clone_dirs E (int k) path found (Inl (- EIO)) sa = Some (Inr p, s1)"
    using assms(3) by (auto simp: sfs_clone_branch_def split: sum.split_asm)
  from clone_path_climbs [OF c] r(1) obtain a where
    a: "dents sa = dents s" "parts sa = parts s" "fresh s \<le> fresh sa" "find_replica_dentry E a (int k) s = Some (Some found)"
    "path \<noteq> [] \<longrightarrow> last path = d" by (auto simp: climbed_def)
  have h: "heap_ok V sa" by (rule heap_ok_same [OF assms(2) a(1,3)])
  have f: "find_replica_dentry E a (int k) sa = Some (Some found)" using a(1,4) by (simp add: find_replica_dentry_def)
  have g: "grows V k s sa" using a by (simp add: grows_def)
  have st: "still s sa" using a by (simp add: still_def)
  from clone_dirs_makes [OF assms(1) h find_replica_ok [OF h f] r(2)] show ?thesis
    using a(5) grows_trans [OF g, of s1] still_trans [OF st _ a(3), of s1] by auto
qed

lemma set_normal_makes:
  assumes "xattr_law E V" and "heap_ok V s" and "k < 64" and "set_normal_dir E d (int k) s = Some (0, s1)"
  shows "heap_ok V s1 \<and> grows V k s s1 \<and> (\<forall>q. d_inode (dents s1 q) = d_inode (dents s q) \<and>
      (q \<noteq> d \<longrightarrow> d_fsdata (dents s1 q) = d_fsdata (dents s q))) \<and> (\<exists>fd. d_fsdata (dents s1 d) = Some fd \<and> bit (normal_dir_map fd) k)"
proof -
  obtain fd where fd: "d_fsdata (dents s d) = Some fd" using assms(4) by (auto simp: set_normal_dir_def bind_eq_Some_conv)
  show ?thesis
  proof (cases "bit (normal_dir_map fd) k")
    case True
    then have "s1 = s" using assms(4) fd by (simp add: set_normal_dir_def test_bitmap_bit)
    then show ?thesis using assms(2) fd True by simp
  next
    case False
    then obtain r i where ri: "find_replica_dentry E d (int k) s = Some r" "inode_of s r = Some i"
      using assms(4) fd by (auto simp: set_normal_dir_def test_bitmap_bit bind_eq_Some_conv)
    obtain e f where x: "vfs_setxattr (op_xattr E) i SHADOW normal_value (parts s) = (e, f)" by fastforce
    let ?g = "\<lambda>fd. fd\<lparr>first_normal_dir_id := (if normal_dir_count fd = 0 then int k else first_normal_dir_id fd),
       normal_dir_count := normal_dir_count fd + 1, normal_dir_map := set_bitmap (normal_dir_map fd) k\<rparr>"
    let ?s = "s\<lparr>parts := f\<rparr>"
    have s1: "e = 0" "s1 = upd_fsdata d ?g ?s"
      using assms(4) fd False ri x by (auto simp: set_normal_dir_def test_bitmap_bit Let_def)
    have "entry V f = entry V (parts s)" using assms(1) x unfolding xattr_law_def by blast
    then have g: "grows V k s ?s" by (simp add: grows_def)
    have h: "heap_ok V ?s" by (rule heap_ok_same [OF assms(2)]) simp_all
    have "heap_ok V s1" unfolding s1(2)
      by (rule heap_ok_fsdata [OF h]) (use heap_okD(5) [OF h] in \<open>simp add: data_ok_def\<close>)
    moreover have "grows V k ?s s1" unfolding s1(2)
      by (rule grows_fsdata) (simp add: data_grows_def bit_set_bitmap [OF assms(3)])
    ultimately show ?thesis using grows_trans [OF g] fd by (simp add: s1(2) bit_set_bitmap [OF assms(3)])
  qed
qed

lemma create_replica_makes:
  assumes "parts_ok E V" and "heap_ok V s" and "k < 64" and "d_inode (dents s d) \<noteq> None" and "create_replica_dir E d (int k) ct s = Some (Inr p, s1)"
  shows "heap_ok V s1 \<and> grows V k s s1 \<and> still s s1 \<and> find_replica_dentry E d (int k) s1 = Some (Some p) \<and> d_inode (dents s1 p) \<noteq> None \<and>
    (ct = CLONE_NORMAL \<longrightarrow> (\<exists>fd. d_fsdata (dents s1 d) = Some fd \<and> bit (normal_dir_map fd) k))"
proof -
  obtain r where r: "find_replica_dentry E d (int k) s = Some r"
    using assms(5) by (auto simp: create_replica_dir_def bind_eq_Some_conv)
  obtain q sa where q: "heap_ok V sa" "grows V k s sa" "still s sa" "find_replica_dentry E d (int k) sa = Some (Some q)" "d_inode (dents sa q) \<noteq> None"
    and n: "(if ct = CLONE_NORMAL then do { (err, s2) \<leftarrow> set_normal_dir E d (int k) sa; Some (if err \<noteq> 0 then Inl err else Inr q, s2) }
       else Some (Inr q, sa)) = Some (Inr p, s1)"
  proof (cases "inode_of s r")
    case None
    then obtain x sa where c: "sfs_clone_branch E d (int k) s = Some (x, sa)"
      using assms(5) r by (auto simp: create_replica_dir_def bind_eq_Some_conv)
    then obtain q where x: "x = Inr q" using assms(5) r None by (cases x) (auto simp: create_replica_dir_def)
    show ?thesis
      using that [of sa q] clone_branch_makes [OF assms(1,2) c [unfolded x]] assms(5) r None c x
      by (simp add: create_replica_dir_def)
  next
    case (Some i)
    then obtain q where "r = Some q" by (cases r) (auto simp: inode_of_def)
    then show ?thesis using that [of s q] assms(2,5) r Some by (simp add: create_replica_dir_def inode_of_def)
  qed
  show ?thesis
  proof (cases "ct = CLONE_NORMAL")
    case True
    then have m: "set_normal_dir E d (int k) sa = Some (0, s1)" "p = q" using n by (auto simp: bind_eq_Some_conv split: if_splits)
    have x: "xattr_law E V" using assms(1) by (simp add: parts_ok_def)
    note t = set_normal_makes [OF x q(1) assms(3) m(1)]
    have dq: "d_inode (dents s1 q) \<noteq> None"
      using t grows_inode_of [of V k sa s1 q] find_replica_ok(1) [OF q(1,4)] q(5) by auto
    have "d < fresh s" using r heap_okD(1) [OF assms(2)] by (auto simp: find_replica_dentry_def bind_eq_Some_conv)
    then have "d_inode (dents sa d) \<noteq> None" using assms(4) grows_inode_of [OF q(2)] by auto
    then have "still sa s1" using t unfolding still_def by metis
    moreover have "fresh s \<le> fresh sa" using q(2) by (simp add: grows_def)
    ultimately have "still s s1" using still_trans [OF q(3)] by blast
    then show ?thesis using t dq grows_trans [OF q(2)] grows_find [OF _ q(1,4)] m(2) by blast
  next
    case False
    then show ?thesis using n q by simp
  qed
qed

section \<open>Creating a file\<close>

lemma heap_ok_sfs_inode:
  assumes "heap_ok V s" and "d_fsdata (dents s d) \<noteq> None"
  shows "heap_ok V (d_instantiate d i s)"
  unfolding heap_ok_def
proof (intro allI impI)
  let ?s = "d_instantiate d i s"
  fix p fd assume "d_fsdata (dents ?s p) = Some fd"
  then have fd: "d_fsdata (dents s p) = Some fd" by (auto simp: d_instantiate_def split: if_splits)
  have "data_ok V ?s fd"
    by (rule data_ok_step [OF heap_okD(5) [OF assms(1) fd]]) (use assms(2) in \<open>auto simp: rep_ok_def d_instantiate_def\<close>)
  then show "p < fresh ?s \<and> data_ok V ?s fd" using heap_okD(1) [OF assms(1) fd] by (simp add: d_instantiate_def)
qed

lemma new_inodeD:
  assumes "sfs_new_inode E mode s = Some (r, s1)"
  shows "dents s1 = dents s" "parts s1 = parts s" "fresh s1 = fresh s + 1" "last_dispatch s1 = last_dispatch s"
  using assms by (auto simp: sfs_new_inode_def sfs_alloc_inode_def kalloc_def bind_eq_Some_conv split: if_splits)

text \<open>A name that does not exist, in a directory.\<close>

definition new_name :: "'f sfs_env \<Rightarrow> 'f part_view \<Rightarrow> ptr \<Rightarrow> sfs_dentry \<Rightarrow> 'f sfs \<Rightarrow> bool" where
  "new_name E V d pd s \<longleftrightarrow>
     heap_ok V s \<and> d_fsdata (dents s (d_parent (dents s d))) = Some pd \<and> d_inode (dents s (d_parent (dents s d))) \<noteq> None \<and>
     normal_ok (replica_count E) pd \<and> last_dispatch s \<le> DISPATCH_MAX \<and> d_inode (dents s d) = None \<and>
     (\<exists>fd. d_fsdata (dents s d) = Some fd \<and> replicas fd = (\<lambda>_. None))"

lemma grows_dispatch:
  assumes "heap_ok V s" and "d_fsdata (dents s P) = Some pd"
  shows "heap_ok V (upd_fsdata P (\<lambda>_. pd\<lparr>local_counter := c\<rparr>) (s\<lparr>last_dispatch := l\<rparr>))"
    "grows V k s (upd_fsdata P (\<lambda>_. pd\<lparr>local_counter := c\<rparr>) (s\<lparr>last_dispatch := l\<rparr>))"
proof -
  let ?s = "s\<lparr>last_dispatch := l\<rparr>"
  have h: "heap_ok V ?s" by (rule heap_ok_same [OF assms(1)]) simp_all
  have "data_ok V ?s pd" using heap_okD(5) [OF h] assms(2) by simp
  then have dc: "data_ok V ?s (pd\<lparr>local_counter := c\<rparr>)" by (simp add: data_ok_def)
  show "heap_ok V (upd_fsdata P (\<lambda>_. pd\<lparr>local_counter := c\<rparr>) ?s)" by (rule heap_ok_fsdata [OF h]) (rule dc)
  have "grows V k s ?s" by (simp add: grows_def)
  moreover have "grows V k ?s (upd_fsdata P (\<lambda>_. pd\<lparr>local_counter := c\<rparr>) ?s)"
    by (rule grows_fsdata) (use assms(2) in \<open>simp add: data_grows_def\<close>)
  ultimately show "grows V k s (upd_fsdata P (\<lambda>_. pd\<lparr>local_counter := c\<rparr>) ?s)" by (rule grows_trans)
qed

text \<open>An error pointer is never the error 0.\<close>

lemma part_lookup_err: "lookup_law E V \<Longrightarrow> part_lookup E base new fl s = Some (Inl e, s1) \<Longrightarrow> e < 0"
  unfolding lookup_law_def part_lookup_def
  by (erule conjE, erule allE [of _ base], erule allE [of _ "d_name (dents s new)"], erule allE [of _ fl], erule allE [of _ "parts s"])
    (auto simp: bind_eq_Some_conv)

lemma get_replica_err:
  assumes "lookup_law E V" and "get_replica_dentry E (Some rp) d rid s = Some (Inl e, s1)"
  shows "e < 0"
proof -
  obtain r where f: "find_replica_dentry E d rid s = Some r" using assms(2) by (auto simp: get_replica_dentry_def bind_eq_Some_conv)
  obtain fd where fd: "d_fsdata (dents s d) = Some fd" using f by (auto simp: find_replica_dentry_def bind_eq_Some_conv)
  have n: "r = None" "unused_replica_dentry fd = None"
    using assms(2) f fd by (auto simp: get_replica_dentry_def Let_def split: option.splits)
  then obtain x sa where l: "sfs_lookup_one_len E (d_name (dents s d)) (Some rp) s = Some (x, sa)"
    using assms(2) f fd by (auto simp: get_replica_dentry_def bind_eq_Some_conv)
  then have "x = Inl e" using assms(2) f fd n by (cases x) (auto simp: get_replica_dentry_def)
  moreover obtain a sx where "d_alloc E rp (d_name (dents s d)) s = (a, sx)" by fastforce
  ultimately show ?thesis
    using l by (auto simp: sfs_lookup_one_len_def bind_eq_Some_conv Let_def dest: part_lookup_err [OF assms(1)])
qed

lemma clone_dirs_err:
  "lookup_law E V \<Longrightarrow> (\<And>x. ret = Inl x \<Longrightarrow> x \<noteq> 0) \<Longrightarrow> clone_dirs E rid path tmp ret s = Some (Inl e, s1) \<Longrightarrow> e \<noteq> 0"
proof (induction path arbitrary: tmp ret s)
  case (Cons node path)
  obtain r sa where g: "get_replica_dentry E (Some tmp) node rid s = Some (r, sa)" using Cons.prems(3) by (auto simp: bind_eq_Some_conv)
  show ?case
  proof (cases r)
    case (Inl x)
    then show ?thesis using g Cons.prems(3) get_replica_err [OF Cons.prems(1), of tmp node rid s x sa] by auto
  next
    case (Inr q)
    have i: "clone_dirs E rid path q (Inr q) sb = Some (Inl e, s1) \<Longrightarrow> e \<noteq> 0" for sb by (rule Cons.IH [OF Cons.prems(1)]) simp_all
    show ?thesis
    proof (cases "d_inode (dents sa q)")
      case None
      then obtain j dir c where c: "d_inode (dents sa node) = Some j" "d_inode (dents s tmp) = Some dir" "op_mkdir E dir = Some c"
        using Cons.prems(3) g Inr by (auto simp: bind_eq_Some_conv)
      obtain x sb where "made q (c (d_name (dents sa q)) (i_mode j) (parts sa)) sa = (x, sb)" by fastforce
      then show ?thesis using Cons.prems(3) g Inr i c None by (auto simp: Let_def split: if_splits)
    qed (use Cons.prems(3) g Inr i in \<open>auto simp: bind_eq_Some_conv\<close>)
  qed
qed simp

lemma clone_path_err:
  assumes "clone_path E rid d path s = Some y" and "fst y = Inl z"
  shows "z = - ENOMEM"
  using assms
  by (induction rule: clone_path.raw_induct [rotated, consumes 1, case_names 1]) (auto split: prod.splits option.splits if_splits)

lemma clone_branch_err:
  assumes "lookup_law E V" and "sfs_clone_branch E d rid s = Some (Inl x, sa)"
  shows "x \<noteq> 0"
proof -
  obtain r sb where r: "clone_path E rid d [] s = Some (r, sb)" using assms(2) by (auto simp: sfs_clone_branch_def bind_eq_Some_conv)
  show ?thesis
  proof (cases r)
    case (Inl y)
    then show ?thesis using assms(2) r clone_path_err [OF r, of y] by (simp add: sfs_clone_branch_def)
  next
    case (Inr y)
    then have "clone_dirs E rid (snd y) (fst y) (Inl (- EIO)) sb = Some (Inl x, sa)"
      using assms(2) r by (simp add: sfs_clone_branch_def case_prod_beta)
    then show ?thesis by (rule clone_dirs_err [OF assms(1), rotated]) simp
  qed
qed

lemma create_replica_err:
  assumes "lookup_law E V" and "create_replica_dir E d rid ct s = Some (Inl e, s1)"
  shows "e \<noteq> 0"
proof -
  obtain r where r: "find_replica_dentry E d rid s = Some r" using assms(2) by (auto simp: create_replica_dir_def bind_eq_Some_conv)
  show ?thesis
  proof (cases "inode_of s r")
    case None
    then obtain x sa where x: "sfs_clone_branch E d rid s = Some (x, sa)" using assms(2) r by (auto simp: create_replica_dir_def bind_eq_Some_conv)
    then show ?thesis 
      using assms(2) r None
      by (cases x) (auto simp: create_replica_dir_def bind_eq_Some_conv split: if_splits dest: clone_branch_err [OF assms(1)])
  next
    case (Some i)
    then show ?thesis using assms(2) r by (auto simp: create_replica_dir_def bind_eq_Some_conv split: if_splits)
  qed
qed

lemma add_entry_creates:
  assumes "parts_ok E V" and "heap_ok V s" and "k < 64" and "d_inode (dents s (d_parent (dents s d))) \<noteq> None"
    and "d_fsdata (dents s d) = Some fd" and "replicas fd = (\<lambda>_. None)" and "d_inode (dents s d) = None"
    and "simple_add_entry E d \<lparr>arg_type = Creat excl, arg_mode = mode\<rparr> (int k) s = Some (0, s1)"
  shows "heap_ok V s1 \<and> grows V k s s1 \<and> d_inode (dents s1 d) = None \<and> (\<exists>rp b i pd1. find_replica_dentry E (d_parent (dents s d)) (int k) s1 = Some (Some rp) \<and>
    d_inode (dents s1 rp) = Some b \<and> d_fsdata (dents s1 (d_parent (dents s d))) = Some pd1 \<and> bit (normal_dir_map pd1) k \<and>
    entry V (parts s1) (i_ino b) (d_name (dents s d)) = Some i \<and> i_mode i AND S_IFMT = mode AND S_IFMT \<and>
    xattr V (parts s1) (i_ino i) META = None \<and>
    (\<exists>p. find_replica_dentry E d (int k) s1 = Some (Some p) \<and> d_inode (dents s1 p) = Some i))"
proof -
  let ?P = "d_parent (dents s d)" and ?arg = "\<lparr>arg_type = Creat excl, arg_mode = mode\<rparr>"
  have l: "lookup_law E V" "create_law E V" using assms(1) by (simp_all add: parts_ok_def)
  have d: "d < fresh s" using heap_okD(1) [OF assms(2,5)] .
  obtain r sc where c: "create_replica_dir E ?P (int k) CLONE_NORMAL s = Some (r, sc)"
    using assms(8) by (auto simp: simple_add_entry_def bind_eq_Some_conv)
  then obtain rp where r: "r = Inr rp" using assms(8) by (cases r) (auto simp: simple_add_entry_def dest: create_replica_err [OF l(1)])
  note m = create_replica_makes [OF assms(1-4) c [unfolded r]]
  have hc: "heap_ok V sc" and gc: "grows V k s sc" and fc: "find_replica_dentry E ?P (int k) sc = Some (Some rp)"
    and sc: "d_fsdata (dents sc d) = Some fd" "d_inode (dents sc d) = None" "d_name (dents sc d) = d_name (dents s d)"
    using m d assms(5,7) by (auto simp: still_def grows_def dentry_grows_def)
  obtain b where b: "d_inode (dents sc rp) = Some b" using m by auto
  note rp = find_replica_ok [OF hc fc]
  obtain x sd where g: "get_replica_dentry E (Some rp) d (int k) sc = Some (x, sd)"
    using assms(8) c r by (auto simp: simple_add_entry_def bind_eq_Some_conv)
  then obtain p where x: "x = Inr p" using assms(8) c r by (cases x) (auto simp: simple_add_entry_def dest: get_replica_err [OF l(1)])
  have "find_replica_dentry E d (int k) sc = Some None"
    using sc(1) assms(6) find_replica_SomeD [OF fc] by (simp add: find_replica_dentry_def)
  then have n: "heap_ok V sd" "grows V k sc sd" "parts sd = parts sc" "find_replica_dentry E d (int k) sd = Some (Some p)"
    "dents sd p = looked_up rp (d_sb (dents sc rp)) (d_name (dents s d)) (entry V (parts sc) (i_ino b) (d_name (dents s d)))"
    "d_inode (dents sd d) = None" "p \<noteq> d"
    using get_replica_new [OF l(1) hc rp g [unfolded x]] b sc heap_okD(1) [OF hc sc(1)] by auto
  have a: "add_to E b p ?arg sd = Some (0, s1)" using assms(8) c r g x b by (simp add: simple_add_entry_def)
  then obtain f where f: "op_create E b = Some f" "made p (f (d_name (dents s d)) mode excl (parts sd)) sd = (0, s1)"
    using n(5) by (auto simp: add_to_def looked_up_def split: option.splits)
  from madeD [OF f(2) l(2) [unfolded create_law_def, rule_format, OF f(1)]] obtain i g1 where
    i: "new_object V (i_ino b) (d_name (dents s d)) (parts sd) i g1" "i_mode i AND S_IFMT = mode AND S_IFMT"
    "s1 = d_instantiate p (Some i) (sd\<lparr>parts := g1\<rparr>)" by metis
  have home: "home V (i_ino b) = k" using rp(2) b by (simp add: rep_ok_def)
  have neg: "d_inode (dents sd p) = None" using n(3,5) i(1) by (simp add: looked_up_def new_object_def)
  note t = instantiate_step [OF n(1) find_replica_ok(2) [OF n(1,4)] neg home i(1,3)]
  have s1: "grows V k sc s1" by (rule grows_trans [OF n(2) t(2)])
  have rb: "find_replica_dentry E ?P (int k) s1 = Some (Some rp)" "d_inode (dents s1 rp) = Some b"
    by (rule grows_find [OF s1 hc fc], rule grows_inode_of [OF s1 rp(1) b])
  obtain pc where pc: "d_fsdata (dents sc ?P) = Some pc" "bit (normal_dir_map pc) k" using m by auto
  obtain pd1 where pg: "d_fsdata (dents s1 ?P) = Some pd1" "data_grows k pc pd1" by (rule grows_fsdataD [OF s1 hc pc(1)])
  then have pd1: "d_fsdata (dents s1 ?P) = Some pd1" "bit (normal_dir_map pd1) k" using pc(2) by (simp_all add: data_grows_def)
  have e: "entry V (parts s1) (i_ino b) (d_name (dents s d)) = Some i" "xattr V (parts s1) (i_ino i) META = None"
    using i(1,3) by (simp_all add: new_object_def d_instantiate_def)
  have "find_replica_dentry E d (int k) s1 = Some (Some p)" by (rule grows_find [OF t(2) n(1,4)])
  moreover have "d_inode (dents s1 d) = None" using n(6,7) by (simp add: i(3) d_instantiate_def)
  ultimately show ?thesis using t(1,3) grows_trans [OF gc s1] rb pd1 e i(2) by blast
qed

text \<open>What a successful creation leaves: the name on one partition, where the directory is now normal.\<close>

definition placed :: "'f sfs_env \<Rightarrow> 'f part_view \<Rightarrow> ptr \<Rightarrow> nat \<Rightarrow> umode \<Rightarrow> ptr \<Rightarrow> 'f sfs \<Rightarrow> bool" where
  "placed E V P k mode d s \<longleftrightarrow>
     (\<exists>rp b i pd fd. find_replica_dentry E P (int k) s = Some (Some rp) \<and> d_inode (dents s rp) = Some b \<and>
        d_fsdata (dents s P) = Some pd \<and> bit (normal_dir_map pd) k \<and> entry V (parts s) (i_ino b) (d_name (dents s d)) = Some i \<and>
        i_mode i AND S_IFMT = mode AND S_IFMT \<and> xattr V (parts s) (i_ino i) META = None \<and>
        d_fsdata (dents s d) = Some fd \<and> replica_id fd = int k \<and> inode_of s (replicas fd k) = Some i)"

text \<open>The steps of a creation: the choice of the partition, the inode of SFS, the entry on the partition.\<close>

lemma create_steps:
  assumes "d_fsdata (dents s (d_parent (dents s d))) = Some pd" and "normal_ok (replica_count E) pd" and "last_dispatch s \<le> DISPATCH_MAX"
    and "sfs_create E d mode excl s = Some (0, s1)"
  shows "\<exists>k < replica_count E. \<exists>c l i sb sc.
    dents sb = dents (upd_fsdata (d_parent (dents s d)) (\<lambda>_. pd\<lparr>local_counter := c\<rparr>) (s\<lparr>last_dispatch := l\<rparr>)) \<and> parts sb = parts s \<and>
    fresh sb = fresh s + 1 \<and> simple_add_entry E d \<lparr>arg_type = Creat excl, arg_mode = mode\<rparr> (int k) sb = Some (0, sc) \<and>
    s1 = d_instantiate d (Some i) (set_replica_id d (int k) sc)"
proof -
  let ?P = "d_parent (dents s d)" and ?arg = "\<lparr>arg_type = Creat excl, arg_mode = mode\<rparr>"
  from local_dispatch_ok [OF assms(2,3)] obtain k pd1 l where
    k: "local_dispatch (replica_count E) pd (last_dispatch s) = Some (int k, pd1, l)" "k < replica_count E" by blast
  obtain c where c: "pd1 = pd\<lparr>local_counter := c\<rparr>" using local_dispatch_data [OF k(1)] by blast
  let ?s = "upd_fsdata ?P (\<lambda>_. pd\<lparr>local_counter := c\<rparr>) (s\<lparr>last_dispatch := l\<rparr>)"
  have ld: "local_dispatch_on E ?P s = Some (int k, - 1, ?s)" using assms(1) k(1) c by (simp add: local_dispatch_on_def)
  obtain r sb where n: "sfs_new_inode E mode ?s = Some (r, sb)"
    using assms(4) ld by (auto simp: sfs_create_def sfs_add_entry_def bind_eq_Some_conv)
  have "r \<noteq> Inl 0" using n by (auto simp: sfs_new_inode_def bind_eq_Some_conv split: if_splits)
  then obtain i where r: "r = Inr i" using assms(4) ld n by (cases r) (auto simp: sfs_create_def sfs_add_entry_def)
  obtain e sc where a: "simple_add_entry E d ?arg (int k) sb = Some (e, sc)"
    using assms(4) ld n r by (auto simp: sfs_create_def sfs_add_entry_def bind_eq_Some_conv)
  have e: "e = 0" "s1 = d_instantiate d (Some i) (set_replica_id d (int k) sc)"
    using assms(4) ld n r a by (auto simp: sfs_create_def sfs_add_entry_def)
  have "dents sb = dents ?s" "parts sb = parts s" "fresh sb = fresh s + 1" using new_inodeD [OF n] by simp_all
  then show ?thesis using k(2) a [unfolded e(1)] e(2) by blast
qed

lemma create_places:
  assumes "parts_ok E V" and "new_name E V d pd s" and "sfs_create E d mode excl s = Some (0, s1)"
  shows "\<exists>k < replica_count E. heap_ok V s1 \<and> grows V k s s1 \<and> placed E V (d_parent (dents s d)) k mode d s1"
proof -
  let ?P = "d_parent (dents s d)" and ?arg = "\<lparr>arg_type = Creat excl, arg_mode = mode\<rparr>"
  obtain fd where h: "heap_ok V s" and P: "d_fsdata (dents s ?P) = Some pd" "d_inode (dents s ?P) \<noteq> None"
    and nk: "normal_ok (replica_count E) pd" and ld: "last_dispatch s \<le> DISPATCH_MAX" and di: "d_inode (dents s d) = None"
    and fd: "d_fsdata (dents s d) = Some fd" "replicas fd = (\<lambda>_. None)" using assms(2) unfolding new_name_def by blast
  obtain k c l i sb sc where k: "k < replica_count E"
    and ni: "dents sb = dents (upd_fsdata ?P (\<lambda>_. pd\<lparr>local_counter := c\<rparr>) (s\<lparr>last_dispatch := l\<rparr>))" "parts sb = parts s" "fresh sb = fresh s + 1"
    and a: "simple_add_entry E d ?arg (int k) sb = Some (0, sc)" and s1: "s1 = d_instantiate d (Some i) (set_replica_id d (int k) sc)"
    using create_steps [OF P(1) nk ld assms(3)] by blast
  note gd = grows_dispatch [OF h P(1), where c = c and l = l]
  have hb: "heap_ok V sb" by (rule heap_ok_same [OF gd(1) ni(1)]) (simp add: ni)
  have gb: "grows V k s sb" by (rule grows_trans [OF gd(2)]) (simp add: grows_def ni)
  have dP: "d \<noteq> ?P" using di P(2) by auto
  have k64: "k < 64" using k nk by (simp add: normal_ok_def)
  have db: "d_parent (dents sb d) = ?P" "d_inode (dents sb ?P) \<noteq> None" "d_fsdata (dents sb d) = Some fd" "d_inode (dents sb d) = None"
    "d_name (dents sb d) = d_name (dents s d)"
    using dP P(2) fd di by (simp_all add: ni)
  have db2: "d_inode (dents sb (d_parent (dents sb d))) \<noteq> None" using db(1,2) by simp
  note t = add_entry_creates [OF assms(1) hb k64 db2 db(3) fd(2) db(4) a, unfolded db(1,5)]
  have hc: "heap_ok V sc" "grows V k sb sc" using t by blast+
  obtain fc where fc: "d_fsdata (dents sc d) = Some fc"
    using grows_fsdataD [OF hc(2) hb db(3)] by blast
  let ?sr = "set_replica_id d (int k) sc"
  have hr: "heap_ok V ?sr" unfolding set_replica_id_def
    by (rule heap_ok_fsdata [OF hc(1)]) (use heap_okD(5) [OF hc(1)] in \<open>simp add: data_ok_def\<close>)
  have gr: "grows V k sc ?sr" unfolding set_replica_id_def by (rule grows_fsdata) (simp add: data_grows_def)
  have g1: "grows V k ?sr s1" and h1: "heap_ok V s1"
  proof -
    have "d_inode (dents ?sr d) = None" using t by (simp add: set_replica_id_def)
    then show "grows V k ?sr s1" by (rule grows_inode [rotated]) (simp_all add: s1 d_instantiate_def upd_dentry_def)
    show "heap_ok V s1" unfolding s1 by (rule heap_ok_sfs_inode [OF hr]) (simp add: set_replica_id_def fc)
  qed
  have gs: "grows V k sc s1" by (rule grows_trans [OF gr g1])
  obtain rp b j pdc p where q: "find_replica_dentry E ?P (int k) sc = Some (Some rp)" "d_inode (dents sc rp) = Some b"
    "d_fsdata (dents sc ?P) = Some pdc" "bit (normal_dir_map pdc) k" "entry V (parts sc) (i_ino b) (d_name (dents s d)) = Some j"
    "i_mode j AND S_IFMT = mode AND S_IFMT" "xattr V (parts sc) (i_ino j) META = None"
    "find_replica_dentry E d (int k) sc = Some (Some p)" "d_inode (dents sc p) = Some j" using t by blast
  have rp1: "find_replica_dentry E ?P (int k) s1 = Some (Some rp)" "d_inode (dents s1 rp) = Some b"
    by (rule grows_find [OF gs hc(1) q(1)], rule grows_inode_of [OF gs find_replica_ok(1) [OF hc(1) q(1)] q(2)])
  have "d_name (dents s1 d) = d_name (dents s d)"
    using grows_trans [OF gb grows_trans [OF hc(2) gs]] heap_okD(1) [OF h fd(1)] by (simp add: grows_def dentry_grows_def)
  moreover have "find_replica_dentry E d (int k) s1 = Some (Some p)" "d_inode (dents s1 p) = Some j"
    by (rule grows_find [OF gs hc(1) q(8)], rule grows_inode_of [OF gs find_replica_ok(1) [OF hc(1) q(8)] q(9)])
  moreover have "d_fsdata (dents s1 ?P) = Some pdc" "parts s1 = parts sc" "d_fsdata (dents s1 d) = Some (fc\<lparr>replica_id := int k\<rparr>)"
    using q(3) dP fc by (simp_all add: s1 set_replica_id_def d_instantiate_def)
  ultimately have "placed E V ?P k mode d s1"
    using rp1 q(4-7) k unfolding placed_def by (simp add: find_replica_dentry_def inode_of_def)
  then show ?thesis using k h1 grows_trans [OF gb grows_trans [OF hc(2) gs]] by blast
qed

section \<open>Looking a name up\<close>

text \<open>Memory is available and no look-up fails.\<close>

definition calm :: "'f sfs_env \<Rightarrow> bool" where
  "calm E \<longleftrightarrow> (\<forall>n. alloc_ok E n) \<and> (\<forall>dir name fl f e. op_lookup E dir name fl f \<noteq> LookupErr e)"

text \<open>The state of the search for a name \<open>d\<close> in a directory \<open>P\<close>: every normal replica of the directory is there, with the inode
  \<open>base j\<close>, and the dentry that is used again is not one of the dentries below \<open>F\<close>.\<close>

definition scan_ok ::
  "'f sfs_env \<Rightarrow> ptr \<Rightarrow> ptr \<Rightarrow> sfs_dentry \<Rightarrow> (nat \<Rightarrow> inode) \<Rightarrow> nat \<Rightarrow> ptr option \<Rightarrow> 'f sfs \<Rightarrow> bool" where
  "scan_ok E P d pd base F new s \<longleftrightarrow>
     d_fsdata (dents s P) = Some pd \<and> d_fsdata (dents s d) = Some (new_sfs_dentry (slab_junk E)) \<and> d < F \<and> P < F \<and> F \<le> fresh s \<and>
     (\<forall>j. bit (normal_dir_map pd) j \<longrightarrow>
        j < replica_count E \<and> (\<exists>rp < F. replicas pd j = Some rp \<and> d_inode (dents s rp) = Some (base j))) \<and>
     (\<forall>n. new = Some n \<longrightarrow> F \<le> n \<and> d_parent (dents s n) < F \<and> d_name (dents s n) = d_name (dents s d) \<and>
        d_count (dents s n) = 1 \<and> d_hashed (dents s n))"

lemma part_lookup_calm:
  assumes "lookup_law E V" and "calm E"
  shows "part_lookup E base p fl s = Some (Inr p, d_add p (entry V (parts s) (i_ino base) (d_name (dents s p))) s)"
proof -
  have "op_lookup E base (d_name (dents s p)) fl (parts s) = LookupNew (entry V (parts s) (i_ino base) (d_name (dents s p)))"
    using assms unfolding lookup_law_def calm_def by metis
  then show ?thesis by (simp add: part_lookup_def)
qed

definition kept :: "nat \<Rightarrow> 'f sfs \<Rightarrow> 'f sfs \<Rightarrow> bool" where
  "kept F s s1 \<longleftrightarrow> (\<forall>q < F. d_fsdata (dents s1 q) = d_fsdata (dents s q) \<and> d_inode (dents s1 q) = d_inode (dents s q) \<and>
     d_name (dents s1 q) = d_name (dents s q))"

lemma probe_dentry_ok:
  assumes "scan_ok E P d pd base F new s" and "calm E" and "rp < F"
  obtains p s1 where "probe_dentry E rp (d_name (dents s d)) new s = Some (p, s1)" "F \<le> p" "F \<le> fresh s1" "parts s1 = parts s"
    "d_parent (dents s1 p) = rp" "d_name (dents s1 p) = d_name (dents s d)" "d_count (dents s1 p) = 1"
    "kept F s s1"
proof (cases new)
  case None
  let ?p = "fresh s" and ?s = "snd (d_alloc E rp (d_name (dents s d)) s)"
  have a: "d_alloc E rp (d_name (dents s d)) s = (Some ?p, ?s)" using assms(2) by (simp add: d_alloc_def kalloc_def calm_def)
  have "F \<le> fresh s" using assms(1) by (simp add: scan_ok_def)
  then show thesis
    by (intro that [of ?p ?s]) (use a None assms(2,3) in \<open>auto simp: probe_dentry_def d_alloc_def kalloc_def calm_def kept_def\<close>)
next
  case (Some n)
  let ?s = "instantiate_replica_dentry n rp (clean_replica_dentry n s)"
  have n: "F \<le> n" "d_parent (dents s n) < F" "d_name (dents s n) = d_name (dents s d)" "d_count (dents s n) = 1" "F \<le> fresh s"
    using assms(1) Some by (simp_all add: scan_ok_def)
  show thesis
    by (rule that [of n ?s])
      (use n assms(3) Some in \<open>auto simp: probe_dentry_def instantiate_replica_dentry_def clean_replica_dentry_def d_drop_def kept_def\<close>)
qed

lemma lookup_probe_normal:
  assumes "lookup_law E V" and "calm E" and "scan_ok E P d pd base F new s" and "bit (normal_dir_map pd) j"
  shows "\<exists>p s1. lookup_probe E P d fl False j new s =
      Some (case entry V (parts s) (i_ino (base j)) (d_name (dents s d)) of None \<Rightarrow> Miss p | Some i \<Rightarrow> Hit p i, s1) \<and>
    scan_ok E P d pd base F (Some p) s1 \<and> parts s1 = parts s \<and> d_name (dents s1 d) = d_name (dents s d) \<and>
    d_inode (dents s1 p) = entry V (parts s) (i_ino (base j)) (d_name (dents s d))"
proof -
  have sc: "d_fsdata (dents s P) = Some pd" "d_fsdata (dents s d) = Some (new_sfs_dentry (slab_junk E))" "d < F" "P < F"
    and nm: "\<And>j. bit (normal_dir_map pd) j \<Longrightarrow> j < replica_count E \<and> (\<exists>rp < F. replicas pd j = Some rp \<and> d_inode (dents s rp) = Some (base j))"
    using assms(3) unfolding scan_ok_def by blast+
  obtain rp where rp: "j < replica_count E" "rp < F" "replicas pd j = Some rp" "d_inode (dents s rp) = Some (base j)" using nm [OF assms(4)] by blast
  obtain p s0 where p: "probe_dentry E rp (d_name (dents s d)) new s = Some (p, s0)" "F \<le> p" "F \<le> fresh s0" "parts s0 = parts s"
    "d_parent (dents s0 p) = rp" "d_name (dents s0 p) = d_name (dents s d)" "d_count (dents s0 p) = 1"
    "kept F s s0"
    by (rule probe_dentry_ok [OF assms(3,2) rp(2)])
  let ?i = "entry V (parts s) (i_ino (base j)) (d_name (dents s d))"
  let ?s = "d_add p ?i s0"
  have l: "part_lookup E (base j) p fl s0 = Some (Inr p, ?s)" using part_lookup_calm [OF assms(1,2), of "base j" p fl s0] p(4,6) by simp
  have lp: "lookup_probe E P d fl False j new s = Some (case ?i of None \<Rightarrow> Miss p | Some i \<Rightarrow> Hit p i, ?s)"
    using sc(1,2) rp assms(4) p(1) l
    by (simp add: lookup_probe_def test_bitmap_bit find_replica_dentry_def inode_of_def new_sfs_dentry_def d_add_def split: option.split)
  have k: "kept F s ?s" using p(2,8) by (simp add: kept_def d_add_def)
  have "scan_ok E P d pd base F (Some p) ?s"
    unfolding scan_ok_def
  proof (intro conjI allI impI)
    fix j assume "bit (normal_dir_map pd) j"
    from nm [OF this] k show "j < replica_count E" "\<exists>rp < F. replicas pd j = Some rp \<and> d_inode (dents ?s rp) = Some (base j)"
      unfolding kept_def by auto
  qed (use sc k p(2-7) rp(2) in \<open>auto simp: kept_def d_add_def\<close>)
  then show ?thesis using lp p(4) k sc(3) by (intro exI [of _ p] exI [of _ ?s]) (simp add: d_add_def kept_def)
qed

lemma lookup_probe_shadow:
  "scan_ok E P d pd base F new s \<Longrightarrow> \<not> bit (normal_dir_map pd) j \<Longrightarrow> lookup_probe E P d fl False j new s = Some (Skip, s)"
  by (simp add: scan_ok_def lookup_probe_def) (simp add: test_bitmap_bit [symmetric])

lemma lookup_loop_finds:
  assumes "lookup_law E V" and "calm E" and "scan_ok E P d pd base F new s" and "bit (normal_dir_map pd) k"
    and "entry V (parts s) (i_ino (base k)) (d_name (dents s d)) = Some i" and "\<not> S_ISDIR (i_mode i)" and "loop \<le> k"
    and "\<And>j. loop \<le> j \<Longrightarrow> j < k \<Longrightarrow> bit (normal_dir_map pd) j \<Longrightarrow> entry V (parts s) (i_ino (base j)) (d_name (dents s d)) = None"
  shows "\<exists>p s1. lookup_loop E P d fl False loop new None s = found_file E d k (i_mode i) (d_add_replica d p k s1) \<and>
    scan_ok E P d pd base F (Some p) s1 \<and> parts s1 = parts s \<and> d_inode (dents s1 p) = Some i"
  using assms(3,5,7,8)
proof (induction "k - loop" arbitrary: loop new s)
  case 0
  then have l: "loop = k" by simp
  obtain p s1 where p: "lookup_probe E P d fl False k new s = Some (Hit p i, s1)" "scan_ok E P d pd base F (Some p) s1" "parts s1 = parts s"
    "d_inode (dents s1 p) = Some i"
    using lookup_probe_normal [OF assms(1,2) 0(2) assms(4), of fl] 0(3) by auto
  have "k < replica_count E" using 0(2) assms(4) by (simp add: scan_ok_def)
  then show ?case using p l assms(6) by (subst lookup_loop.simps) auto
next
  case (Suc m)
  have lt: "loop < k" "k < replica_count E" "m = k - (loop + 1)" "loop + 1 \<le> k" using Suc(2,3) assms(4) by (auto simp: scan_ok_def)
  show ?case
  proof (cases "bit (normal_dir_map pd) loop")
    case True
    then have n: "entry V (parts s) (i_ino (base loop)) (d_name (dents s d)) = None" using Suc(6) lt(1) by blast
    obtain p s1 where p: "lookup_probe E P d fl False loop new s = Some (Miss p, s1)" "scan_ok E P d pd base F (Some p) s1"
      "parts s1 = parts s" "d_name (dents s1 d) = d_name (dents s d)"
      using lookup_probe_normal [OF assms(1,2) Suc(3) True, of fl] n by auto
    from Suc(1) [OF lt(3) p(2) _ lt(4)] Suc(4,6) p(3,4) show ?thesis
      using p(1) lt by (subst lookup_loop.simps) auto
  next
    case False
    from Suc(1) [OF lt(3) Suc(3,4) lt(4)] Suc(6) show ?thesis
      using lookup_probe_shadow [OF Suc(3) False, of fl] lt by (subst lookup_loop.simps) auto
  qed
qed

lemma lookup_loop_absent:
  assumes "lookup_law E V" and "calm E" and "scan_ok E P d pd base F new s"
    and "\<And>j. bit (normal_dir_map pd) j \<Longrightarrow> entry V (parts s) (i_ino (base j)) (d_name (dents s d)) = None"
  shows "\<exists>new1 s1. lookup_loop E P d fl False loop new None s = Some (Inr (new1, None), s1) \<and>
    scan_ok E P d pd base F new1 s1 \<and> parts s1 = parts s"
  using assms(3,4)
proof (induction "replica_count E - loop" arbitrary: loop new s)
  case 0
  then show ?case by (subst lookup_loop.simps) auto
next
  case (Suc m)
  have lt: "m = replica_count E - (loop + 1)" "\<not> replica_count E \<le> loop" using Suc(2) by auto
  show ?case
  proof (cases "bit (normal_dir_map pd) loop")
    case True
    obtain p s1 where p: "lookup_probe E P d fl False loop new s = Some (Miss p, s1)" "scan_ok E P d pd base F (Some p) s1"
      "parts s1 = parts s" "d_name (dents s1 d) = d_name (dents s d)"
      using lookup_probe_normal [OF assms(1,2) Suc(3) True, of fl] Suc(4) [OF True] by auto
    from Suc(1) [OF lt(1) p(2)] Suc(4) p(3,4) show ?thesis using p(1) lt by (subst lookup_loop.simps) auto
  next
    case False
    from Suc(1) [OF lt(1) Suc(3)] Suc(4) show ?thesis
      using lookup_probe_shadow [OF Suc(3) False, of fl] lt by (subst lookup_loop.simps) auto
  qed
qed

lemma get_links_none:
  assumes "xattr_law E V" and "d_inode (dents s p) = Some i" and "xattr V (parts s) (i_ino i) META = None"
  shows "\<exists>r < 0. get_links E p v s = Some (r, v)"
proof -
  have "fst (vfs_getxattr (op_xattr E) i META 20 (parts s)) < 0"
    using assms(1,3) unfolding xattr_law_def by (metis (no_types, lifting) option.simps(4))
  then show ?thesis using assms(2) by (auto simp: get_links_def get_def read_links_def Let_def)
qed

lemma found_plain:
  assumes "xattr_law E V" and "scan_ok E P d pd base F (Some p) s" and "k < replica_count E" and "d_inode (dents s p) = Some i"
    and "xattr V (parts s) (i_ino i) META = None"
  shows "found_file E d k mode (d_add_replica d p k s) = Some (Inr (None, Some mode), set_replica_id d (int k) (d_add_replica d p k s))"
proof -
  let ?s = "d_add_replica d p k s"
  have d: "d_fsdata (dents s d) = Some (new_sfs_dentry (slab_junk E))" "p \<noteq> d" using assms(2) by (auto simp: scan_ok_def)
  have f: "d_fsdata (dents ?s d) = Some ((new_sfs_dentry (slab_junk E))\<lparr>replicas := (\<lambda>_. None)(k := Some p)\<rparr>)"
    using d(1) by (simp add: d_add_replica_def new_sfs_dentry_def)
  obtain r where r: "r < 0" "get_links E p no_pointer ?s = Some (r, no_pointer)"
    using get_links_none [OF assms(1), of ?s p i no_pointer] assms(4,5) d(2) by (auto simp: d_add_replica_def)
  then have "validate_partitioned_file E d (int k) ?s = Some (0, set_replica_id d (int k) ?s)"
    using f assms(3) by (simp add: validate_partitioned_file_def find_replica_dentry_def Let_def)
  then show ?thesis using f by (simp add: found_file_def set_replica_id_def)
qed

text \<open>A dentry that the name cache made for a look-up.\<close>

definition fresh_name :: "'f sfs_env \<Rightarrow> ptr \<Rightarrow> sfs_dentry \<Rightarrow> (nat \<Rightarrow> inode) \<Rightarrow> 'f sfs \<Rightarrow> bool" where
  "fresh_name E d pd base s \<longleftrightarrow>
     d_fsdata (dents s (d_parent (dents s d))) = Some pd \<and> d \<noteq> d_parent (dents s d) \<and> d < fresh s \<and> d_parent (dents s d) < fresh s \<and>
     (\<forall>j. bit (normal_dir_map pd) j \<longrightarrow>
        j < replica_count E \<and> (\<exists>rp < fresh s. replicas pd j = Some rp \<and> d_inode (dents s rp) = Some (base j)))"

lemma lookup_starts:
  assumes "calm E" and "fresh_name E d pd base s"
  shows "\<exists>s1. sfs_dentry_alloc E d s = (0, s1) \<and> scan_ok E (d_parent (dents s d)) d pd base (fresh s) None s1 \<and> parts s1 = parts s \<and>
    d_name (dents s1 d) = d_name (dents s d)"
proof -
  let ?s = "upd_dentry d (\<lambda>x. x\<lparr>d_fsdata := Some (new_sfs_dentry (slab_junk E))\<rparr>) (s\<lparr>fresh := Suc (Suc (fresh s))\<rparr>)"
  have a: "sfs_dentry_alloc E d s = (0, ?s)" using assms(1) by (simp add: sfs_dentry_alloc_def kalloc_def calm_def)
  have b: "d_fsdata (dents s (d_parent (dents s d))) = Some pd" "d \<noteq> d_parent (dents s d)" "d < fresh s" "d_parent (dents s d) < fresh s"
    and n: "\<And>j. bit (normal_dir_map pd) j \<Longrightarrow>
      j < replica_count E \<and> (\<exists>rp < fresh s. replicas pd j = Some rp \<and> d_inode (dents s rp) = Some (base j))"
    using assms(2) unfolding fresh_name_def by blast+
  have "scan_ok E (d_parent (dents s d)) d pd base (fresh s) None ?s"
    unfolding scan_ok_def
  proof (intro conjI allI impI)
    fix j assume "bit (normal_dir_map pd) j"
    from n [OF this] show "j < replica_count E" "\<exists>rp < fresh s. replicas pd j = Some rp \<and> d_inode (dents ?s rp) = Some (base j)" by auto
  qed (use b in simp_all)
  then show ?thesis using a by simp
qed

lemma lookup_file:
  assumes "parts_ok E V" and "calm E" and "fresh_name E d pd base s" and "bit (normal_dir_map pd) k"
    and "entry V (parts s) (i_ino (base k)) (d_name (dents s d)) = Some i" and "i_mode i AND S_IFMT = S_IFREG"
    and "xattr V (parts s) (i_ino i) META = None"
    and "\<And>j. j < k \<Longrightarrow> bit (normal_dir_map pd) j \<Longrightarrow> entry V (parts s) (i_ino (base j)) (d_name (dents s d)) = None"
  shows "\<exists>s1 fd si. sfs_lookup E d fl s = Some (0, s1) \<and> d_fsdata (dents s1 d) = Some fd \<and> replica_id fd = int k \<and> meta_id fd = - 1 \<and>
    inode_of s1 (replicas fd k) = Some i \<and> d_inode (dents s1 d) = Some si \<and> i_mode si = i_mode i"
proof -
  have l: "lookup_law E V" "xattr_law E V" using assms(1) by (simp_all add: parts_ok_def)
  obtain s0 where a: "sfs_dentry_alloc E d s = (0, s0)" "scan_ok E (d_parent (dents s d)) d pd base (fresh s) None s0" "parts s0 = parts s"
    "d_name (dents s0 d) = d_name (dents s d)" using lookup_starts [OF assms(2,3)] by blast
  have nd: "\<not> S_ISDIR (i_mode i)" using assms(6) by (simp add: S_ISDIR_def S_IFREG_def S_IFDIR_def)
  have e: "entry V (parts s0) (i_ino (base k)) (d_name (dents s0 d)) = Some i" using assms(5) a(3,4) by simp
  have "\<exists>p s1. lookup_loop E (d_parent (dents s d)) d fl False 0 None None s0 = found_file E d k (i_mode i) (d_add_replica d p k s1) \<and>
    scan_ok E (d_parent (dents s d)) d pd base (fresh s) (Some p) s1 \<and> parts s1 = parts s0 \<and> d_inode (dents s1 p) = Some i"
    by (rule lookup_loop_finds [OF l(1) assms(2) a(2) assms(4) e nd]) (use assms(8) a(3,4) in simp_all)
  then obtain p s1 where p: "lookup_loop E (d_parent (dents s d)) d fl False 0 None None s0 = found_file E d k (i_mode i) (d_add_replica d p k s1)"
    "scan_ok E (d_parent (dents s d)) d pd base (fresh s) (Some p) s1" "parts s1 = parts s0" "d_inode (dents s1 p) = Some i" by blast
  let ?s = "set_replica_id d (int k) (d_add_replica d p k s1)"
  have k: "k < replica_count E" using assms(3,4) by (simp add: fresh_name_def)
  have f: "found_file E d k (i_mode i) (d_add_replica d p k s1) = Some (Inr (None, Some (i_mode i)), ?s)"
    by (rule found_plain [OF l(2) p(2) k p(4)]) (use assms(7) p(3) a(3) in simp)
  have ni: "sfs_new_inode E (i_mode i) ?s = Some (Inr \<lparr>i_ino = fresh ?s, i_mode = i_mode i\<rparr>, ?s\<lparr>fresh := Suc (fresh ?s), nlinks := (nlinks ?s)(fresh ?s := 1)\<rparr>)"
    using assms(2,6) by (simp add: sfs_new_inode_def sfs_alloc_inode_def kalloc_def calm_def)
  have d: "d_fsdata (dents s1 d) = Some (new_sfs_dentry (slab_junk E))" "p \<noteq> d" using p(2) by (auto simp: scan_ok_def)
  show ?thesis
    using a(1) p(1,4) f ni d by (simp add: sfs_lookup_def put_opt_def d_add_def set_replica_id_def d_add_replica_def new_sfs_dentry_def inode_of_def)
qed

lemma lookup_nothing:
  assumes "parts_ok E V" and "calm E" and "fresh_name E d pd base s"
    and "\<And>j. bit (normal_dir_map pd) j \<Longrightarrow> entry V (parts s) (i_ino (base j)) (d_name (dents s d)) = None"
  shows "\<exists>s1. sfs_lookup E d fl s = Some (0, s1) \<and> d_inode (dents s1 d) = None"
proof -
  have l: "lookup_law E V" using assms(1) by (simp add: parts_ok_def)
  obtain s0 where a: "sfs_dentry_alloc E d s = (0, s0)" "scan_ok E (d_parent (dents s d)) d pd base (fresh s) None s0" "parts s0 = parts s"
    "d_name (dents s0 d) = d_name (dents s d)" using lookup_starts [OF assms(2,3)] by blast
  have "\<exists>new1 s1. lookup_loop E (d_parent (dents s d)) d fl False 0 None None s0 = Some (Inr (new1, None), s1) \<and>
    scan_ok E (d_parent (dents s d)) d pd base (fresh s) new1 s1 \<and> parts s1 = parts s0"
    by (rule lookup_loop_absent [OF l assms(2) a(2)]) (use assms(4) a(3,4) in simp)
  then obtain new1 s1 where p: "lookup_loop E (d_parent (dents s d)) d fl False 0 None None s0 = Some (Inr (new1, None), s1)"
    "scan_ok E (d_parent (dents s d)) d pd base (fresh s) new1 s1" by blast
  have "\<exists>s2. put_opt new1 s1 = Some s2"
    using p(2) by (cases new1) (auto simp: put_opt_def scan_ok_def dput.simps)
  then show ?thesis using a(1) p(1) by (auto simp: sfs_lookup_def d_add_def)
qed

lemma fresh_name_alloc:
  assumes "d_alloc E P n s = (Some d, s1)" and "P < fresh s" and "d_fsdata (dents s P) = Some pd"
    and "\<And>j. bit (normal_dir_map pd) j \<Longrightarrow>
      j < replica_count E \<and> (\<exists>rp < fresh s. replicas pd j = Some rp \<and> d_inode (dents s rp) = Some (base j))"
  shows "fresh_name E d pd base s1" "parts s1 = parts s" "d_name (dents s1 d) = n"
proof -
  have d: "d = fresh s" "fresh s1 = fresh s + 1" "parts s1 = parts s" "d_parent (dents s1 d) = P" "d_name (dents s1 d) = n"
    "\<And>q. q < fresh s \<Longrightarrow> d_fsdata (dents s1 q) = d_fsdata (dents s q) \<and> d_inode (dents s1 q) = d_inode (dents s q)"
    using assms(1,2) by (auto simp: d_alloc_def kalloc_def split: if_splits)
  show "parts s1 = parts s" "d_name (dents s1 d) = n" by (rule d(3), rule d(5))
  show "fresh_name E d pd base s1"
    unfolding fresh_name_def d(4)
  proof (intro conjI allI impI)
    fix j assume j: "bit (normal_dir_map pd) j"
    from assms(4) [OF this] show "j < replica_count E" "\<exists>rp < fresh s1. replicas pd j = Some rp \<and> d_inode (dents s1 rp) = Some (base j)"
      using d(2,6) by (auto intro: less_SucI)
  qed (use assms(2,3) d in auto)
qed

text \<open>The name is on no partition where the directory is normal.\<close>

definition absent :: "'f part_view \<Rightarrow> ptr \<Rightarrow> sfs_dentry \<Rightarrow> 'f sfs \<Rightarrow> bool" where
  "absent V d pd s \<longleftrightarrow>
     (\<forall>j. bit (normal_dir_map pd) j \<longrightarrow>
        (\<exists>rp b. replicas pd j = Some rp \<and> d_inode (dents s rp) = Some b \<and> entry V (parts s) (i_ino b) (d_name (dents s d)) = None))"

text \<open>The other normal partitions do not get the name.\<close>

lemma absent_elsewhere:
  assumes "heap_ok V s" and "heap_ok V s1" and "grows V k s s1" and "d_fsdata (dents s P) = Some pd" and "d_fsdata (dents s1 P) = Some pd1"
    and "absent V d pd s" and "normal_ok rc pd" and "bit (normal_dir_map pd1) j" and "j \<noteq> k"
  shows "\<exists>rp < fresh s1. \<exists>b. replicas pd1 j = Some rp \<and> d_inode (dents s1 rp) = Some b \<and> j < rc \<and>
    entry V (parts s1) (i_ino b) (d_name (dents s d)) = None"
proof -
  have pd: "data_grows k pd pd1" using grows_fsdataD [OF assms(3,1,4)] assms(5) by (metis option.inject)
  then have b: "bit (normal_dir_map pd) j" using assms(8,9) by (auto simp: data_grows_def)
  then obtain q bj where q: "replicas pd j = Some q" "d_inode (dents s q) = Some bj" "entry V (parts s) (i_ino bj) (d_name (dents s d)) = None"
    using assms(6) unfolding absent_def by blast
  have q1: "replicas pd1 j = Some q" using pd q(1) by (simp add: data_grows_def)
  have i1: "d_inode (dents s1 q) = Some bj" by (rule grows_inode_of [OF assms(3) heap_okD(3) [OF assms(1,4) q(1)] q(2)])
  have "home V (i_ino bj) = j" using heap_okD(4) [OF assms(1,4) q(1)] q(2) by (simp add: rep_ok_def)
  then have "entry V (parts s1) (i_ino bj) = entry V (parts s) (i_ino bj)" using assms(3,9) by (auto simp: grows_def)
  then show ?thesis using q(3) q1 i1 heap_okD(3) [OF assms(2,5) q1] normal_okD(3) [OF assms(7) b] by auto
qed

text \<open>C33. What was created is found: after a successful creation of a file, a look-up of the name through a new dentry succeeds,
  and it finds the file on the same partition, with the same inode of the partition and the type of a regular file.\<close>

theorem create_lookup:
  assumes "parts_ok E V" and "calm E" and "new_name E V d pd s" and "absent V d pd s" and "mode AND S_IFMT = S_IFREG"
    and "sfs_create E d mode excl s = Some (0, s1)"
    and "d_alloc E (d_parent (dents s d)) (d_name (dents s d)) s1 = (Some d2, s2)"
  shows "\<exists>s3 fd fd2 i si. sfs_lookup E d2 flags s2 = Some (0, s3) \<and> d_fsdata (dents s1 d) = Some fd \<and> d_fsdata (dents s3 d2) = Some fd2 \<and>
    replica_id fd2 = replica_id fd \<and> meta_id fd2 = - 1 \<and> inode_of s1 (replicas fd (nat (replica_id fd))) = Some i \<and>
    inode_of s3 (replicas fd2 (nat (replica_id fd2))) = Some i \<and> d_inode (dents s3 d2) = Some si \<and> i_mode si = i_mode i \<and>
    i_mode i AND S_IFMT = S_IFREG"
proof -
  let ?P = "d_parent (dents s d)" and ?n = "d_name (dents s d)"
  obtain k where k: "k < replica_count E" "heap_ok V s1" "grows V k s s1" "placed E V ?P k mode d s1"
    using create_places [OF assms(1,3,6)] by blast
  obtain rp b i pd1 fd where c: "find_replica_dentry E ?P (int k) s1 = Some (Some rp)" "d_inode (dents s1 rp) = Some b"
    "d_fsdata (dents s1 ?P) = Some pd1" "bit (normal_dir_map pd1) k" "entry V (parts s1) (i_ino b) (d_name (dents s1 d)) = Some i"
    "i_mode i AND S_IFMT = mode AND S_IFMT" "xattr V (parts s1) (i_ino i) META = None" "d_fsdata (dents s1 d) = Some fd"
    "replica_id fd = int k" "inode_of s1 (replicas fd k) = Some i" using k(4) unfolding placed_def by blast
  have h: "heap_ok V s" "d_fsdata (dents s ?P) = Some pd" "normal_ok (replica_count E) pd" "d_fsdata (dents s d) \<noteq> None"
    using assms(3) unfolding new_name_def by auto
  then have "d < fresh s" using heap_okD(1) [OF h(1)] by blast
  then have nm: "d_name (dents s1 d) = ?n" using k(3) by (simp add: grows_def dentry_grows_def)
  have rk: "replicas pd1 k = Some rp" using find_replica_SomeD [OF c(1)] c(3) by auto
  define base where "base = (\<lambda>j. the (d_inode (dents s1 (the (replicas pd1 j)))))"
  have other: "\<exists>rp < fresh s1. replicas pd1 j = Some rp \<and> d_inode (dents s1 rp) = Some (base j) \<and> j < replica_count E \<and>
      entry V (parts s1) (i_ino (base j)) ?n = None" if j: "bit (normal_dir_map pd1) j" "j \<noteq> k" for j
    using absent_elsewhere [OF h(1) k(2,3) h(2) c(3) assms(4) h(3) j] by (auto simp: base_def)
  have bk: "base k = b" using rk c(2) by (simp add: base_def)
  have P1: "?P < fresh s1" "rp < fresh s1" using heap_okD(1,3) [OF k(2) c(3)] rk by blast+
  note al = fresh_name_alloc [OF assms(7) P1(1) c(3), of base]
  have nb: "j < replica_count E \<and> (\<exists>rp < fresh s1. replicas pd1 j = Some rp \<and> d_inode (dents s1 rp) = Some (base j))"
    if "bit (normal_dir_map pd1) j" for j
    using other [OF that] k(1) rk c(2) bk P1(2) by (cases "j = k") auto
  have "\<exists>s3 fd2 si. sfs_lookup E d2 flags s2 = Some (0, s3) \<and> d_fsdata (dents s3 d2) = Some fd2 \<and> replica_id fd2 = int k \<and>
    meta_id fd2 = - 1 \<and> inode_of s3 (replicas fd2 k) = Some i \<and> d_inode (dents s3 d2) = Some si \<and> i_mode si = i_mode i"
    by (rule lookup_file [OF assms(1,2) al(1) [OF nb] c(4)]) (use c(5-7) nm bk al(2,3) [OF nb] assms(5) other in auto)
  then show ?thesis using c(6,8-10) assms(5) by auto
qed

section \<open>Removing a file\<close>

text \<open>A plain file: a single replica, without links, in the replica of its directory.\<close>

definition file_at :: "'f sfs_env \<Rightarrow> 'f part_view \<Rightarrow> ptr \<Rightarrow> nat \<Rightarrow> ptr \<Rightarrow> 'f sfs \<Rightarrow> bool" where
  "file_at E V d k p s \<longleftrightarrow> k < replica_count E \<and> p \<noteq> d \<and>
     (\<exists>fd. d_fsdata (dents s d) = Some fd \<and> replicas fd = (\<lambda>_. None)(k := Some p) \<and> unused_replica_dentry fd = None \<and>
        replica_id fd = int k \<and> meta_id fd = - 1) \<and>
     (\<exists>i. d_inode (dents s p) = Some i \<and> xattr V (parts s) (i_ino i) META = None) \<and> d_hashed (dents s p) \<and> 0 < d_count (dents s p) \<and>
     d_name (dents s p) = d_name (dents s d)"

lemma filter_single: "filter (\<lambda>x. x = k) [0..<n] = (if k < n then [k] else [])"
  by (induction n) auto

lemma replica_list_single: "replicas fd = (\<lambda>_. None)(k := Some p) \<Longrightarrow> k < replica_count E \<Longrightarrow> replica_list E fd = [p]"
proof -
  assume r: "replicas fd = (\<lambda>_. None)(k := Some p)" "k < replica_count E"
  have "filter (\<lambda>x. replicas fd x \<noteq> None) [0..<replica_count E] = [k]" using filter_single [of k "replica_count E"] r by simp
  then show ?thesis using r by (simp add: replica_list_def List.map_filter_def comp_def)
qed

lemma validate_plain:
  assumes "xattr_law E V" and "file_at E V d k p s"
  shows "validate_file E d s = Some (0, set_replica_id d (int k) s)"
proof -
  obtain fd i where f: "d_fsdata (dents s d) = Some fd" "replicas fd = (\<lambda>_. None)(k := Some p)" "replica_id fd = int k" "meta_id fd = - 1"
    "d_inode (dents s p) = Some i" "xattr V (parts s) (i_ino i) META = None" "k < replica_count E"
    using assms(2) unfolding file_at_def by blast
  obtain r where "r < 0" "get_links E p no_pointer s = Some (r, no_pointer)" using get_links_none [OF assms(1) f(5,6)] by blast
  then show ?thesis using f by (simp add: validate_file_def validate_partitioned_file_def find_replica_dentry_def Let_def)
qed

lemma unlink_removes:
  assumes "xattr_law E V" and "unlink_law E V" and "file_at E V d k p s" and "sfs_unlink E d s = Some (0, s1)"
  obtains b where "d_inode (dents s (d_parent (dents s p))) = Some b" "fresh s1 = fresh s"
    "\<forall>q. q \<noteq> p \<and> q \<noteq> d \<longrightarrow> dents s1 q = dents s q" "d_fsdata (dents s1 p) = d_fsdata (dents s p)"
    "d_name (dents s1 d) = d_name (dents s d)"
    "entry V (parts s1) = (entry V (parts s))(i_ino b := (entry V (parts s) (i_ino b))(d_name (dents s d) := None))"
proof -
  let ?a = "set_replica_id d (int k) s"
  obtain fd i where f: "d_fsdata (dents s d) = Some fd" "replicas fd = (\<lambda>_. None)(k := Some p)" "replica_id fd = int k" "meta_id fd = - 1"
    "unused_replica_dentry fd = None" "d_inode (dents s p) = Some i" "k < replica_count E" "p \<noteq> d" "d_hashed (dents s p)" "0 < d_count (dents s p)"
    "d_name (dents s p) = d_name (dents s d)" using assms(3) unfolding file_at_def by blast
  have fa: "d_fsdata (dents ?a d) = Some (fd\<lparr>replica_id := int k\<rparr>)" "dents ?a p = dents s p" "list_first_replica_dentry E d ?a = Some (Some p)"
    using f by (simp_all add: set_replica_id_def list_first_replica_dentry_def find_replica_dentry_def)
  obtain b e sb where u: "d_inode (dents ?a (d_parent (dents s p))) = Some b" "simple_unlink_not_put E b p ?a = Some (e, sb)"
    using assms(4) validate_plain [OF assms(1,3)] fa f(4) by (auto simp: sfs_unlink_def bind_eq_Some_conv)
  then obtain j :: inode where j: "e = 0" "clean_dentry E d (sb\<lparr>nlinks := (nlinks sb)(i_ino j := nlinks sb (i_ino j) - 1)\<rparr>) = Some s1"
    using assms(4) validate_plain [OF assms(1,3)] fa f(4) by (auto simp: sfs_unlink_def bind_eq_Some_conv split: if_splits)
  obtain x g where g: "op_unlink E b (d_name (dents s p)) i (parts s) = (x, g)" by fastforce
  have pa: "parts ?a = parts s" "fresh ?a = fresh s" by (simp_all add: set_replica_id_def)
  have sb: "x = 0" "sb = (if d_count (dents s p) = 1 then upd_dentry p (\<lambda>d. d\<lparr>d_inode := None\<rparr>) (?a\<lparr>parts := g\<rparr>)
      else d_drop p (?a\<lparr>parts := g\<rparr>))"
    using u(2) j(1) g f(6) fa(2) pa by (auto simp: simple_unlink_not_put_def d_delete_def Let_def split: if_splits)
  let ?c = "sb\<lparr>nlinks := (nlinks sb)(i_ino j := nlinks sb (i_ino j) - 1)\<rparr>"
  have c: "d_fsdata (dents ?c d) = Some (fd\<lparr>replica_id := int k\<rparr>)" "0 < d_count (dents ?c p)" "1 < d_count (dents ?c p) \<or> d_hashed (dents ?c p)"
    using fa(1,2) f(8-10) by (auto simp: sb(2) d_drop_def)
  have "replica_list E (fd\<lparr>replica_id := int k\<rparr>) = [p]" by (rule replica_list_single [OF _ f(7)]) (simp add: f(2))
  then have s1: "s1 = upd_fsdata d (clean_sfs_dentry E) (upd_dentry p (\<lambda>d. d\<lparr>d_count := d_count d - 1\<rparr>) ?c)"
    using j(2) c f(5) by (auto simp: clean_dentry_def put_opt_def dput.simps Let_def)
  have n: "parts sb = g" "fresh sb = fresh s" "\<forall>q. q \<noteq> p \<longrightarrow> dents sb q = dents ?a q" "d_fsdata (dents sb p) = d_fsdata (dents s p)"
    using fa(2) pa by (auto simp: sb(2) d_drop_def)
  have "entry V g = (entry V (parts s))(i_ino b := (entry V (parts s) (i_ino b))(d_name (dents s p) := None))"
    using assms(2) g sb(1) unfolding unlink_law_def by (metis (mono_tags))
  moreover have "d_inode (dents s (d_parent (dents s p))) = Some b" using u(1) by (simp add: set_replica_id_def split: if_splits)
  ultimately show thesis
    using that n f(8,11) by (auto simp: s1 set_replica_id_def)
qed

text \<open>C34. What was removed is not found: after a successful removal of a plain file that is on no other normal partition, a look-up
  of the name through a new dentry succeeds and finds nothing.\<close>

theorem unlink_lookup:
  assumes "parts_ok E V" and "calm E" and "heap_ok V s" and "file_at E V d k p s"
    and "d_fsdata (dents s (d_parent (dents s d))) = Some pd" and "normal_ok (replica_count E) pd" and "d \<noteq> d_parent (dents s d)"
    and "replicas pd k = Some (d_parent (dents s p))" and "d_parent (dents s p) \<noteq> p"
    and "\<forall>j. bit (normal_dir_map pd) j \<longrightarrow> (\<exists>rp b. replicas pd j = Some rp \<and> d_inode (dents s rp) = Some b \<and>
           (j \<noteq> k \<longrightarrow> entry V (parts s) (i_ino b) (d_name (dents s d)) = None))"
    and "sfs_unlink E d s = Some (0, s1)" and "d_alloc E (d_parent (dents s d)) (d_name (dents s d)) s1 = (Some d2, s2)"
  shows "\<exists>s3. sfs_lookup E d2 flags s2 = Some (0, s3) \<and> d_inode (dents s3 d2) = None"
proof -
  let ?P = "d_parent (dents s d)" and ?n = "d_name (dents s d)"
  have l: "xattr_law E V" "unlink_law E V" using assms(1) by (simp_all add: parts_ok_def)
  obtain b where u: "d_inode (dents s (d_parent (dents s p))) = Some b" "fresh s1 = fresh s"
    "\<forall>q. q \<noteq> p \<and> q \<noteq> d \<longrightarrow> dents s1 q = dents s q" "d_fsdata (dents s1 p) = d_fsdata (dents s p)" "d_name (dents s1 d) = ?n"
    "entry V (parts s1) = (entry V (parts s))(i_ino b := (entry V (parts s) (i_ino b))(?n := None))"
    by (rule unlink_removes [OF l assms(4,11)])
  obtain fd where fd: "d_fsdata (dents s d) = Some fd" "replicas fd k = Some p" using assms(4) by (auto simp: file_at_def)
  have rp: "rep_ok V k (dents s p)" "?P < fresh s" using heap_okD(4) [OF assms(3) fd] heap_okD(1) [OF assms(3,5)] by simp_all
  have rd: "d_fsdata (dents s d) \<noteq> None" using fd by simp
  have P1: "d_fsdata (dents s1 ?P) = Some pd" using u(3,4) assms(5,7) by (cases "?P = p") auto
  have nb: "j < replica_count E \<and> (\<exists>rp < fresh s. \<exists>b. replicas pd j = Some rp \<and> d_inode (dents s1 rp) = Some b \<and> entry V (parts s1) (i_ino b) ?n = None)"
    if j: "bit (normal_dir_map pd) j" for j
  proof -
    obtain q bj where q: "replicas pd j = Some q" "d_inode (dents s q) = Some bj" "j \<noteq> k \<longrightarrow> entry V (parts s) (i_ino bj) ?n = None"
      using assms(10) j by blast
    have r: "q < fresh s" "rep_ok V j (dents s q)" by (rule heap_okD(3) [OF assms(3,5) q(1)], rule heap_okD(4) [OF assms(3,5) q(1)])
    have "q \<noteq> p" using assms(8,9) q(1) r(2) rp(1) by (cases "j = k") (auto simp: rep_ok_def)
    moreover have "q \<noteq> d" using r(2) rd by (auto simp: rep_ok_def)
    ultimately have "d_inode (dents s1 q) = Some bj" using u(3) q(2) by simp
    moreover have "entry V (parts s1) (i_ino bj) ?n = None" using u(1,6) q assms(8) by (cases "j = k") auto
    ultimately show ?thesis using q(1) r(1) normal_okD(3) [OF assms(6) j] by auto
  qed
  define base where "base = (\<lambda>j. the (d_inode (dents s1 (the (replicas pd j)))))"
  have nb1: "j < replica_count E \<and> (\<exists>rp < fresh s1. replicas pd j = Some rp \<and> d_inode (dents s1 rp) = Some (base j))"
    and nb2: "entry V (parts s1) (i_ino (base j)) ?n = None" if "bit (normal_dir_map pd) j" for j
    using nb [OF that] u(2) by (auto simp: base_def)
  have P2: "?P < fresh s1" using rp(2) u(2) by simp
  note al = fresh_name_alloc [OF assms(12) P2 P1, of base]
  have "parts s2 = parts s1" "d_name (dents s2 d2) = ?n" by (rule al(2) [OF nb1], assumption, rule al(3) [OF nb1], assumption)
  then show ?thesis by (intro lookup_nothing [OF assms(1,2) al(1) [OF nb1]]) (simp_all add: nb2)
qed

section \<open>Symbolic links\<close>

text \<open>C38. No symbolic link can be created: \<^verbatim>\<open>sfs_symlink\<close> does not set the mode of its argument, \<^verbatim>\<open>sfs_new_inode\<close> refuses the
  mode 0, and the call returns \<^verbatim>\<open>-EIO\<close> without an operation on a partition.\<close>

theorem symlink_fails:
  assumes "d_fsdata (dents s (d_parent (dents s d))) = Some pd" and "normal_ok (replica_count E) pd" and "last_dispatch s \<le> DISPATCH_MAX"
    and "alloc_ok E (fresh s)"
  shows "\<exists>s1. sfs_symlink E d oldname s = Some (- EIO, s1) \<and> parts s1 = parts s \<and> d_inode (dents s1 d) = d_inode (dents s d)"
proof -
  from local_dispatch_ok [OF assms(2,3)] obtain k pd1 l where
    "local_dispatch (replica_count E) pd (last_dispatch s) = Some (int k, pd1, l)" by blast
  then show ?thesis
    using assms(1,4)
    by (simp add: sfs_symlink_def sfs_add_entry_def local_dispatch_on_def sfs_new_inode_def sfs_alloc_inode_def kalloc_def
        S_IFMT_def S_IFREG_def S_IFDIR_def S_IFLNK_def)
qed

section \<open>An instance\<close>

text \<open>Two partitions in memory: the number of the next inode, the entries and the attributes.  The inodes of a partition have the
  same parity; \<open>mem_entry\<close> shows no others.\<close>

type_synonym mem_fs = "nat \<times> (nat \<Rightarrow> string \<Rightarrow> inode option) \<times> (nat \<Rightarrow> string \<Rightarrow> char list option)"

definition mem_entry :: "mem_fs \<Rightarrow> nat \<Rightarrow> string \<Rightarrow> inode option" where
  "mem_entry f dir name =
     (case fst (snd f) dir name of None \<Rightarrow> None | Some i \<Rightarrow> if i_ino i mod 2 = dir mod 2 then Some i else None)"

definition mem_make :: "umode \<Rightarrow> nat \<Rightarrow> string \<Rightarrow> mem_fs \<Rightarrow> (errcode + inode) \<times> mem_fs" where
  "mem_make mode dir name f =
     (if mem_entry f dir name \<noteq> None then (Inl (- EEXIST), f)
      else
        (case f of (n, e, x) \<Rightarrow>
           let i = \<lparr>i_ino = 2 * (n + dir + 1) + dir mod 2, i_mode = mode\<rparr>
           in (Inr i, (n + 1, e(dir := (e dir)(name \<mapsto> i)), x(i_ino i := (\<lambda>_. None))))))"

definition mem_del :: "nat \<Rightarrow> string \<Rightarrow> mem_fs \<Rightarrow> mem_fs" where
  "mem_del dir name f = (case f of (n, e, x) \<Rightarrow> (n, e(dir := (e dir)(name := None)), x))"

definition mem_move :: "nat \<Rightarrow> string \<Rightarrow> inode \<Rightarrow> nat \<Rightarrow> string \<Rightarrow> mem_fs \<Rightarrow> mem_fs" where
  "mem_move dir name i dir1 name1 f =
     (case mem_del dir name f of (n, e, x) \<Rightarrow> (n, e(dir1 := (e dir1)(name1 \<mapsto> i)), x))"

definition mem_get :: "nat \<Rightarrow> string \<Rightarrow> nat \<Rightarrow> mem_fs \<Rightarrow> int \<times> char list" where
  "mem_get i k n f =
     (case snd (snd f) i k of None \<Rightarrow> (- 61, []) | Some v \<Rightarrow> if length v \<le> n then (int (length v), v) else (- ERANGE, []))"

definition mem_set :: "nat \<Rightarrow> string \<Rightarrow> char list \<Rightarrow> mem_fs \<Rightarrow> errcode \<times> mem_fs" where
  "mem_set i k v f = (case f of (n, e, x) \<Rightarrow> (0, (n, e, x(i := (x i)(k \<mapsto> v)))))"

definition mem_env :: "mem_fs sfs_env" where
  "mem_env =
     \<lparr>op_lookup = (\<lambda>dir name fl f. LookupNew (mem_entry f (i_ino dir) name)),
      op_create = (\<lambda>dir. Some (\<lambda>name mode excl. mem_make mode (i_ino dir) name)),
      op_mkdir = (\<lambda>dir. Some (\<lambda>name mode. mem_make S_IFDIR (i_ino dir) name)),
      op_symlink = (\<lambda>dir. None), op_mknod = (\<lambda>dir. None), op_link = (\<lambda>dir. None),
      op_unlink = (\<lambda>dir name i f. (0, mem_del (i_ino dir) name f)),
      op_rmdir = (\<lambda>dir name i f. (0, mem_del (i_ino dir) name f)),
      op_rename = (\<lambda>dir name i dir1 name1 f. (0, mem_move (i_ino dir) name i (i_ino dir1) name1 f)),
      op_xattr = \<lparr>vfs_setxattr = (\<lambda>i. mem_set (i_ino i)), vfs_getxattr = (\<lambda>i. mem_get (i_ino i)),
        generic_getxattr = (\<lambda>i. mem_get (i_ino i))\<rparr>,
      rename_does_d_move = (\<lambda>_. False), replica_count = 2, alloc_ok = (\<lambda>_. True), stack_junk = (\<lambda>_. NUL), slab_junk = 0\<rparr>"

definition mem_view :: "mem_fs part_view" where
  "mem_view = \<lparr>entry = mem_entry, xattr = (\<lambda>f. snd (snd f)), home = (\<lambda>i. i mod 2)\<rparr>"

lemma mem_parity: "(2 * a + 2 * b + b mod 2) mod 2 = b mod 2" for a b :: nat
proof -
  have "2 * a + 2 * b + b mod 2 = b mod 2 + (a + b) * 2" by simp
  then show ?thesis by (simp only: mod_mult_self1 mod_mod_trivial)
qed

lemma mem_make_law: "case mem_make m dir name f of
    (Inl e, f') \<Rightarrow> e < 0 \<and> same_view mem_view f f'
  | (Inr i, f') \<Rightarrow> new_object mem_view dir name f i f' \<and> i_mode i = m"
  by (cases f) (auto simp: mem_make_def same_view_def new_object_def mem_view_def mem_entry_def mem_parity Let_def fun_eq_iff split: option.splits)

lemma mem_parts_ok: "parts_ok mem_env mem_view"
proof -
  have m: "case mem_make m dir name f of (Inl e, f') \<Rightarrow> e < 0 \<and> same_view mem_view f f'
    | (Inr i, f') \<Rightarrow> new_object mem_view dir name f i f' \<and> Q i" if "\<And>i. i_mode i = m \<Longrightarrow> Q i" for m dir name f Q
    using mem_make_law [where m = m and dir = dir and name = name and f = f] that by (auto split: prod.splits sum.splits)
  have "lookup_law mem_env mem_view"
    by (auto simp: lookup_law_def mem_env_def mem_view_def mem_entry_def split: option.splits if_splits)
  moreover have "create_law mem_env mem_view" unfolding create_law_def mem_env_def by (auto intro!: m)
  moreover have "mkdir_law mem_env mem_view" unfolding mkdir_law_def mem_env_def
    by (auto intro!: m simp: S_ISDIR_def S_IFDIR_def S_IFMT_def)
  moreover have "unlink_law mem_env mem_view"
    by (auto simp: unlink_law_def mem_env_def mem_view_def mem_del_def mem_entry_def fun_eq_iff split: option.splits)
  moreover have "xattr_law mem_env mem_view"
    by (auto simp: xattr_law_def mem_env_def mem_view_def mem_set_def mem_get_def mem_entry_def fun_eq_iff split: option.splits prod.splits)
  ultimately show ?thesis by (simp add: parts_ok_def)
qed

text \<open>The root directory with a replica on both partitions, normal on the first, and a name that does not exist.\<close>

definition root_data :: sfs_dentry where
  "root_data = (new_sfs_dentry 0)\<lparr>replicas := (\<lambda>_. None)(0 := Some 1, 1 := Some 2), normal_dir_count := 1, normal_dir_map := 1\<rparr>"

definition dir_inode :: "nat \<Rightarrow> inode" where
  "dir_inode n = \<lparr>i_ino = n, i_mode = S_IFDIR\<rparr>"

definition demo_dentry :: "string \<Rightarrow> ptr \<Rightarrow> inode option \<Rightarrow> nat \<Rightarrow> sfs_dentry option \<Rightarrow> dentry" where
  "demo_dentry name parent i sb fd =
     \<lparr>d_name = name, d_parent = parent, d_inode = i, d_count = 1, d_hashed = True, d_sb = sb, d_fsdata = fd\<rparr>"

definition demo_fs :: "mem_fs sfs" where
  "demo_fs =
     \<lparr>dents = (\<lambda>_. demo_dentry [] 0 None 2 None)
        (0 := demo_dentry ''/'' 0 (Some (dir_inode 100)) 2 (Some root_data), 1 := demo_dentry ''/'' 1 (Some (dir_inode 0)) 0 None,
         2 := demo_dentry ''/'' 2 (Some (dir_inode 1)) 1 None, 3 := demo_dentry ''a'' 0 None 2 (Some (new_sfs_dentry 0))),
      fresh = 4, nlinks = (\<lambda>_. 1), last_dispatch = 0, parts = (1, (\<lambda>_ _. None), (\<lambda>_ _. None))\<rparr>"

lemma root_map: "bit (normal_dir_map root_data) j \<longleftrightarrow> j = 0"
  by (simp add: root_data_def bit_1_iff)

lemma root_normal: "normal_ok 2 root_data"
proof -
  have "{i. i = (0 :: nat)} = {0}" by auto
  then show ?thesis unfolding normal_ok_def root_map by (auto simp: root_data_def new_sfs_dentry_def)
qed

lemma demo_new_name: "new_name mem_env mem_view 3 root_data demo_fs" "absent mem_view 3 root_data demo_fs" "calm mem_env"
proof -
  have "heap_ok mem_view demo_fs"
    by (auto simp: heap_ok_def data_ok_def rep_ok_def demo_fs_def demo_dentry_def root_data_def new_sfs_dentry_def dir_inode_def
        mem_view_def split: if_splits)
  then show "new_name mem_env mem_view 3 root_data demo_fs"
    using root_normal by (simp add: new_name_def demo_fs_def demo_dentry_def new_sfs_dentry_def mem_env_def)
  show "absent mem_view 3 root_data demo_fs"
    unfolding absent_def root_map
    by (simp add: root_data_def demo_fs_def demo_dentry_def dir_inode_def mem_view_def mem_entry_def)
  show "calm mem_env" by (simp add: calm_def mem_env_def)
qed

lemma demo_dispatch: "local_dispatch 2 root_data 0 = Some (1, root_data, 2)"
proof -
  have "dispatch_new 1 2 1 = Some (1, 2)"
    by (subst dispatch_new.simps) (simp add: dispatch_def DISPATCH_MAX_def test_bitmap_def)
  then have "dispatch_new 1 2 0 = Some (1, 2)"
    by (subst dispatch_new.simps) (simp add: dispatch_def DISPATCH_MAX_def test_bitmap_def)
  then show ?thesis by (simp add: local_dispatch_def root_data_def span_threshold_def SPAN_THRESHOLD_def)
qed

lemma demo_create: "\<exists>s1. sfs_create mem_env 3 0x81A4 False demo_fs = Some (0, s1)"
proof -
  have ld: "local_dispatch_on mem_env 0 demo_fs = Some (1, - 1, upd_fsdata 0 (\<lambda>_. root_data) (demo_fs\<lparr>last_dispatch := 2\<rparr>))"
    using demo_dispatch by (simp add: local_dispatch_on_def demo_fs_def demo_dentry_def mem_env_def)
  have p: "d_parent (dents demo_fs 3) = 0" by (simp add: demo_fs_def demo_dentry_def)
  show ?thesis
    unfolding sfs_create_def sfs_add_entry_def p ld
    by (simp add: sfs_new_inode_def sfs_alloc_inode_def kalloc_def S_IFMT_def S_IFREG_def simple_add_entry_def create_replica_dir_def
      find_replica_dentry_def inode_of_def set_normal_dir_def get_replica_dentry_def sfs_lookup_one_len_def d_alloc_def part_lookup_def
      add_to_def made_def d_add_def d_add_replica_def Let_def mem_env_def demo_fs_def demo_dentry_def root_data_def new_sfs_dentry_def
      dir_inode_def mem_entry_def mem_make_def mem_set_def test_bitmap_def set_bitmap_def)
qed

theorem create_lookup_witness:
  "\<exists>s1 d2 s2 s3 fd2. sfs_create mem_env 3 0x81A4 False demo_fs = Some (0, s1) \<and> d_alloc mem_env 0 ''a'' s1 = (Some d2, s2) \<and>
     sfs_lookup mem_env d2 0 s2 = Some (0, s3) \<and> d_fsdata (dents s3 d2) = Some fd2 \<and> meta_id fd2 = - 1"
proof -
  obtain s1 where c: "sfs_create mem_env 3 0x81A4 False demo_fs = Some (0, s1)" using demo_create by blast
  obtain d2 s2 where a: "d_alloc mem_env 0 ''a'' s1 = (Some d2, s2)" by (simp add: d_alloc_def kalloc_def mem_env_def)
  have p: "d_parent (dents demo_fs 3) = 0" "d_name (dents demo_fs 3) = ''a''" by (simp_all add: demo_fs_def demo_dentry_def)
  have m: "(0x81A4 :: umode) AND S_IFMT = S_IFREG" by (simp add: S_IFMT_def S_IFREG_def)
  from create_lookup [OF mem_parts_ok demo_new_name(3,1,2) m c, unfolded p, OF a, of 0] c a show ?thesis by blast
qed

theorem symlink_fails_witness: "\<exists>s1. sfs_symlink mem_env 3 ''b'' demo_fs = Some (- EIO, s1) \<and> parts s1 = parts demo_fs"
proof -
  have "d_fsdata (dents demo_fs (d_parent (dents demo_fs 3))) = Some root_data" "normal_ok (replica_count mem_env) root_data"
    "last_dispatch demo_fs \<le> DISPATCH_MAX" "alloc_ok mem_env (fresh demo_fs)"
    using root_normal by (simp_all add: demo_fs_def demo_dentry_def mem_env_def)
  from symlink_fails [OF this, of "''b''"] show ?thesis by blast
qed

text \<open>The name with a file on the first partition.\<close>

definition file_inode :: inode where "file_inode = \<lparr>i_ino = 2, i_mode = 0x81A4\<rparr>"

definition demo_file :: "mem_fs sfs" where
  "demo_file =
     demo_fs\<lparr>dents := (dents demo_fs)
        (3 := demo_dentry ''a'' 0 (Some \<lparr>i_ino = 101, i_mode = 0x81A4\<rparr>) 2
                (Some ((new_sfs_dentry 0)\<lparr>replicas := (\<lambda>_. None)(0 := Some 4), replica_id := 0\<rparr>)),
         4 := demo_dentry ''a'' 1 (Some file_inode) 0 None),
      fresh := 5, parts := (2, (\<lambda>_ _. None)(0 := [''a'' \<mapsto> file_inode]), (\<lambda>_ _. None))\<rparr>"

lemmas demo_defs = demo_file_def demo_fs_def demo_dentry_def root_data_def new_sfs_dentry_def dir_inode_def file_inode_def

lemma demo_file_ok: "heap_ok mem_view demo_file" "file_at mem_env mem_view 3 0 4 demo_file"
proof -
  show "heap_ok mem_view demo_file"
    by (auto simp: heap_ok_def data_ok_def rep_ok_def mem_view_def demo_defs split: if_splits)
  show "file_at mem_env mem_view 3 0 4 demo_file"
    by (simp add: file_at_def mem_view_def mem_env_def) (simp add: demo_defs)
qed

lemma demo_unlink: "\<exists>s1. sfs_unlink mem_env 3 demo_file = Some (0, s1)"
proof -
  have x: "xattr_law mem_env mem_view" using mem_parts_ok by (simp add: parts_ok_def)
  have r: "List.map_filter ((\<lambda>_. None)(0 := Some 4)) [0..<2] = [4 :: nat]" by (simp add: List.map_filter_def upt_rec)
  show ?thesis
    unfolding sfs_unlink_def validate_plain [OF x demo_file_ok(2)]
    by (simp add: set_replica_id_def list_first_replica_dentry_def find_replica_dentry_def simple_unlink_not_put_def d_delete_def
        clean_dentry_def replica_list_def r put_opt_def dput.simps mem_env_def mem_del_def demo_defs)
qed

theorem unlink_lookup_witness:
  "\<exists>s1 d2 s2 s3. sfs_unlink mem_env 3 demo_file = Some (0, s1) \<and> d_alloc mem_env 0 ''a'' s1 = (Some d2, s2) \<and>
     sfs_lookup mem_env d2 0 s2 = Some (0, s3) \<and> d_inode (dents s3 d2) = None"
proof -
  obtain s1 where c: "sfs_unlink mem_env 3 demo_file = Some (0, s1)" using demo_unlink by blast
  obtain d2 s2 where a: "d_alloc mem_env 0 ''a'' s1 = (Some d2, s2)" by (simp add: d_alloc_def kalloc_def mem_env_def)
  have p: "d_parent (dents demo_file 3) = 0" "d_name (dents demo_file 3) = ''a''" "d_parent (dents demo_file 4) = 1"
    by (simp_all add: demo_defs)
  have h: "d_fsdata (dents demo_file 0) = Some root_data" "normal_ok (replica_count mem_env) root_data" "(3 :: nat) \<noteq> 0"
    "replicas root_data 0 = Some 1" "(1 :: nat) \<noteq> 4"
    "\<forall>j. bit (normal_dir_map root_data) j \<longrightarrow> (\<exists>rp b. replicas root_data j = Some rp \<and> d_inode (dents demo_file rp) = Some b \<and>
       (j \<noteq> 0 \<longrightarrow> entry mem_view (parts demo_file) (i_ino b) ''a'' = None))"
    using root_normal unfolding root_map by (simp_all add: demo_defs mem_env_def)
  from unlink_lookup [OF mem_parts_ok demo_new_name(3) demo_file_ok, unfolded p, OF h c a, of 0] c a show ?thesis by blast
qed

end
