(* ===== verification/Sfs_Rename.thy ===== *)
theory Sfs_Rename
  imports Sfs_Namei
begin

text \<open>
  Renaming in SFS (\<^verbatim>\<open>sfs16/rename.c\<close>).  A directory is renamed on every partition that has a replica of it; a file is
  renamed on the partition of its data file, and links mark the steps of the change so that a validation can finish or undo it.
\<close>

section \<open>Renaming a directory\<close>

primrec sfs_d_move_from :: "ptr \<Rightarrow> ptr \<Rightarrow> int \<Rightarrow> nat list \<Rightarrow> 'f sfs \<Rightarrow> 'f sfs option" where
  "sfs_d_move_from d t rid [] s = Some s"
| "sfs_d_move_from d t rid (k # ks) s =
     (if int k = rid then sfs_d_move_from d t rid ks s
      else
        do { fd \<leftarrow> d_fsdata (dents s d);
             ft \<leftarrow> d_fsdata (dents s t);
             sfs_d_move_from d t rid ks
               (upd_fsdata t (\<lambda>x. x\<lparr>replicas := (replicas x)(k := replicas fd k)\<rparr>)
                 (upd_fsdata d (\<lambda>x. x\<lparr>replicas := (replicas x)(k := replicas ft k)\<rparr>) s)) })"

definition sfs_d_move :: "('f, 'z) sfs_env_scheme \<Rightarrow> ptr \<Rightarrow> ptr \<Rightarrow> int \<Rightarrow> 'f sfs \<Rightarrow> 'f sfs option" where
  "sfs_d_move E d t rid s = sfs_d_move_from d t rid [0..<replica_count E] s"

text \<open>The rename on a partition, from one replica to another.\<close>

definition part_rename ::
  "('f, 'z) sfs_env_scheme \<Rightarrow> ptr option \<Rightarrow> ptr \<Rightarrow> ptr \<Rightarrow> ptr \<Rightarrow> 'f sfs \<Rightarrow> (errcode \<times> 'f sfs) option" where
  "part_rename E old_parent old_dentry new_parent new_dentry s =
     do { old_dir \<leftarrow> inode_of s old_parent;
          new_dir \<leftarrow> d_inode (dents s new_parent);
          i \<leftarrow> d_inode (dents s old_dentry);
          let (error, f) = op_rename E old_dir (d_name (dents s old_dentry)) i new_dir (d_name (dents s new_dentry)) (parts s);
          Some (error, s\<lparr>parts := f\<rparr>) }"

text \<open>An error of the rename on one partition does not end the loop, and the last one is overwritten behind it.\<close>

primrec rename_dirs ::
  "('f, 'z) sfs_env_scheme \<Rightarrow> ptr \<Rightarrow> ptr \<Rightarrow> nat list \<Rightarrow> 'f sfs \<Rightarrow> (errcode \<times> 'f sfs) option" where
  "rename_dirs E old_dentry new_dentry [] s = Some (0, s)"
| "rename_dirs E old_dentry new_dentry (k # ks) s =
     do { r \<leftarrow> find_replica_dentry E old_dentry (int k) s;
          if inode_of s r = None
          then rename_dirs E old_dentry new_dentry ks (upd_fsdata old_dentry (\<lambda>x. x\<lparr>replicas := (replicas x)(k := None)\<rparr>) s)
          else
            do { old_replica_dentry \<leftarrow> r;
                 rp \<leftarrow> find_replica_dentry E (d_parent (dents s old_dentry)) (int k) s;
                 old_replica_parent \<leftarrow> rp;
                 case d_inode (dents s old_replica_parent) of
                   None \<Rightarrow> Some (- EIO, s)
                 | Some dir \<Rightarrow>
                     do { (np, s1) \<leftarrow> create_replica_dir E (d_parent (dents s new_dentry)) (int k) CLONE_SHADOW s;
                          (nr, s2) \<leftarrow> get_replica_dentry E (deref np) new_dentry (int k) s1;
                          case nr of
                            Inl e \<Rightarrow> Some (e, s2)
                          | Inr new_replica_dentry \<Rightarrow>
                              do { new_replica_parent \<leftarrow> deref np;
                                   (error, s3) \<leftarrow> part_rename E rp old_replica_dentry new_replica_parent new_replica_dentry s2;
                                   rename_dirs E old_dentry new_dentry ks
                                     (if error = 0 \<and> \<not> rename_does_d_move E dir
                                      then d_move old_replica_dentry new_replica_dentry s3 else s3) } } } }"

definition sfs_rename_dir :: "('f, 'z) sfs_env_scheme \<Rightarrow> ptr \<Rightarrow> ptr \<Rightarrow> 'f sfs \<Rightarrow> (errcode \<times> 'f sfs) option" where
  "sfs_rename_dir E old_dentry new_dentry s =
     do { (error, s1) \<leftarrow> (if d_inode (dents s new_dentry) \<noteq> None then sfs_rmdir E new_dentry s else Some (0, s));
          if error \<noteq> 0 then Some (error, s1)
          else
            do { i \<leftarrow> d_inode (dents s1 old_dentry);
                 (error, s2) \<leftarrow> rename_dirs E old_dentry new_dentry [0..<replica_count E] s1;
                 if error \<noteq> 0 then Some (error, s2)
                 else
                   do { pd \<leftarrow> d_fsdata (dents s2 (d_parent (dents s2 new_dentry)));
                        let (rid, s3) = (if first_normal_dir_id pd = - 1 then dispatch_next E s2 else (first_normal_dir_id pd, s2));
                        simple_add_dir_entry E new_dentry (i_mode i) rid CLONE_NORMAL s3 } } }"

section \<open>Renaming a file to a name that does not exist\<close>

text \<open>The replica of the new name on the partition of the data file, and whether its directory may be normal there.\<close>

definition new_replica ::
  "('f, 'z) sfs_env_scheme \<Rightarrow> ptr \<Rightarrow> int \<Rightarrow> 'f sfs \<Rightarrow> (bool \<times> (errcode + ptr \<times> ptr) \<times> 'f sfs) option" where
  "new_replica E new_dentry rid s =
     (let new_parent = d_parent (dents s new_dentry) in
      do { can_turn \<leftarrow> can_turn2normal E new_parent rid s;
           (r, s1) \<leftarrow> create_replica_dir E new_parent rid (if can_turn then CLONE_NORMAL else CLONE_SHADOW) s;
           case r of
             Inl e \<Rightarrow> Some (can_turn, Inl e, s1)
           | Inr new_replica_parent \<Rightarrow>
               do { (r, s2) \<leftarrow> get_replica_dentry E (Some new_replica_parent) new_dentry rid s1;
                    Some (can_turn, case r of Inl e \<Rightarrow> Inl e | Inr p \<Rightarrow> Inr (new_replica_parent, p), s2) } })"

text \<open>The directory may be normal: a meta file is not needed.\<close>

definition rename2non_normal ::
  "('f, 'z) sfs_env_scheme \<Rightarrow> ptr \<Rightarrow> ptr option \<Rightarrow> ptr \<Rightarrow> ptr \<Rightarrow> ptr \<Rightarrow> int \<Rightarrow> int \<Rightarrow> 'f sfs \<Rightarrow> (errcode \<times> 'f sfs) option" where
  "rename2non_normal E old_dentry old_replica_parent old_replica_dentry new_replica_parent new_replica_dentry rid old_meta_id s =
     do { (err, s1) \<leftarrow>
            (if old_meta_id \<noteq> - 1 then put_links E old_replica_dentry (no_pointer[RENAME := rid]) s else Some (0, s));
          if err \<noteq> 0 then Some (err, s1)
          else
            do { (err, s2) \<leftarrow> part_rename E old_replica_parent old_replica_dentry new_replica_parent new_replica_dentry s1;
                 if err \<noteq> 0 then Some (err, s2)
                 else
                   do { let s3 = d_move old_replica_dentry new_replica_dentry s2;
                        (e, s4) \<leftarrow> (if old_meta_id \<noteq> - 1 then reset_links E old_replica_dentry s3 else Some (0, s3));
                        Some (0, set_meta_id old_dentry (- 1) s4) } } }"

text \<open>The directory stays a shadow: a meta file is made in a normal directory.\<close>

definition rename2non_meta ::
  "('f, 'z) sfs_env_scheme \<Rightarrow> ptr \<Rightarrow> ptr \<Rightarrow> ptr option \<Rightarrow> ptr \<Rightarrow> ptr \<Rightarrow> ptr \<Rightarrow> int \<Rightarrow> 'f sfs \<Rightarrow> (errcode \<times> 'f sfs) option" where
  "rename2non_meta E old_dentry new_dentry old_replica_parent old_replica_dentry new_replica_parent new_replica_dentry rid s =
     (let new_parent = d_parent (dents s new_dentry) in
      do { (new_meta_id, s1) \<leftarrow> select_normal_on E new_parent s;
           mp \<leftarrow> find_replica_dentry E new_parent new_meta_id s1;
           (r, s2) \<leftarrow> get_replica_dentry E mp new_dentry new_meta_id s1;
           i \<leftarrow> d_inode (dents s2 old_dentry);
           dir \<leftarrow> inode_of s2 mp;
           new_meta_dentry \<leftarrow> deref r;
           create \<leftarrow> op_create E dir;
           let (err, s3) = made new_meta_dentry (create (d_name (dents s2 new_meta_dentry)) (i_mode i) False (parts s2)) s2;
           if err \<noteq> 0 then Some (err, s3) else
      do { (err, s4) \<leftarrow> put_links E new_meta_dentry (no_pointer[POINTER := rid]) s3;
           if err \<noteq> 0 then Some (err, s4) else
      do { (err, s5) \<leftarrow> put_links E old_replica_dentry (no_pointer[RENAME := new_meta_id]) s4;
           if err \<noteq> 0 then Some (err, s5) else
      do { (err, s6) \<leftarrow> part_rename E old_replica_parent old_replica_dentry new_replica_parent new_replica_dentry s5;
           if err \<noteq> 0 then Some (err, s6) else
      do { let s7 = d_move old_replica_dentry new_replica_dentry s6;
           (e, s8) \<leftarrow> put_links E old_replica_dentry (no_pointer[POINTER := new_meta_id]) s7;
           Some (0, set_meta_id old_dentry new_meta_id s8) } } } } })"

definition rename2non :: "('f, 'z) sfs_env_scheme \<Rightarrow> ptr \<Rightarrow> ptr \<Rightarrow> 'f sfs \<Rightarrow> (errcode \<times> 'f sfs) option" where
  "rename2non E old_dentry new_dentry s =
     do { o_repl \<leftarrow> list_first_replica_dentry E old_dentry s;
          fd \<leftarrow> d_fsdata (dents s old_dentry);
          let rid = replica_id fd;
          let old_meta_id = meta_id fd;
          old_replica_parent \<leftarrow> find_replica_dentry E (d_parent (dents s old_dentry)) rid s;
          (can_turn, r, s1) \<leftarrow> new_replica E new_dentry rid s;
          case r of
            Inl e \<Rightarrow> Some (e, s1)
          | Inr (new_replica_parent, new_replica_dentry) \<Rightarrow>
              do { old_replica_dentry \<leftarrow> o_repl;
                   (err, s2) \<leftarrow>
                     (if can_turn
                      then rename2non_normal E old_dentry old_replica_parent old_replica_dentry new_replica_parent new_replica_dentry
                             rid old_meta_id s1
                      else rename2non_meta E old_dentry new_dentry old_replica_parent old_replica_dentry new_replica_parent
                             new_replica_dentry rid s1);
                   if err \<noteq> 0 then Some (err, s2)
                   else
                     do { s3 \<leftarrow>
                            (if old_meta_id \<noteq> - 1 then
                               do { m \<leftarrow> find_replica_dentry E old_dentry old_meta_id s2;
                                    old_meta_dentry \<leftarrow> m;
                                    dir \<leftarrow> d_inode (dents s2 (d_parent (dents s2 old_meta_dentry)));
                                    (e, s3) \<leftarrow> simple_unlink_not_put E dir old_meta_dentry s2;
                                    Some s3 }
                             else Some s2);
                          s4 \<leftarrow> sfs_d_move E old_dentry new_dentry rid s3;
                          Some (0, s4) } } }"

section \<open>Renaming a file to a name that exists\<close>

text \<open>The two files of a rename onto an existing name: the partition of the data file and of the meta file, the replicas, and
  their directories.\<close>

record rename_pair =
  old_id :: int
  old_meta :: int
  old_rep :: ptr
  old_rep_parent :: "ptr option"
  old_meta_rep :: "ptr option"
  old_meta_parent :: "ptr option"
  exist_id :: int
  exist_meta :: int
  exist_rep :: "ptr option"
  exist_rep_parent :: "ptr option"
  exist_meta_rep :: "ptr option"
  exist_meta_parent :: "ptr option"
  new_rep :: ptr
  new_rep_parent :: ptr

definition find_if :: "bool \<Rightarrow> ('f, 'z) sfs_env_scheme \<Rightarrow> ptr \<Rightarrow> int \<Rightarrow> 'f sfs \<Rightarrow> ptr option option" where
  "find_if b E d i s = (if b then find_replica_dentry E d i s else Some None)"

text \<open>The mark that is set before the rename when the new place is normal: a rename link to itself when it overwrites a
  replica of the existing file, or else a stale link to the replica that is then hidden.\<close>

definition hidden_of :: "rename_pair \<Rightarrow> ptr option \<times> int" where
  "hidden_of P = (if exist_meta P \<noteq> - 1 then (exist_meta_rep P, exist_meta P) else (exist_rep P, exist_id P))"

definition overwritten :: "rename_pair \<Rightarrow> bool" where
  "overwritten P \<longleftrightarrow> exist_id P = old_id P \<or> exist_meta P = old_id P"

definition mark_exist :: "('f, 'z) sfs_env_scheme \<Rightarrow> rename_pair \<Rightarrow> 'f sfs \<Rightarrow> (errcode \<times> 'f sfs) option" where
  "mark_exist E P s =
     (if overwritten P then put_links E (old_rep P) (no_pointer[RENAME := old_id P]) s
      else
        do { (err, s1) \<leftarrow> put_links E (old_rep P) (no_pointer[STALE := snd (hidden_of P)]) s;
             if err \<noteq> 0 then Some (err, s1)
             else do { h \<leftarrow> fst (hidden_of P); put_links E h (no_pointer[HIDDEN := old_id P]) s1 } })"

definition unmark_exist :: "('f, 'z) sfs_env_scheme \<Rightarrow> rename_pair \<Rightarrow> 'f sfs \<Rightarrow> 'f sfs option" where
  "unmark_exist E P s =
     (if overwritten P then do { (e, s1) \<leftarrow> modify_link E (old_rep P) (- 1) RENAME s; Some s1 }
      else
        do { (e, s1) \<leftarrow> modify_link E (old_rep P) (- 1) STALE s;
             h \<leftarrow> fst (hidden_of P);
             (e, s2) \<leftarrow> modify_link E h (- 1) HIDDEN s1;
             Some s2 })"

definition unlink_at :: "('f, 'z) sfs_env_scheme \<Rightarrow> ptr option \<Rightarrow> ptr option \<Rightarrow> 'f sfs \<Rightarrow> (errcode \<times> 'f sfs) option" where
  "unlink_at E rp r s = do { dir \<leftarrow> inode_of s rp; p \<leftarrow> r; simple_unlink_not_put E dir p s }"

text \<open>The removal of what is left of the existing file behind the rename.  An error of a removal is dropped, and ends the steps;
  the pointer is what the local table holds at this point.\<close>

definition sweep_exist :: "('f, 'z) sfs_env_scheme \<Rightarrow> rename_pair \<Rightarrow> 'f sfs \<Rightarrow> 'f sfs option" where
  "sweep_exist E P s =
     (if overwritten P then
        do { (err, s1) \<leftarrow> (if old_id P = exist_meta P then unlink_at E (exist_rep_parent P) (exist_rep P) s else Some (0, s));
             if err \<noteq> 0 then Some s1 else do { (e, s2) \<leftarrow> put_links E (old_rep P) no_pointer s1; Some s2 } }
      else
        do { (err, s1) \<leftarrow> (if exist_meta P \<noteq> - 1 then unlink_at E (exist_meta_parent P) (exist_meta_rep P) s else Some (0, s));
             if err \<noteq> 0 then Some s1
             else
               do { (err, s2) \<leftarrow> unlink_at E (exist_rep_parent P) (exist_rep P) s1;
                    if err \<noteq> 0 then Some s2 else do { (e, s3) \<leftarrow> put_links E (old_rep P) no_pointer s2; Some s3 } } })"

definition rename_over_normal ::
  "('f, 'z) sfs_env_scheme \<Rightarrow> ptr \<Rightarrow> rename_pair \<Rightarrow> 'f sfs \<Rightarrow> (errcode \<times> 'f sfs) option" where
  "rename_over_normal E old_dentry P s =
     do { (err, s1) \<leftarrow> mark_exist E P s;
          if err \<noteq> 0 then Some (err, s1)
          else
            do { (err, s2) \<leftarrow> part_rename E (old_rep_parent P) (old_rep P) (new_rep_parent P) (new_rep P) s1;
                 if err \<noteq> 0 then do { s3 \<leftarrow> unmark_exist E P s2; Some (err, s3) }
                 else
                   do { s3 \<leftarrow> sweep_exist E P (set_meta_id old_dentry (- 1) (d_move (old_rep P) (new_rep P) s2));
                        Some (0, s3) } } }"

text \<open>The new place stays a shadow: the replica of the existing name becomes the meta file.\<close>

definition rename_over_meta ::
  "('f, 'z) sfs_env_scheme \<Rightarrow> ptr \<Rightarrow> rename_pair \<Rightarrow> 'f sfs \<Rightarrow> (errcode \<times> 'f sfs) option" where
  "rename_over_meta E old_dentry P s =
     (case hidden_of P of (mr, new_meta_id) \<Rightarrow>
      do { meta_dentry \<leftarrow> mr;
           (err, s1) \<leftarrow> put_links E meta_dentry (no_pointer[RENAME := old_id P]) s;
           if err \<noteq> 0 then Some (err, s1) else
      do { (err, s2) \<leftarrow> put_links E (old_rep P) (no_pointer[RENAME := new_meta_id]) s1;
           if err \<noteq> 0 then Some (err, s2) else
      do { (err, s3) \<leftarrow> part_rename E (old_rep_parent P) (old_rep P) (new_rep_parent P) (new_rep P) s2;
           if err \<noteq> 0 then Some (err, s3) else
      do { let s4 = set_meta_id old_dentry new_meta_id (d_move (old_rep P) (new_rep P) s3);
           (err, s5) \<leftarrow>
             (if exist_meta P \<noteq> - 1 \<and> exist_id P \<noteq> old_id P then unlink_at E (exist_rep_parent P) (exist_rep P) s4
              else Some (0, s4));
           if err \<noteq> 0 then Some (0, s5)
           else
             do { (e, s6) \<leftarrow> put_links E (old_rep P) (no_pointer[POINTER := new_meta_id]) s5;
                  (e, s7) \<leftarrow> put_links E meta_dentry (no_pointer[POINTER := old_id P]) s6;
                  Some (0, s7) } } } } })"

definition rename2exist :: "('f, 'z) sfs_env_scheme \<Rightarrow> ptr \<Rightarrow> ptr \<Rightarrow> 'f sfs \<Rightarrow> (errcode \<times> 'f sfs) option" where
  "rename2exist E old_dentry new_dentry s =
     (let old_parent = d_parent (dents s old_dentry); new_parent = d_parent (dents s new_dentry) in
      do { ofd \<leftarrow> d_fsdata (dents s old_dentry);
           nfd \<leftarrow> d_fsdata (dents s new_dentry);
           o_repl \<leftarrow> list_first_replica_dentry E old_dentry s;
           om \<leftarrow> find_if (meta_id ofd \<noteq> - 1) E old_dentry (meta_id ofd) s;
           omp \<leftarrow> find_if (meta_id ofd \<noteq> - 1) E old_parent (meta_id ofd) s;
           orp \<leftarrow> find_replica_dentry E old_parent (replica_id ofd) s;
           er \<leftarrow> find_replica_dentry E new_dentry (replica_id nfd) s;
           erp \<leftarrow> find_replica_dentry E new_parent (replica_id nfd) s;
           em \<leftarrow> find_if (meta_id nfd \<noteq> - 1) E new_dentry (meta_id nfd) s;
           emp \<leftarrow> find_if (meta_id nfd \<noteq> - 1) E new_parent (meta_id nfd) s;
           (can_turn, r, s1) \<leftarrow> new_replica E new_dentry (replica_id ofd) s;
           case r of
             Inl e \<Rightarrow> Some (e, s1)
           | Inr (nrp, nr) \<Rightarrow>
               do { old_replica_dentry \<leftarrow> o_repl;
                    let P = \<lparr>old_id = replica_id ofd, old_meta = meta_id ofd, old_rep = old_replica_dentry, old_rep_parent = orp,
                             old_meta_rep = om, old_meta_parent = omp, exist_id = replica_id nfd, exist_meta = meta_id nfd,
                             exist_rep = er, exist_rep_parent = erp, exist_meta_rep = em, exist_meta_parent = emp,
                             new_rep = nr, new_rep_parent = nrp\<rparr>;
                    (err, s2) \<leftarrow> (if can_turn then rename_over_normal E old_dentry P s1 else rename_over_meta E old_dentry P s1);
                    if err \<noteq> 0 then Some (err, s2)
                    else
                      do { s3 \<leftarrow>
                             (if meta_id ofd \<noteq> - 1 then do { (e, s3) \<leftarrow> unlink_at E omp om s2; Some s3 } else Some s2);
                           s4 \<leftarrow> sfs_d_move E old_dentry new_dentry (replica_id ofd) s3;
                           Some (0, s4) } } })"

definition sfs_rename_other :: "('f, 'z) sfs_env_scheme \<Rightarrow> ptr \<Rightarrow> ptr \<Rightarrow> 'f sfs \<Rightarrow> (errcode \<times> 'f sfs) option" where
  "sfs_rename_other E old_dentry new_dentry s =
     do { (err, s1) \<leftarrow> validate_file E old_dentry s;
          if err \<noteq> 0 then Some (err, s1)
          else
            do { let exists = (d_inode (dents s1 new_dentry) \<noteq> None);
                 (err, s2) \<leftarrow> (if exists then validate_file E new_dentry s1 else Some (0, s1));
                 if err \<noteq> 0 then Some (err, s2)
                 else if exists then rename2exist E old_dentry new_dentry s2
                 else rename2non E old_dentry new_dentry s2 } }"

definition sfs_rename :: "('f, 'z) sfs_env_scheme \<Rightarrow> ptr \<Rightarrow> ptr \<Rightarrow> 'f sfs \<Rightarrow> (errcode \<times> 'f sfs) option" where
  "sfs_rename E old_dentry new_dentry s =
     do { i \<leftarrow> d_inode (dents s old_dentry);
          if S_ISDIR (i_mode i) then sfs_rename_dir E old_dentry new_dentry s
          else sfs_rename_other E old_dentry new_dentry s }"

end
