(* ===== verification/Sfs_Moves.thy ===== *)
theory Sfs_Moves
  imports Sfs_Names Sfs_Rename
begin

text \<open>
  Properties of renaming in SFS.  Both are about what is left when the rename of a file or a directory ends with an error: the
  links of the existing file are not restored, and a directory is moved although the call fails.
\<close>

section \<open>Links of a replica\<close>

text \<open>The attribute of an inode holds the text of the links \<open>v\<close> in \<open>n\<close> bytes.\<close>

definition stored :: "'f part_view \<Rightarrow> 'f \<Rightarrow> inode \<Rightarrow> int list \<Rightarrow> nat \<Rightarrow> bool" where
  "stored V f i v n \<longleftrightarrow>
     (\<exists>b. xattr V f (i_ino i) META = Some b \<and> length b = n \<and> (\<forall>x. c_string (b @ x) = Some (fmt v)))"

text \<open>Attributes can be written.\<close>

definition writable :: "'f sfs_env \<Rightarrow> bool" where
  "writable E \<longleftrightarrow> (\<forall>i k v f. fst (vfs_setxattr (op_xattr E) i k v f) = 0)"

lemma set_law:
  assumes "xattr_law E V" and "writable E"
  obtains f' where "vfs_setxattr (op_xattr E) i k v f = (0, f')" "entry V f' = entry V f"
    "xattr V f' = (xattr V f)(i_ino i := (xattr V f (i_ino i))(k \<mapsto> v))"
proof -
  obtain f' where f': "vfs_setxattr (op_xattr E) i k v f = (0, f')"
    using assms(2) by (metis writable_def prod.collapse)
  then have "entry V f' = entry V f \<and> xattr V f' = (xattr V f)(i_ino i := (xattr V f (i_ino i))(k \<mapsto> v))"
    using assms(1) unfolding xattr_law_def by (metis (mono_tags))
  then show thesis using that f' by blast
qed

lemma get_law:
  assumes "xattr_law E V" and "xattr V f (i_ino i) k = Some b" and "length b \<le> n"
  shows "vfs_getxattr (op_xattr E) i k n f = (int (length b), b)" "generic_getxattr (op_xattr E) i k n f = (int (length b), b)"
  using assms(1) [unfolded xattr_law_def, THEN conjunct2, THEN spec [of _ i], THEN spec [of _ k], THEN spec [of _ n], THEN spec [of _ f]]
    assms(2,3) by simp_all

lemma get_links_stored:
  assumes "xattr_law E V" and "d_inode (dents s p) = Some i" and "stored V (parts s) i v n" and "links v" and "0 < n" and "n \<le> 20"
    and "length w = 4"
  shows "get_links E p w s = Some (int n, v)"
proof -
  obtain b where b: "xattr V (parts s) (i_ino i) META = Some b" "length b = n" "\<And>x. c_string (b @ x) = Some (fmt v)"
    using assms(3) by (auto simp: stored_def)
  have "get (op_xattr E) (stack_junk E) i META w (parts s) = Some (int (length b), v)"
    by (rule get_stored [OF assms(4,7) b(3)]) (use get_law(1) [OF assms(1) b(1), of 20] b(2) assms(5,6) in simp_all)
  then show ?thesis using assms(2) b(2) by (simp add: get_links_def)
qed

text \<open>A write to one inode leaves the links of the others.\<close>

definition wrote :: "'f part_view \<Rightarrow> inode \<Rightarrow> 'f \<Rightarrow> 'f \<Rightarrow> bool" where
  "wrote V i f f' \<longleftrightarrow> entry V f' = entry V f \<and> (\<forall>j. j \<noteq> i_ino i \<longrightarrow> xattr V f' j = xattr V f j)"

lemma stored_other: "wrote V i f f' \<Longrightarrow> i_ino j \<noteq> i_ino i \<Longrightarrow> stored V f' j v n = stored V f j v n"
  by (simp add: wrote_def stored_def)

lemma put_links_stored:
  assumes "xattr_law E V" and "writable E" and "d_inode (dents s p) = Some i" and "links v"
  shows "\<exists>f. put_links E p v s = Some (0, s\<lparr>parts := f\<rparr>) \<and> stored V f i v 15 \<and> wrote V i (parts s) f"
proof -
  obtain b where b: "sprintf (stack_buf (stack_junk E) 15) (fmt v) = Some b" "length b = 15" "\<And>x. c_string (b @ x) = Some (fmt v)"
    using fits [OF assms(4), of "stack_buf (stack_junk E) 15"] by auto
  obtain f where f: "vfs_setxattr (op_xattr E) i META b (parts s) = (0, f)" "entry V f = entry V (parts s)"
    "xattr V f = (xattr V (parts s))(i_ino i := (xattr V (parts s) (i_ino i))(META \<mapsto> b))"
    by (rule set_law [OF assms(1,2)])
  have "put (op_xattr E) (stack_junk E) i META v (parts s) = Some (0, f)" using b(1) f(1) by (simp add: put_def)
  then show ?thesis using assms(3) f(2,3) b(2,3) by (auto simp: put_links_def stored_def wrote_def)
qed

lemma modify_link_stored:
  assumes "xattr_law E V" and "writable E" and "d_inode (dents s p) = Some i" and "links v" and "stored V (parts s) i v n"
    and "links (v[k := x])" and "0 < n" and "n \<le> 20"
  shows "\<exists>f. modify_link E p x k s = Some (0, s\<lparr>parts := f\<rparr>) \<and> stored V f i (v[k := x]) 20 \<and> wrote V i (parts s) f"
proof -
  obtain b where b: "xattr V (parts s) (i_ino i) META = Some b" "length b = n" "\<And>x. c_string (b @ x) = Some (fmt v)"
    using assms(5) by (auto simp: stored_def)
  have g: "generic_getxattr (op_xattr E) i META 20 (parts s) = (int n, b)" using get_law(2) [OF assms(1) b(1), of 20] b(2) assms(8) by simp
  have "scan (fmt v) no_links = v" using assms(4) by (intro scan_fmt) (auto simp: links_def no_links_def)
  then have r: "read_links (int n, b) (stack_buf (stack_junk E) 20) no_links = Some v"
    using b(3) assms(7) by (simp add: read_links_def fill_buf_def)
  have l: "length (fill_buf b (stack_buf (stack_junk E) 20)) = 20" using b(2) assms(8) by (simp add: fill_buf_def)
  obtain c where c: "sprintf (fill_buf b (stack_buf (stack_junk E) 20)) (fmt (v[k := x])) = Some c" "length c = 20"
    "\<And>z. c_string (c @ z) = Some (fmt (v[k := x]))"
    using fits [OF assms(6), of "fill_buf b (stack_buf (stack_junk E) 20)"] l by auto
  obtain f where f: "vfs_setxattr (op_xattr E) i META c (parts s) = (0, f)" "entry V f = entry V (parts s)"
    "xattr V f = (xattr V (parts s))(i_ino i := (xattr V (parts s) (i_ino i))(META \<mapsto> c))"
    by (rule set_law [OF assms(1,2)])
  have "modify (op_xattr E) (stack_junk E) i META x k (parts s) = Some (0, f)" using g r c(1) f(1) by (simp add: modify_def)
  then show ?thesis using assms(3) f(2,3) c(2,3) by (auto simp: modify_link_def stored_def wrote_def)
qed

section \<open>A failed rename onto a partitioned file\<close>

text \<open>The file \<open>old\<close> on partition \<open>p_o\<close>, and the name \<open>new\<close> of a file with its data \<open>g\<close> on partition \<open>p_r\<close> and its meta file \<open>h\<close> on
  partition \<open>p_m\<close>, three different partitions, in a directory that is normal on \<open>p_o\<close>.  The attribute of the meta file
  points to the data, the attribute of the data to the meta file.\<close>

definition over_partitioned ::
  "'f sfs_env \<Rightarrow> 'f part_view \<Rightarrow> ptr \<Rightarrow> ptr \<Rightarrow> nat \<Rightarrow> nat \<Rightarrow> nat \<Rightarrow> ptr \<Rightarrow> ptr \<Rightarrow> ptr \<Rightarrow> inode \<Rightarrow> inode \<Rightarrow> inode \<Rightarrow> 'f sfs \<Rightarrow> bool" where
  "over_partitioned E V old new p_o p_r p_m po h g io ih ig s \<longleftrightarrow>
     p_o < replica_count E \<and> p_r < replica_count E \<and> p_m < replica_count E \<and> replica_count E \<le> 64 \<and> p_o \<noteq> p_r \<and> p_o \<noteq> p_m \<and> p_r \<noteq> p_m \<and>
     (\<exists>fd. d_fsdata (dents s old) = Some fd \<and> replica_id fd = int p_o \<and> meta_id fd = - 1 \<and> replicas fd p_o = Some po) \<and>
     (\<exists>fd. d_fsdata (dents s new) = Some fd \<and> replica_id fd = int p_r \<and> meta_id fd = int p_m \<and> replicas fd p_m = Some h \<and>
        replicas fd p_r = Some g \<and> replicas fd p_o \<noteq> None) \<and>
     (\<exists>pd. d_fsdata (dents s (d_parent (dents s old))) = Some pd \<and> inode_of s (replicas pd p_o) \<noteq> None) \<and>
     (\<exists>pd. d_fsdata (dents s (d_parent (dents s new))) = Some pd \<and> inode_of s (replicas pd p_o) \<noteq> None \<and> bit (normal_dir_map pd) p_o) \<and>
     d_inode (dents s po) = Some io \<and> d_inode (dents s h) = Some ih \<and> d_inode (dents s g) = Some ig \<and> i_ino io \<noteq> i_ino ih \<and>
     stored V (parts s) ih (no_pointer[POINTER := int p_r]) 15 \<and> stored V (parts s) ig (no_pointer[POINTER := int p_m]) 15"

lemma one_link: "- 9 \<le> x \<Longrightarrow> x \<le> 99 \<Longrightarrow> links (no_pointer[k := x])"
proof -
  assume x: "- 9 \<le> x" "x \<le> 99"
  have n: "length no_pointer = 4" "set no_pointer = {- 1}" by (simp_all add: no_pointer_def)
  then show ?thesis using x set_update_subset_insert [of no_pointer k x] by (auto simp: links_def)
qed

lemma rename_over_fails:
  assumes "xattr_law E V" and "writable E" and "\<And>dir n i dir1 n1 f. op_rename E dir n i dir1 n1 f = (e, f)" and "e \<noteq> 0"
    and "\<not> overwritten P" and "hidden_of P = (Some h, x)" and "- 9 \<le> x" and "x \<le> 99" and "- 9 \<le> old_id P" and "old_id P \<le> 99"
    and "d_inode (dents s (old_rep P)) = Some io" and "d_inode (dents s h) = Some ih" and "i_ino io \<noteq> i_ino ih"
    and "inode_of s (old_rep_parent P) \<noteq> None" and "d_inode (dents s (new_rep_parent P)) \<noteq> None"
  shows "\<exists>f. rename_over_normal E od P s = Some (e, s\<lparr>parts := f\<rparr>) \<and> stored V f ih no_pointer 20"
proof -
  let ?a = "no_pointer[STALE := x]" and ?b = "no_pointer[HIDDEN := old_id P]"
  have l: "links ?a" "links ?b" "links (?a[STALE := - 1])" "links (?b[HIDDEN := - 1])"
    using one_link assms(7-10) by (simp_all add: one_link)
  have bk: "?b[HIDDEN := - 1] = no_pointer" by (simp add: no_pointer_def HIDDEN_def)
  obtain f1 where f1: "put_links E (old_rep P) ?a s = Some (0, s\<lparr>parts := f1\<rparr>)" "stored V f1 io ?a 15"
    using put_links_stored [OF assms(1,2,11) l(1)] by blast
  obtain f2 where f2: "put_links E h ?b (s\<lparr>parts := f1\<rparr>) = Some (0, s\<lparr>parts := f2\<rparr>)" "stored V f2 ih ?b 15" "wrote V ih f1 f2"
    using put_links_stored [OF assms(1,2), of "s\<lparr>parts := f1\<rparr>" h ih ?b] assms(12) l(2) by auto
  have s2: "stored V f2 io ?a 15" using stored_other [OF f2(3)] assms(13) f1(2) by blast
  obtain f3 where f3: "modify_link E (old_rep P) (- 1) STALE (s\<lparr>parts := f2\<rparr>) = Some (0, s\<lparr>parts := f3\<rparr>)" "wrote V io f2 f3"
    using modify_link_stored [OF assms(1,2), of "s\<lparr>parts := f2\<rparr>" "old_rep P" io ?a 15 STALE "- 1"] assms(11) l(1,3) s2 by auto
  have s3: "stored V f3 ih ?b 15" using stored_other [OF f3(2), of ih] assms(13) f2(2) by metis
  obtain f4 where f4: "modify_link E h (- 1) HIDDEN (s\<lparr>parts := f3\<rparr>) = Some (0, s\<lparr>parts := f4\<rparr>)" "stored V f4 ih (?b[HIDDEN := - 1]) 20"
    using modify_link_stored [OF assms(1,2), of "s\<lparr>parts := f3\<rparr>" h ih ?b 15 HIDDEN "- 1"] assms(12) l(2,4) s3 by auto
  have m: "mark_exist E P s = Some (0, s\<lparr>parts := f2\<rparr>)" using f1(1) f2(1) assms(5,6) by (simp add: mark_exist_def)
  have r: "part_rename E (old_rep_parent P) (old_rep P) (new_rep_parent P) (new_rep P) (s\<lparr>parts := f2\<rparr>) = Some (e, s\<lparr>parts := f2\<rparr>)"
    using assms(3,11,14,15) by (auto simp: part_rename_def inode_of_def bind_eq_Some_conv)
  have "unmark_exist E P (s\<lparr>parts := f2\<rparr>) = Some (s\<lparr>parts := f4\<rparr>)" using f3(1) f4(1) assms(5,6) by (simp add: unmark_exist_def)
  then show ?thesis using m r assms(4) f4(2) unfolding bk by (intro exI [of _ f4]) (simp add: rename_over_normal_def)
qed

lemma new_replica_known:
  assumes "p_o < replica_count E" and "p_o < 64" and "d_fsdata (dents s (d_parent (dents s new))) = Some pd" and "replicas pd p_o = Some nrp"
    and "d_inode (dents s nrp) \<noteq> None" and "bit (normal_dir_map pd) p_o" and "d_fsdata (dents s new) = Some fd" and "replicas fd p_o = Some nr"
  shows "new_replica E new (int p_o) s = Some (True, Inr (nrp, nr), s)"
  using assms by (auto simp: Let_def new_replica_def can_turn2normal_def test_bitmap_bit create_replica_dir_def find_replica_dentry_def inode_of_def
      set_normal_dir_def get_replica_dentry_def)

text \<open>A pair of meta file and data file that point to each other is validated as it is: the data is on \<open>p_r\<close>.\<close>

lemma validate_pointed:
  assumes "xattr_law E V" and "over_partitioned E V old new p_o p_r p_m po h g io ih ig s"
  shows "\<exists>s0 fd. validate_file E new s = Some (0, s0) \<and> d_fsdata (dents s0 new) = Some fd \<and> replica_id fd = int p_r \<and>
    meta_id fd = int p_m \<and> parts s0 = parts s"
proof -
  have b: "p_r < replica_count E" "p_m < replica_count E" "replica_count E \<le> 64"
    "d_inode (dents s h) = Some ih" "d_inode (dents s g) = Some ig"
    "stored V (parts s) ih (no_pointer[POINTER := int p_r]) 15" "stored V (parts s) ig (no_pointer[POINTER := int p_m]) 15"
    using assms(2) unfolding over_partitioned_def by simp_all
  obtain nfd npd where
    n: "d_fsdata (dents s new) = Some nfd" "replica_id nfd = int p_r" "meta_id nfd = int p_m" "replicas nfd p_m = Some h" "replicas nfd p_r = Some g"
    and d: "d_fsdata (dents s (d_parent (dents s new))) = Some npd"
    using assms(2) unfolding over_partitioned_def by auto
  have g: "get_links E h no_pointer s = Some (15, no_pointer[POINTER := int p_r])"
    "get_links E g no_pointer s = Some (15, no_pointer[POINTER := int p_m])"
    using get_links_stored [OF assms(1) b(4) b(6), of no_pointer] get_links_stored [OF assms(1) b(5) b(7), of no_pointer] b(1-3)
      one_link [of "int p_r" POINTER] one_link [of "int p_m" POINTER] by (simp_all add: no_pointer_def)
  have "replica_at E (d_parent (dents s new)) new (int p_r) s = Some (replicas npd p_r, g, s)"
    using n d b(1) by (simp add: replica_at_def find_replica_dentry_def get_replica_dentry_def deref_def)
  then have "validate_file E new s = Some (0, set_meta_id new (int p_m) (set_replica_id new (int p_r) (d_add_replica new g p_r s)))"
    using n b g
    by (simp add: validate_file_def validate_partitioned_file_def find_replica_dentry_def Let_def next_condition_def
        validate_pointer_def no_pointer_def POINTER_def RENAME_def HIDDEN_def STALE_def)
  then show ?thesis using n(1) by (simp add: set_meta_id_def set_replica_id_def d_add_replica_def upd_fsdata_def upd_dentry_def)
qed

text \<open>C39. A rename onto a partitioned file that fails on the partition loses the file.  Take a file on one partition and a
  target with its meta file and its data on two others, the meta file pointing to the data.  Before the rename, validation
  finds the data.  Hiding the meta file overwrites its pointer, the revert does not bring the pointer back, and the next
  validation takes the empty meta file for the data.\<close>

theorem rename_fail_loses_data:
  assumes "xattr_law E V" and "writable E" and "\<forall>dir n i dir1 n1 f. op_rename E dir n i dir1 n1 f = (e, f)" and "e \<noteq> 0"
    and "over_partitioned E V old new p_o p_r p_m po h g io ih ig s"
  shows "(\<exists>s0 fd. validate_file E new s = Some (0, s0) \<and> d_fsdata (dents s0 new) = Some fd \<and> replica_id fd = int p_r) \<and>
    (\<exists>s1 s2 fd. rename2exist E old new s = Some (e, s1) \<and> validate_file E new s1 = Some (0, s2) \<and>
      d_fsdata (dents s2 new) = Some fd \<and> replica_id fd = int p_m) \<and> p_m \<noteq> p_r"
proof -
  have b: "p_o < replica_count E" "p_r < replica_count E" "p_m < replica_count E" "replica_count E \<le> 64" "p_o \<noteq> p_r" "p_o \<noteq> p_m"
    "d_inode (dents s po) = Some io" "d_inode (dents s h) = Some ih" "i_ino io \<noteq> i_ino ih"
    using assms(5) unfolding over_partitioned_def by simp_all
  obtain ofd nfd opd npd orp nrp nr where
    o: "d_fsdata (dents s old) = Some ofd" "replica_id ofd = int p_o" "meta_id ofd = - 1" "replicas ofd p_o = Some po" and
    n: "d_fsdata (dents s new) = Some nfd" "replica_id nfd = int p_r" "meta_id nfd = int p_m" "replicas nfd p_m = Some h" "replicas nfd p_o = Some nr" and
    d: "d_fsdata (dents s (d_parent (dents s old))) = Some opd" "replicas opd p_o = Some orp" "d_inode (dents s orp) \<noteq> None"
      "d_fsdata (dents s (d_parent (dents s new))) = Some npd" "replicas npd p_o = Some nrp" "d_inode (dents s nrp) \<noteq> None" "bit (normal_dir_map npd) p_o"
    using assms(5) unfolding over_partitioned_def by (auto simp: inode_of_def bind_eq_Some_conv)
  have nr: "new_replica E new (int p_o) s = Some (True, Inr (nrp, nr), s)"
    by (rule new_replica_known [OF b(1) _ d(4,5,6,7) n(1,5)]) (use b(1,4) in simp)
  let ?P = "\<lparr>old_id = int p_o, old_meta = - 1, old_rep = po, old_rep_parent = Some orp, old_meta_rep = None, old_meta_parent = None,
    exist_id = int p_r, exist_meta = int p_m, exist_rep = replicas nfd p_r, exist_rep_parent = replicas npd p_r, exist_meta_rep = Some h,
    exist_meta_parent = replicas npd p_m, new_rep = nr, new_rep_parent = nrp\<rparr>"
  have "\<exists>f. rename_over_normal E old ?P s = Some (e, s\<lparr>parts := f\<rparr>) \<and> stored V f ih no_pointer 20"
    by (rule rename_over_fails [OF assms(1,2) _ assms(4), where h = h and x = "int p_m" and io = io])
      (use assms(3) b d(3,6) in \<open>auto simp: overwritten_def hidden_of_def inode_of_def\<close>)
  then obtain f where f: "rename_over_normal E old ?P s = Some (e, s\<lparr>parts := f\<rparr>)" "stored V f ih no_pointer 20" by blast
  have "rename2exist E old new s = Some (e, s\<lparr>parts := f\<rparr>)"
    using o n d b nr f(1) assms(4)
    by (simp add: rename2exist_def list_first_replica_dentry_def find_replica_dentry_def find_if_def)
  moreover have "get_links E h no_pointer (s\<lparr>parts := f\<rparr>) = Some (20, no_pointer)"
    using get_links_stored [OF assms(1), of "s\<lparr>parts := f\<rparr>" h ih no_pointer 20 no_pointer] b(8) f(2) by (simp add: links_def no_pointer_def)
  then have "validate_file E new (s\<lparr>parts := f\<rparr>) = Some (0, set_replica_id new (int p_m) (s\<lparr>parts := f\<rparr>))"
    using n b(3) by (simp add: validate_file_def validate_partitioned_file_def find_replica_dentry_def Let_def next_condition_def
        validate_pointer_def no_pointer_def POINTER_def RENAME_def HIDDEN_def STALE_def)
  ultimately have "\<exists>s1 s2 fd. rename2exist E old new s = Some (e, s1) \<and> validate_file E new s1 = Some (0, s2) \<and>
      d_fsdata (dents s2 new) = Some fd \<and> replica_id fd = int p_m"
    using n(1) by (simp add: set_replica_id_def)
  moreover have "p_m \<noteq> p_r" using assms(5) unfolding over_partitioned_def by simp
  ultimately show ?thesis using validate_pointed [OF assms(1,5)] by blast
qed

section \<open>Renaming a directory\<close>

definition rename_law :: "'f sfs_env \<Rightarrow> 'f part_view \<Rightarrow> bool" where
  "rename_law E V \<longleftrightarrow>
     (\<forall>dir n i dir1 n1 f f'. op_rename E dir n i dir1 n1 f = (0, f') \<longrightarrow> home V (i_ino i) = home V (i_ino dir1) \<longrightarrow>
        entry V f' (i_ino dir1) n1 = Some i)"

text \<open>A directory \<open>old\<close> with one replica \<open>p\<close>, on the first normal partition \<open>k\<close> of its parent, and a new short name \<open>new\<close> in the same
  parent that exists nowhere.\<close>

definition dir_at :: "'f sfs_env \<Rightarrow> 'f part_view \<Rightarrow> ptr \<Rightarrow> ptr \<Rightarrow> nat \<Rightarrow> ptr \<Rightarrow> ptr \<Rightarrow> inode \<Rightarrow> inode \<Rightarrow> 'f sfs \<Rightarrow> bool" where
  "dir_at E V old new k p rp i b s \<longleftrightarrow> heap_ok V s \<and> k < replica_count E \<and> replica_count E \<le> 64 \<and>
     d_parent (dents s new) = d_parent (dents s old) \<and> d_parent (dents s old) \<noteq> new \<and> old \<noteq> new \<and> rp \<noteq> p \<and>
     d_inode (dents s old) \<noteq> None \<and> d_inode (dents s new) = None \<and>
     (\<exists>fd. d_fsdata (dents s old) = Some fd \<and> replicas fd = (\<lambda>_. None)(k := Some p)) \<and>
     (\<exists>fd. d_fsdata (dents s new) = Some fd \<and> replicas fd = (\<lambda>_. None)) \<and>
     (\<exists>pd. d_fsdata (dents s (d_parent (dents s old))) = Some pd \<and> replicas pd k = Some rp \<and> bit (normal_dir_map pd) k \<and>
        first_normal_dir_id pd = int k) \<and>
     d_inode (dents s p) = Some i \<and> d_inode (dents s rp) = Some b \<and> entry V (parts s) (i_ino b) (d_name (dents s new)) = None \<and>
     length (d_name (dents s p)) < DNAME_INLINE_LEN \<and> length (d_name (dents s new)) < DNAME_INLINE_LEN"

lemma dir_at_home: "dir_at E V old new k p rp i b s \<Longrightarrow> home V (i_ino i) = home V (i_ino b)"
proof -
  assume d: "dir_at E V old new k p rp i b s"
  then obtain fd pd where h: "heap_ok V s" and fd: "d_fsdata (dents s old) = Some fd" "replicas fd k = Some p"
    and pd: "d_fsdata (dents s (d_parent (dents s old))) = Some pd" "replicas pd k = Some rp" unfolding dir_at_def by auto
  have "rep_ok V k (dents s p)" "rep_ok V k (dents s rp)" by (rule heap_okD(4) [OF h fd], rule heap_okD(4) [OF h pd])
  then show ?thesis using d by (simp add: dir_at_def rep_ok_def)
qed

lemma upd_fsdata_same:
  assumes "d_fsdata (dents s d) = Some fd" and "g fd = fd"
  shows "upd_fsdata d g s = s"
proof -
  have "(dents s d)\<lparr>d_fsdata := map_option g (d_fsdata (dents s d))\<rparr> = dents s d" using assms by (cases "dents s d") simp
  then have "(dents s)(d := (dents s d)\<lparr>d_fsdata := map_option g (d_fsdata (dents s d))\<rparr>) = dents s" by (metis fun_upd_triv)
  then show ?thesis unfolding upd_fsdata_def upd_dentry_def by (simp only:) simp
qed

lemma rename_dirs_skip:
  assumes "d_fsdata (dents s old) = Some fd" and "\<And>j. j \<in> set ks \<Longrightarrow> replicas fd j = None \<and> j < replica_count E"
  shows "rename_dirs E old new (ks @ ks') s = rename_dirs E old new ks' s"
  using assms(2)
proof (induction ks)
  case (Cons j ks)
  have "(replicas fd)(j := None) = replicas fd" using Cons.prems by (simp add: fun_upd_idem)
  then have "upd_fsdata old (\<lambda>x. x\<lparr>replicas := (replicas x)(j := None)\<rparr>) s = s" using upd_fsdata_same [OF assms(1)] by simp
  then show ?case using Cons assms(1) by (simp add: find_replica_dentry_def inode_of_def)
qed simp

lemma lookup_one_len_calm:
  assumes "lookup_law E V" and "calm E" and "rp < fresh s" and "d_inode (dents s rp) = Some b"
  shows "\<exists>s1. sfs_lookup_one_len E n (Some rp) s = Some (Inr (fresh s), s1) \<and> parts s1 = parts s \<and>
    dents s1 = (dents s)(rp := (dents s rp)\<lparr>d_count := d_count (dents s rp) + 1\<rparr>,
      fresh s := looked_up rp (d_sb (dents s rp)) n (entry V (parts s) (i_ino b) n))"
proof -
  obtain s0 where a: "d_alloc E rp n s = (Some (fresh s), s0)" using assms(2) by (simp add: d_alloc_def kalloc_def calm_def)
  let ?s = "d_add (fresh s) (entry V (parts s0) (i_ino b) (d_name (dents s0 (fresh s)))) s0"
  have l: "sfs_lookup_one_len E n (Some rp) s = Some (Inr (fresh s), ?s)"
    using a assms(4) part_lookup_calm [OF assms(1,2)] by (simp add: sfs_lookup_one_len_def)
  from lookup_one_len_new [OF assms(1) l assms(3)] assms(4) show ?thesis using l by auto
qed

lemma rename_dirs_step:
  assumes "parts_ok E V" and "calm E" and "dir_at E V old new k p rp i b s" and "\<not> rename_does_d_move E b"
    and "op_rename E b (d_name (dents s p)) i b (d_name (dents s new)) (parts s) = (0, f)"
  shows "\<exists>s1. rename_dirs E old new (k # ks) s = rename_dirs E old new ks s1 \<and> parts s1 = f \<and>
    (\<forall>q < fresh s. q \<noteq> p \<longrightarrow> q \<noteq> new \<longrightarrow> d_fsdata (dents s1 q) = d_fsdata (dents s q) \<and> d_inode (dents s1 q) = d_inode (dents s q)) \<and>
    d_parent (dents s1 new) = d_parent (dents s new) \<and> d_parent (dents s1 old) = d_parent (dents s old) \<and>
    (\<exists>q. find_replica_dentry E new (int k) s1 = Some (Some q) \<and> d_inode (dents s1 q) = None \<and> d_name (dents s1 q) = d_name (dents s new))"
proof -
  have a: "heap_ok V s" "k < replica_count E" "d_parent (dents s new) = d_parent (dents s old)" "d_parent (dents s old) \<noteq> new" "old \<noteq> new"
    "rp \<noteq> p" "d_inode (dents s p) = Some i" "d_inode (dents s rp) = Some b" "entry V (parts s) (i_ino b) (d_name (dents s new)) = None"
    "length (d_name (dents s p)) < DNAME_INLINE_LEN" "length (d_name (dents s new)) < DNAME_INLINE_LEN"
    using assms(3) unfolding dir_at_def by simp_all
  obtain fd nfd pd where fd: "d_fsdata (dents s old) = Some fd" "replicas fd = (\<lambda>_. None)(k := Some p)"
    and n: "d_fsdata (dents s new) = Some nfd" "replicas nfd = (\<lambda>_. None)"
    and P: "d_fsdata (dents s (d_parent (dents s old))) = Some pd" "replicas pd k = Some rp"
    using assms(3) unfolding dir_at_def by blast
  have l: "lookup_law E V" using assms(1) by (simp add: parts_ok_def)
  have lt: "rp < fresh s" "p < fresh s" "old < fresh s" "new < fresh s" "d_parent (dents s old) < fresh s"
    using heap_okD(3) [OF a(1) P] heap_okD(3) [OF a(1) fd(1)] fd(2) heap_okD(1) [OF a(1)] fd(1) n(1) P(1) by auto
  have pn: "p \<noteq> new" "p \<noteq> old" "rp \<noteq> new" "rp \<noteq> old"
    using heap_okD(4) [OF a(1) fd(1), of k p] heap_okD(4) [OF a(1) P] fd n(1) by (auto simp: rep_ok_def)
  obtain s0 where s0: "sfs_lookup_one_len E (d_name (dents s new)) (Some rp) s = Some (Inr (fresh s), s0)" "parts s0 = parts s"
    "dents s0 = (dents s)(rp := (dents s rp)\<lparr>d_count := d_count (dents s rp) + 1\<rparr>,
      fresh s := looked_up rp (d_sb (dents s rp)) (d_name (dents s new)) None)"
    using lookup_one_len_calm [OF l assms(2) lt(1) a(8), of "d_name (dents s new)"] a(9) by auto
  let ?q = "fresh s" and ?s2 = "d_add_replica new (fresh s) k s0"
  have g: "get_replica_dentry E (Some rp) new (int k) s = Some (Inr ?q, ?s2)"
    using n s0(1) a(2) heap_okD(2) [OF a(1) n(1)] by (simp add: get_replica_dentry_def find_replica_dentry_def)
  have c: "create_replica_dir E (d_parent (dents s new)) (int k) CLONE_SHADOW s = Some (Inr rp, s)"
    using P a(2,3,8) by (simp add: create_replica_dir_def find_replica_dentry_def inode_of_def)
  let ?s3 = "?s2\<lparr>parts := f\<rparr>"
  have r: "part_rename E (Some rp) p rp ?q ?s2 = Some (0, ?s3)"
    using assms(5) a(6-8) s0(2,3) lt pn by (simp add: part_rename_def inode_of_def d_add_replica_def looked_up_def)
  have e: "rename_dirs E old new (k # ks) s = rename_dirs E old new ks (d_move p ?q ?s3)"
    using fd P a(2,7,8) c g r assms(4) by (simp add: find_replica_dentry_def inode_of_def deref_def)
  have nm: "\<not> dname_external (dents ?s3 p)" "\<not> dname_external (dents ?s3 ?q)"
    using a(10,11) s0(3) lt pn by (auto simp: dname_external_def d_add_replica_def looked_up_def)
  let ?s = "d_move p ?q ?s3"
  have s3: "\<And>x. x < fresh s \<Longrightarrow> x \<noteq> new \<Longrightarrow> d_fsdata (dents ?s3 x) = d_fsdata (dents s x)" "\<And>x. x < fresh s \<Longrightarrow> d_inode (dents ?s3 x) = d_inode (dents s x)"
    "\<And>x. x < fresh s \<Longrightarrow> d_parent (dents ?s3 x) = d_parent (dents s x)" "parts ?s3 = f"
    "d_inode (dents ?s3 ?q) = None" "d_name (dents ?s3 ?q) = d_name (dents s new)"
    "d_fsdata (dents ?s3 new) = Some (nfd\<lparr>replicas := (\<lambda>_. None)(k := Some ?q)\<rparr>)"
    using s0(3) lt n pn(3) by (auto simp: d_add_replica_def looked_up_def)
  have m: "\<And>x. x \<noteq> p \<Longrightarrow> x \<noteq> ?q \<Longrightarrow> dents ?s x = dents ?s3 x" "parts ?s = parts ?s3" "d_inode (dents ?s ?q) = d_inode (dents ?s3 ?q)"
    "d_name (dents ?s ?q) = d_name (dents ?s3 ?q)"
    using nm lt(2) by (simp_all add: d_move_def switch_names_def Let_def)
  show ?thesis
    using e m s3 lt pn a(2) by (intro exI [of _ ?s] conjI exI [of _ ?q]) (auto simp: find_replica_dentry_def)
qed

text \<open>The new entry that is made behind the loop.\<close>

lemma add_existing_dir:
  assumes "mkdir_law E V" and "op_mkdir E b = Some c" and "k < replica_count E" and "d_fsdata (dents s (d_parent (dents s new))) = Some pd"
    and "replicas pd k = Some rp" and "bit (normal_dir_map pd) k" and "d_inode (dents s rp) = Some b"
    and "find_replica_dentry E new (int k) s = Some (Some q)" and "d_inode (dents s q) = None"
    and "entry V (parts s) (i_ino b) (d_name (dents s q)) = Some i"
  shows "\<exists>e s1. simple_add_dir_entry E new mode (int k) CLONE_NORMAL s = Some (e, s1) \<and> e < 0 \<and> same_view V (parts s) (parts s1)"
proof -
  have c: "create_replica_dir E (d_parent (dents s new)) (int k) CLONE_NORMAL s = Some (Inr rp, s)"
    using assms(3-7) by (simp add: create_replica_dir_def find_replica_dentry_def inode_of_def set_normal_dir_def test_bitmap_bit)
  have law: "case c (d_name (dents s q)) mode (parts s) of
      (Inl e, f) \<Rightarrow> e < 0 \<and> same_view V (parts s) f
    | (Inr j, f) \<Rightarrow> new_object V (i_ino b) (d_name (dents s q)) (parts s) j f \<and> S_ISDIR (i_mode j)"
    by (rule assms(1) [unfolded mkdir_law_def, rule_format, OF assms(2)])
  then obtain e f where e: "c (d_name (dents s q)) mode (parts s) = (Inl e, f)" "e < 0" "same_view V (parts s) f"
    using assms(10) by (auto simp: new_object_def split: prod.splits sum.splits)
  then show ?thesis
    using c assms(2,7-9) by (simp add: simple_add_dir_entry_def inode_of_def get_replica_dentry_def made_def)
qed

lemma upt_split: "k < n \<Longrightarrow> [0..<n] = [0..<k] @ k # [Suc k..<n]"
  using upt_add_eq_append [of 0 k "n - k"] upt_conv_Cons [of k n] by simp

lemma rename_dirs_whole:
  assumes "parts_ok E V" and "calm E" and "dir_at E V old new k p rp i b s" and "\<not> rename_does_d_move E b"
    and "op_rename E b (d_name (dents s p)) i b (d_name (dents s new)) (parts s) = (0, f)"
    and "d_fsdata (dents s (d_parent (dents s old))) = Some pd"
  shows "\<exists>s1 q. rename_dirs E old new [0..<replica_count E] s = Some (0, s1) \<and> parts s1 = f \<and>
    d_fsdata (dents s1 (d_parent (dents s old))) = Some pd \<and> d_inode (dents s1 rp) = Some b \<and> d_parent (dents s1 new) = d_parent (dents s old) \<and>
    find_replica_dentry E new (int k) s1 = Some (Some q) \<and> d_inode (dents s1 q) = None \<and> d_name (dents s1 q) = d_name (dents s new)"
proof -
  let ?P = "d_parent (dents s old)"
  have a: "heap_ok V s" "k < replica_count E" "d_parent (dents s new) = ?P" "?P \<noteq> new" "old \<noteq> new" "rp \<noteq> p" "d_inode (dents s rp) = Some b"
    using assms(3) unfolding dir_at_def by simp_all
  obtain fd where fd: "d_fsdata (dents s old) = Some fd" "replicas fd = (\<lambda>_. None)(k := Some p)"
    and nfd: "d_fsdata (dents s new) \<noteq> None" and P: "replicas pd k = Some rp"
    using assms(3,6) unfolding dir_at_def by auto
  obtain s1 q where s1: "rename_dirs E old new (k # [Suc k..<replica_count E]) s = rename_dirs E old new [Suc k..<replica_count E] s1" "parts s1 = f"
    "\<And>x. x < fresh s \<Longrightarrow> x \<noteq> p \<Longrightarrow> x \<noteq> new \<Longrightarrow> d_fsdata (dents s1 x) = d_fsdata (dents s x) \<and> d_inode (dents s1 x) = d_inode (dents s x)"
    "d_parent (dents s1 new) = ?P" "find_replica_dentry E new (int k) s1 = Some (Some q)" "d_inode (dents s1 q) = None"
    "d_name (dents s1 q) = d_name (dents s new)"
    using rename_dirs_step [OF assms(1-5), of "[Suc k..<replica_count E]"] a(3) by auto
  have rp: "rep_ok V k (dents s p)" "rep_ok V k (dents s rp)" "rp < fresh s"
    using heap_okD(4) [OF a(1) fd(1)] fd(2) heap_okD(3,4) [OF a(1) assms(6) P] by auto
  have ne: "old \<noteq> p" "?P \<noteq> p" "rp \<noteq> new" using rp fd(1) assms(6) nfd by (auto simp: rep_ok_def)
  have lt: "old < fresh s" "?P < fresh s" using heap_okD(1) [OF a(1)] fd(1) assms(6) by blast+
  have k1: "d_fsdata (dents s1 old) = Some fd" "d_fsdata (dents s1 ?P) = Some pd" "d_inode (dents s1 rp) = Some b"
    using s1(3) lt rp(3) ne a fd(1) assms(6) by auto
  have "rename_dirs E old new [0..<replica_count E] s = Some (0, s1)"
    using rename_dirs_skip [OF fd(1), of "[0..<k]" E new "k # [Suc k..<replica_count E]"] fd(2) a(2) s1(1)
      rename_dirs_skip [OF k1(1), of "[Suc k..<replica_count E]" E new "[]"] unfolding upt_split [OF a(2)] by auto
  then show ?thesis using s1(2,4-7) k1(2,3) by blast
qed

text \<open>C40. The rename of a directory within its parent, with one replica on the first normal partition of the parent and names of
  less than 32 bytes, fails although it was done: the replica is moved on the partition, then
  \<^verbatim>\<open>sfs_rename_dir\<close> makes a directory with the new name there, which exists by now, and returns the error of that.\<close>

theorem rename_dir_fails:
  assumes "parts_ok E V" and "rename_law E V" and "calm E" and "dir_at E V old new k p rp i b s" and "\<not> rename_does_d_move E b"
    and "op_mkdir E b = Some c" and "op_rename E b (d_name (dents s p)) i b (d_name (dents s new)) (parts s) = (0, f)"
  shows "\<exists>e s1. sfs_rename_dir E old new s = Some (e, s1) \<and> e < 0 \<and> entry V (parts s1) (i_ino b) (d_name (dents s new)) = Some i"
proof -
  let ?P = "d_parent (dents s old)"
  obtain pd m where P: "d_fsdata (dents s ?P) = Some pd" "replicas pd k = Some rp" "bit (normal_dir_map pd) k" "first_normal_dir_id pd = int k"
    and d: "d_inode (dents s new) = None" "d_inode (dents s old) = Some m" "k < replica_count E"
    using assms(4) unfolding dir_at_def by blast
  obtain s1 q where r: "rename_dirs E old new [0..<replica_count E] s = Some (0, s1)" "parts s1 = f" "d_fsdata (dents s1 ?P) = Some pd"
    "d_inode (dents s1 rp) = Some b" "d_parent (dents s1 new) = ?P" "find_replica_dentry E new (int k) s1 = Some (Some q)"
    "d_inode (dents s1 q) = None" "d_name (dents s1 q) = d_name (dents s new)"
    using rename_dirs_whole [OF assms(1,3-5,7) P(1)] by blast
  have l: "mkdir_law E V" using assms(1) by (simp add: parts_ok_def)
  have i: "entry V (parts s1) (i_ino b) (d_name (dents s1 q)) = Some i"
    using assms(2,7) r(2,8) dir_at_home [OF assms(4)] unfolding rename_law_def by metis
  have p1: "d_fsdata (dents s1 (d_parent (dents s1 new))) = Some pd" using r(3,5) by simp
  obtain e s2 where e: "simple_add_dir_entry E new (i_mode m) (int k) CLONE_NORMAL s1 = Some (e, s2)" "e < 0" "same_view V (parts s1) (parts s2)"
    using add_existing_dir [OF l assms(6) d(3) p1 P(2,3) r(4,6,7) i, of "i_mode m"] by blast
  have "sfs_rename_dir E old new s = Some (e, s2)" using d(1,2) r(1) p1 P(4) e(1) by (simp add: sfs_rename_dir_def)
  then show ?thesis using e(2,3) i r(8) by (simp add: same_view_def)
qed

section \<open>Instances\<close>

text \<open>The root directory with a directory \<open>a\<close> on the first partition and the name \<open>b\<close>, which does not exist.\<close>

definition demo_dirs :: "mem_fs sfs" where
  "demo_dirs =
     demo_fs\<lparr>dents := (dents demo_fs)
        (3 := demo_dentry ''b'' 0 None 2 (Some (new_sfs_dentry 0)),
         4 := demo_dentry ''a'' 1 (Some (dir_inode 2)) 0 None,
         5 := demo_dentry ''a'' 0 (Some (dir_inode 102)) 2
                (Some ((new_sfs_dentry 0)\<lparr>replicas := (\<lambda>_. None)(0 := Some 4)\<rparr>))),
      fresh := 6, parts := (2, (\<lambda>_ _. None)(0 := [''a'' \<mapsto> dir_inode 2]), (\<lambda>_ _. None))\<rparr>"

lemma demo_dirs_ok: "dir_at mem_env mem_view 5 3 0 4 1 (dir_inode 2) (dir_inode 0) demo_dirs"
proof -
  have "heap_ok mem_view demo_dirs"
    by (auto simp: heap_ok_def data_ok_def rep_ok_def mem_view_def demo_dirs_def demo_defs split: if_splits)
  then show ?thesis
    by (simp add: dir_at_def mem_env_def mem_view_def mem_entry_def DNAME_INLINE_LEN_def) (simp add: demo_dirs_def demo_defs)
qed

lemma mem_rename_law: "rename_law mem_env mem_view"
  by (auto simp: rename_law_def mem_env_def mem_view_def mem_move_def mem_entry_def mem_del_def split: prod.splits)

theorem rename_dir_fails_witness:
  "\<exists>e s1. sfs_rename_dir mem_env 5 3 demo_dirs = Some (e, s1) \<and> e < 0 \<and> mem_entry (parts s1) 0 ''b'' = Some (dir_inode 2)"
proof -
  have r: "\<not> rename_does_d_move mem_env (dir_inode 0)"
    "op_mkdir mem_env (dir_inode 0) = Some (\<lambda>name mode. mem_make S_IFDIR 0 name)"
    "op_rename mem_env (dir_inode 0) (d_name (dents demo_dirs 4)) (dir_inode 2) (dir_inode 0) (d_name (dents demo_dirs 3)) (parts demo_dirs) =
       (0, mem_move 0 ''a'' (dir_inode 2) 0 ''b'' (parts demo_dirs))"
    by (simp_all add: mem_env_def dir_inode_def demo_dirs_def demo_dentry_def)
  have v: "entry mem_view f n m = mem_entry f n m" for f n m by (simp add: mem_view_def)
  have n: "d_name (dents demo_dirs 3) = ''b''" "i_ino (dir_inode 0) = 0" by (simp_all add: demo_dirs_def demo_dentry_def dir_inode_def)
  from rename_dir_fails [OF mem_parts_ok mem_rename_law demo_new_name(3) demo_dirs_ok r] show ?thesis unfolding v n .
qed

text \<open>Three partitions on which every rename fails, and a file on the first that is renamed onto a file with its meta file on the
  second and its data on the third.\<close>

definition full_env :: "mem_fs sfs_env" where
  "full_env = mem_env\<lparr>replica_count := 3, op_rename := (\<lambda>dir n i dir1 n1 f. (- ENOSPC, f))\<rparr>"

definition plain_inode :: "nat \<Rightarrow> inode" where "plain_inode n = \<lparr>i_ino = n, i_mode = 0x81A4\<rparr>"

text \<open>The attribute that \<^verbatim>\<open>put\<close> writes for a pointer to partition \<open>x\<close>.\<close>

definition pointer_text :: "int \<Rightarrow> char list" where
  "pointer_text x = the (sprintf (replicate 15 NUL) (fmt (no_pointer[POINTER := x])))"

definition demo_over :: "mem_fs sfs" where
  "demo_over =
     demo_fs\<lparr>dents := (\<lambda>_. demo_dentry [] 0 None 3 None)
        (0 := demo_dentry ''/'' 0 (Some (dir_inode 100)) 3
                (Some (root_data\<lparr>replicas := (\<lambda>_. None)(0 := Some 1, 1 := Some 2, 2 := Some 3)\<rparr>)),
         1 := demo_dentry ''/'' 1 (Some (dir_inode 0)) 0 None, 2 := demo_dentry ''/'' 2 (Some (dir_inode 1)) 1 None,
         3 := demo_dentry ''/'' 3 (Some (dir_inode 2)) 2 None,
         4 := demo_dentry ''a'' 0 (Some (plain_inode 101)) 3 (Some ((new_sfs_dentry 0)\<lparr>replicas := (\<lambda>_. None)(0 := Some 5), replica_id := 0\<rparr>)),
         5 := demo_dentry ''a'' 1 (Some (plain_inode 10)) 0 None,
         6 := demo_dentry ''b'' 0 (Some (plain_inode 102)) 3
                (Some ((new_sfs_dentry 0)\<lparr>replicas := (\<lambda>_. None)(0 := Some 9, 1 := Some 8, 2 := Some 7), replica_id := 2, meta_id := 1\<rparr>)),
         7 := demo_dentry ''b'' 3 (Some (plain_inode 12)) 2 None, 8 := demo_dentry ''b'' 2 (Some (plain_inode 11)) 1 None,
         9 := demo_dentry ''b'' 1 None 0 None),
      parts := (0, \<lambda>_ _. None, (\<lambda>_ _. None)(11 := [META \<mapsto> pointer_text 2], 12 := [META \<mapsto> pointer_text 1])),
      fresh := 10\<rparr>"

lemma pointer_text_stored:
  assumes "xattr mem_view f (i_ino i) META = Some (pointer_text x)" and "- 9 \<le> x" and "x \<le> 99"
  shows "stored mem_view f i (no_pointer[POINTER := x]) 15"
proof -
  obtain b where "sprintf (replicate 15 NUL) (fmt (no_pointer[POINTER := x])) = Some b" "length b = 15"
    "\<And>z. c_string (b @ z) = Some (fmt (no_pointer[POINTER := x]))"
    using fits [OF one_link [OF assms(2,3)], of "replicate 15 NUL"] by (metis length_replicate order_refl)
  then show ?thesis using assms(1) by (auto simp: stored_def pointer_text_def)
qed

theorem rename_fail_loses_data_witness:
  "(\<exists>s0 fd. validate_file full_env 6 demo_over = Some (0, s0) \<and> d_fsdata (dents s0 6) = Some fd \<and> replica_id fd = 2) \<and>
   (\<exists>s1 s2 fd. rename2exist full_env 4 6 demo_over = Some (- ENOSPC, s1) \<and> validate_file full_env 6 s1 = Some (0, s2) \<and>
     d_fsdata (dents s2 6) = Some fd \<and> replica_id fd = 1)"
proof -
  have m: "xattr_law mem_env mem_view" using mem_parts_ok by (simp add: parts_ok_def)
  have e: "op_xattr full_env = op_xattr mem_env" by (simp add: full_env_def)
  have x: "xattr_law full_env mem_view" unfolding xattr_law_def e by (rule m [unfolded xattr_law_def])
  have w: "writable full_env" by (auto simp: writable_def full_env_def mem_env_def mem_set_def split: prod.splits)
  have f: "\<forall>dir n i dir1 n1 f. op_rename full_env dir n i dir1 n1 f = (- ENOSPC, f)" "- ENOSPC \<noteq> 0" by (simp_all add: full_env_def)
  have p: "stored mem_view (parts demo_over) (plain_inode 11) (no_pointer[POINTER := 2]) 15"
    "stored mem_view (parts demo_over) (plain_inode 12) (no_pointer[POINTER := 1]) 15"
    by (rule pointer_text_stored; simp add: mem_view_def demo_over_def plain_inode_def)+
  have "over_partitioned full_env mem_view 4 6 0 2 1 5 8 7 (plain_inode 10) (plain_inode 11) (plain_inode 12) demo_over"
    using p by (simp add: over_partitioned_def full_env_def inode_of_def) (simp add: demo_over_def demo_defs mem_env_def plain_inode_def)
  from rename_fail_loses_data [OF x w f this] show ?thesis by simp
qed

end
