(* ===== verification/Sfs_Super.thy ===== *)
theory Sfs_Super
  imports Sfs_Namei
begin

text \<open>
  The superblock of SFS (\<^verbatim>\<open>sfs16/super.c\<close>, and the root inode of \<^verbatim>\<open>inode.c\<close>): mounting, the table of the partitions, the
  statistics, and the operations that go to every partition.  The path look-up and the superblocks of the partitions are the
  environment; references of mounts are not counted.
\<close>

section \<open>The structures\<close>

text \<open>The fields of a partition's superblock information, and of a superblock.  The field \<open>s_id\<close> is the identity of the superblock.\<close>

record replica_sbi =
  s_sb :: nat
  s_mnt :: nat
  s_data_root :: ptr
  s_replica_id :: nat

record super_block =
  s_id :: nat
  s_maxbytes :: nat
  s_flags :: nat
  s_max_links :: nat
  s_mode :: nat
  s_blocksize :: nat
  s_blocksize_bits :: nat
  s_root :: "ptr option"
  s_fs_info :: "replica_sbi list option"

text \<open>The table of the partitions and their number are variables of the module.  The table is never set to null when it is
  freed.\<close>

datatype sbi_table = Null | Live "replica_sbi list" | Freed

record sfs_module =
  nr_replicas :: nat
  sbi_array :: sbi_table

record kstatfs =
  f_type :: nat
  f_bsize :: nat
  f_blocks :: u64
  f_bfree :: u64
  f_bavail :: u64
  f_files :: u64
  f_ffree :: u64
  f_namelen :: nat

text \<open>What the mounted partitions provide.\<close>

record 'f mount_ops =
  kern_path :: "string \<Rightarrow> errcode + nat \<times> ptr"
  mnt_sb :: "nat \<Rightarrow> super_block"
  vfs_statfs :: "nat \<Rightarrow> inode \<Rightarrow> kstatfs \<Rightarrow> 'f \<Rightarrow> errcode \<times> kstatfs"
  op_sync_fs :: "nat \<Rightarrow> (bool \<Rightarrow> 'f \<Rightarrow> errcode \<times> 'f) option"
  op_freeze_fs :: "nat \<Rightarrow> ('f \<Rightarrow> errcode \<times> 'f) option"
  op_unfreeze_fs :: "nat \<Rightarrow> ('f \<Rightarrow> errcode \<times> 'f) option"

text \<open>The number is compared as an unsigned one; outside of the table nothing may be read.\<close>

definition get_replica_sbi :: "sfs_module \<Rightarrow> int \<Rightarrow> replica_sbi option option" where
  "get_replica_sbi md i =
     (let n = nat (i mod 2 ^ 32) in
      if (nr_replicas md + 2 ^ 32 - 1) mod 2 ^ 32 < n then Some None
      else case sbi_array md of Live t \<Rightarrow> if n < length t then Some (Some (t ! n)) else None | _ \<Rightarrow> None)"

section \<open>Operations on every partition\<close>

text \<open>All partitions are visited, and the first error is returned.\<close>

primrec for_each_sb ::
  "(nat \<Rightarrow> ('f \<Rightarrow> errcode \<times> 'f) option) \<Rightarrow> replica_sbi list \<Rightarrow> errcode \<Rightarrow> 'f \<Rightarrow> errcode \<times> 'f" where
  "for_each_sb g [] err f = (err, f)"
| "for_each_sb g (b # bs) err f =
     (case g (s_sb b) of
        None \<Rightarrow> for_each_sb g bs err f
      | Some h \<Rightarrow> (case h f of (ret, f1) \<Rightarrow> for_each_sb g bs (if ret \<noteq> 0 \<and> err = 0 then ret else err) f1))"

definition sfs_sync_fs :: "('f, 'z) mount_ops_scheme \<Rightarrow> super_block \<Rightarrow> bool \<Rightarrow> 'f \<Rightarrow> errcode \<times> 'f" where
  "sfs_sync_fs M sb wait f =
     (case s_fs_info sb of
        None \<Rightarrow> (0, f)
      | Some bs \<Rightarrow> for_each_sb (\<lambda>n. map_option (\<lambda>h. h wait) (op_sync_fs M n)) bs 0 f)"

definition sfs_freeze_fs :: "('f, 'z) mount_ops_scheme \<Rightarrow> super_block \<Rightarrow> 'f \<Rightarrow> (errcode \<times> 'f) option" where
  "sfs_freeze_fs M sb f = do { bs \<leftarrow> s_fs_info sb; Some (for_each_sb (op_freeze_fs M) bs 0 f) }"

definition sfs_unfreeze_fs :: "('f, 'z) mount_ops_scheme \<Rightarrow> super_block \<Rightarrow> 'f \<Rightarrow> (errcode \<times> 'f) option" where
  "sfs_unfreeze_fs M sb f = do { bs \<leftarrow> s_fs_info sb; Some (for_each_sb (op_unfreeze_fs M) bs 0 f) }"

section \<open>Statistics\<close>

definition add_stat :: "kstatfs \<Rightarrow> kstatfs \<Rightarrow> kstatfs" where
  "add_stat t b =
     t\<lparr>f_blocks := f_blocks t + f_blocks b, f_bfree := f_bfree t + f_bfree b, f_bavail := f_bavail t + f_bavail b,
       f_files := f_files t + f_files b, f_ffree := f_ffree t + f_ffree b\<rparr>"

definition set_totals :: "kstatfs \<Rightarrow> kstatfs \<Rightarrow> kstatfs" where
  "set_totals b t =
     b\<lparr>f_blocks := f_blocks t, f_bfree := f_bfree t, f_bavail := f_bavail t, f_files := f_files t, f_ffree := f_ffree t\<rparr>"

definition no_stat :: kstatfs where
  "no_stat = \<lparr>f_type = 0, f_bsize = 0, f_blocks = 0, f_bfree = 0, f_bavail = 0, f_files = 0, f_ffree = 0, f_namelen = 0\<rparr>"

primrec statfs_loop ::
  "('f, 'z) sfs_env_scheme \<Rightarrow> ('f, 'y) mount_ops_scheme \<Rightarrow> sfs_module \<Rightarrow> ptr \<Rightarrow> nat list \<Rightarrow> kstatfs \<Rightarrow> kstatfs \<Rightarrow> 'f sfs \<Rightarrow>
   (errcode \<times> kstatfs \<times> kstatfs) option" where
  "statfs_loop E M md d [] t buf s = Some (0, t, buf)"
| "statfs_loop E M md d (k # ks) t buf s =
     do { r \<leftarrow> find_replica_dentry E d (int k) s;
          case inode_of s r of
            None \<Rightarrow> statfs_loop E M md d ks t buf s
          | Some i \<Rightarrow>
              do { b \<leftarrow> get_replica_sbi md (int k);
                   sbi \<leftarrow> b;
                   let (err, buf1) = vfs_statfs M (s_mnt sbi) i buf (parts s);
                   if err \<noteq> 0 then Some (err, t, buf1) else statfs_loop E M md d ks (add_stat t buf1) buf1 s } }"

definition sfs_statfs ::
  "('f, 'z) sfs_env_scheme \<Rightarrow> ('f, 'y) mount_ops_scheme \<Rightarrow> sfs_module \<Rightarrow> ptr \<Rightarrow> kstatfs \<Rightarrow> 'f sfs \<Rightarrow> (errcode \<times> kstatfs) option" where
  "sfs_statfs E M md d buf s =
     do { (err, t, buf1) \<leftarrow> statfs_loop E M md d [0..<replica_count E] no_stat buf s;
          Some (err, if err \<noteq> 0 then buf1 else set_totals buf1 t) }"

section \<open>Mounting\<close>

definition sfs_master_sbi_alloc :: "('f, 'z) sfs_env_scheme \<Rightarrow> super_block \<Rightarrow> 'f sfs \<Rightarrow> errcode \<times> super_block \<times> 'f sfs" where
  "sfs_master_sbi_alloc E sb s =
     (case kalloc E s of (None, s1) \<Rightarrow> (- ENOMEM, sb, s1) | (Some _, s1) \<Rightarrow> (0, sb\<lparr>s_fs_info := Some []\<rparr>, s1))"

definition sfs_replica_sbi_alloc :: "('f, 'z) sfs_env_scheme \<Rightarrow> nat \<Rightarrow> 'f sfs \<Rightarrow> replica_sbi option \<times> 'f sfs" where
  "sfs_replica_sbi_alloc E n s =
     (case kalloc E s of
        (None, s1) \<Rightarrow> (None, s1)
      | (Some _, s1) \<Rightarrow> (Some \<lparr>s_sb = n, s_mnt = 0, s_data_root = 0, s_replica_id = 0\<rparr>, s1))"

definition s_add_replica :: "super_block \<Rightarrow> replica_sbi \<Rightarrow> nat \<Rightarrow> super_block" where
  "s_add_replica sb r k = sb\<lparr>s_fs_info := map_option (\<lambda>bs. bs @ [r\<lparr>s_replica_id := k\<rparr>]) (s_fs_info sb)\<rparr>"

definition copy_super :: "super_block \<Rightarrow> super_block \<Rightarrow> super_block" where
  "copy_super dest src =
     dest\<lparr>s_maxbytes := s_maxbytes src, s_flags := s_flags src, s_max_links := s_max_links src, s_mode := s_mode src,
          s_blocksize := s_blocksize src, s_blocksize_bits := s_blocksize_bits src\<rparr>"

text \<open>The words of the options, separated by colons.\<close>

definition strsep :: "string \<Rightarrow> string \<times> string option" where
  "strsep str =
     (takeWhile (\<lambda>c. c \<noteq> CHR '':'') str, case dropWhile (\<lambda>c. c \<noteq> CHR '':'') str of [] \<Rightarrow> None | _ # r \<Rightarrow> Some r)"

function opt_strs :: "string option \<Rightarrow> string list" where
  "opt_strs None = []"
| "opt_strs (Some str) = (case strsep str of (opt_str, rest) \<Rightarrow> opt_str # opt_strs rest)"
  by pat_completeness auto

lemma strsep_shorter: "strsep str = (a, Some r) \<Longrightarrow> length r < length str"
  by (auto simp: strsep_def split: list.splits) (metis Suc_le_lessD length_Cons length_dropWhile_le)

termination opt_strs
  by (relation "measure (\<lambda>x. case x of None \<Rightarrow> 0 | Some t \<Rightarrow> Suc (length t))")
    (auto split: option.splits dest: strsep_shorter [OF sym])

definition dget :: "ptr \<Rightarrow> 'f sfs \<Rightarrow> 'f sfs" where
  "dget p = upd_dentry p (\<lambda>d. d\<lparr>d_count := d_count d + 1\<rparr>)"

text \<open>One partition after the other, up to an empty word.  The path look-up returns a reference of the directory, which is put
  at the end of the step; the word is copied into a buffer of 4096 bytes.  The table of the root has 64 places.\<close>

primrec add_partitions ::
  "('f, 'z) sfs_env_scheme \<Rightarrow> ('f, 'y) mount_ops_scheme \<Rightarrow> ptr \<Rightarrow> string list \<Rightarrow> super_block \<Rightarrow> nat \<Rightarrow> 'f sfs \<Rightarrow>
   ((errcode + nat) \<times> super_block \<times> 'f sfs) option" where
  "add_partitions E M root [] sb count s = Some (Inr count, sb, s)"
| "add_partitions E M root (opt_str # os) sb count s =
     (if opt_str = [] then Some (Inr count, sb, s)
      else if 4096 \<le> length opt_str then None
      else case kern_path M opt_str of
        Inl e \<Rightarrow> Some (Inl e, sb, s)
      | Inr (mnt, p) \<Rightarrow>
          (let s1 = dget p s; sb1 = (if count = 0 then copy_super sb (mnt_sb M mnt) else sb)
           in case sfs_replica_sbi_alloc E (s_id (mnt_sb M mnt)) s1 of
                (None, s2) \<Rightarrow> Some (Inl (- ENOMEM), sb1, s2)
              | (Some r, s2) \<Rightarrow>
                  if 64 \<le> count then None
                  else
                    do { s3 \<leftarrow> dput p (d_add_replica root p count (dget p s2));
                         add_partitions E M root os (s_add_replica sb1 (r\<lparr>s_mnt := mnt, s_data_root := p\<rparr>) count) (count + 1) s3 }))"

text \<open>The result of a check replaces the one before.\<close>

primrec check_roots ::
  "('f, 'z) sfs_env_scheme \<Rightarrow> ptr \<Rightarrow> nat list \<Rightarrow> errcode \<Rightarrow> 'f sfs \<Rightarrow> (errcode \<times> 'f sfs) option" where
  "check_roots E root [] err s = Some (err, s)"
| "check_roots E root (k # ks) err s = do { (err1, s1) \<leftarrow> check_normal_dir E root (int k) s; check_roots E root ks err1 s1 }"

definition parse_on ::
  "'f sfs_env \<Rightarrow> ('f, 'y) mount_ops_scheme \<Rightarrow> ptr \<Rightarrow> super_block \<Rightarrow> string option \<Rightarrow> sfs_module \<Rightarrow> 'f sfs \<Rightarrow>
   (errcode \<times> super_block \<times> sfs_module \<times> 'f sfs) option" where
  "parse_on E M root sb str md s =
     (case sfs_dentry_alloc E root s of
        (err, s1) \<Rightarrow>
          if err \<noteq> 0 then Some (err, sb, md, s1)
          else
            do { (r, sb1, s2) \<leftarrow> add_partitions E M root (opt_strs str) sb 0 s1;
                 case r of
                   Inl err \<Rightarrow> Some (err, sb1, md, s2)
                 | Inr count \<Rightarrow>
                     do { bs \<leftarrow> s_fs_info sb1;
                          let (t, s3) = kalloc E s2;
                          if t = None \<and> 0 < count then None
                          else
                            do { (err, s4) \<leftarrow> check_roots (E\<lparr>replica_count := count\<rparr>) root [0..<count] 0 s3;
                                 Some (err, sb1, \<lparr>nr_replicas = count, sbi_array = Live bs\<rparr>, s4) } } })"

definition sfs_opts_parse ::
  "'f sfs_env \<Rightarrow> ('f, 'y) mount_ops_scheme \<Rightarrow> super_block \<Rightarrow> string option \<Rightarrow> sfs_module \<Rightarrow> 'f sfs \<Rightarrow>
   (errcode \<times> super_block \<times> sfs_module \<times> 'f sfs) option" where
  "sfs_opts_parse E M sb str md s =
     (case sfs_master_sbi_alloc E sb s of
        (err, sb1, s1) \<Rightarrow>
          if err \<noteq> 0 then Some (err, sb1, md, s1)
          else
            (let md1 = md\<lparr>nr_replicas := 64\<rparr>
             in case s_root sb1 of
                  None \<Rightarrow> (case kalloc E s1 of (None, s2) \<Rightarrow> Some (- ENOMEM, sb1, md1, s2) | (Some _, _) \<Rightarrow> None)
                | Some root \<Rightarrow> parse_on E M root sb1 str md1 s1))"

text \<open>A root that cannot be allocated is not an error; mounting goes on with a null root.\<close>

definition d_make_root :: "('f, 'z) sfs_env_scheme \<Rightarrow> nat \<Rightarrow> inode \<Rightarrow> 'f sfs \<Rightarrow> ptr option \<times> 'f sfs" where
  "d_make_root E sb i s =
     (case kalloc E s of
        (None, s1) \<Rightarrow> (None, s1)
      | (Some p, s1) \<Rightarrow>
          (Some p,
           d_instantiate p (Some i)
             (upd_dentry p (\<lambda>_. \<lparr>d_name = ''/'', d_parent = p, d_inode = None, d_count = 1, d_hashed = False, d_sb = sb, d_fsdata = None\<rparr>) s1)))"

definition sfs_alloc_root :: "('f, 'z) sfs_env_scheme \<Rightarrow> super_block \<Rightarrow> 'f sfs \<Rightarrow> (errcode \<times> super_block \<times> 'f sfs) option" where
  "sfs_alloc_root E sb s =
     do { (n, s1) \<leftarrow> sfs_alloc_inode E s;
          let (root, s2) = d_make_root E (s_id sb) \<lparr>i_ino = n, i_mode = S_IFDIR\<rparr> (s1\<lparr>nlinks := (nlinks s1)(n := 2)\<rparr>);
          Some (0, (case root of None \<Rightarrow> sb | Some p \<Rightarrow> sb\<lparr>s_root := Some p\<rparr>), s2) }"

definition kstrdup :: "('f, 'z) sfs_env_scheme \<Rightarrow> string option \<Rightarrow> 'f sfs \<Rightarrow> string option \<times> 'f sfs" where
  "kstrdup E data s =
     (case data of None \<Rightarrow> (None, s) | Some str \<Rightarrow> (case kalloc E s of (p, s1) \<Rightarrow> (map_option (\<lambda>_. str) p, s1)))"

definition sfs_fill_super ::
  "'f sfs_env \<Rightarrow> ('f, 'y) mount_ops_scheme \<Rightarrow> super_block \<Rightarrow> string option \<Rightarrow> sfs_module \<Rightarrow> 'f sfs \<Rightarrow>
   (errcode \<times> super_block \<times> sfs_module \<times> 'f sfs) option" where
  "sfs_fill_super E M sb data md s =
     (case kstrdup E data s of
        (orig_data, s1) \<Rightarrow>
          do { (err, sb1, s2) \<leftarrow> sfs_alloc_root E sb s1;
               if err \<noteq> 0 then Some (err, sb1, md, s2) else sfs_opts_parse E M sb1 orig_data md s2 })"

text \<open>The structures of the partitions and the table are freed; a table that was freed before must not be freed again.\<close>

definition sfs_kill_sb :: "super_block \<Rightarrow> sfs_module \<Rightarrow> sfs_module option" where
  "sfs_kill_sb sb md =
     (case s_fs_info sb of
        None \<Rightarrow> Some md
      | Some bs \<Rightarrow> (case sbi_array md of Null \<Rightarrow> Some md | Live t \<Rightarrow> Some (md\<lparr>sbi_array := Freed\<rparr>) | Freed \<Rightarrow> None))"

end
