(* ===== verification/Sfs_Mounts.thy ===== *)
theory Sfs_Mounts
  imports Sfs_Super Sfs_Names
begin

text \<open>
  Properties of the superblock of SFS: the statistics are the sums over the partitions, a mount makes the table of the partitions
  and of the normal ones among them, and a file that was created before a mount is found after it.
\<close>

section \<open>Statistics\<close>

text \<open>The partitions on which a directory has a replica, and what the statistics of one of them are.\<close>

definition present :: "('f, 'z) sfs_env_scheme \<Rightarrow> sfs_dentry \<Rightarrow> 'f sfs \<Rightarrow> nat list" where
  "present E fd s = filter (\<lambda>k. inode_of s (replicas fd k) \<noteq> None) [0..<replica_count E]"

definition part_stat :: "('f, 'y) mount_ops_scheme \<Rightarrow> replica_sbi list \<Rightarrow> sfs_dentry \<Rightarrow> 'f sfs \<Rightarrow> nat \<Rightarrow> errcode \<times> kstatfs" where
  "part_stat M t fd s k = vfs_statfs M (s_mnt (t ! k)) (the (inode_of s (replicas fd k))) no_stat (parts s)"

text \<open>The call fills the whole structure.\<close>

definition statfs_fills :: "('f, 'y) mount_ops_scheme \<Rightarrow> bool" where
  "statfs_fills M \<longleftrightarrow> (\<forall>m i b b' f. vfs_statfs M m i b f = vfs_statfs M m i b' f)"

lemma get_replica_sbi_live:
  assumes "sbi_array md = Live t" and "length t = nr_replicas md" and "nr_replicas md < 2 ^ 32" and "k < nr_replicas md"
  shows "get_replica_sbi md (int k) = Some (Some (t ! k))"
proof -
  have "int k mod 2 ^ 32 = int k" using assms(3,4) by simp
  moreover have "(nr_replicas md + 2 ^ 32 - 1) mod 2 ^ 32 = nr_replicas md - 1"
  proof -
    have "nr_replicas md + 2 ^ 32 - 1 = (nr_replicas md - 1) + 2 ^ 32" using assms(4) by simp
    then show ?thesis using assms(3) by (simp only: mod_add_self2) simp
  qed
  ultimately show ?thesis using assms by (simp add: get_replica_sbi_def)
qed

lemma statfs_loop_sums:
  assumes "statfs_fills M" and "sbi_array md = Live t" and "length t = nr_replicas md" and "nr_replicas md < 2 ^ 32"
    and "d_fsdata (dents s d) = Some fd" and "\<forall>k \<in> set ks. k < replica_count E \<and> k < nr_replicas md"
  defines "P \<equiv> filter (\<lambda>k. inode_of s (replicas fd k) \<noteq> None) ks"
  shows "case find (\<lambda>k. fst (part_stat M t fd s k) \<noteq> 0) P of
      Some k \<Rightarrow> \<exists>a b. statfs_loop E M md d ks acc buf s = Some (fst (part_stat M t fd s k), a, b)
    | None \<Rightarrow> statfs_loop E M md d ks acc buf s =
        Some (0, foldl add_stat acc (map (\<lambda>k. snd (part_stat M t fd s k)) P), foldl (\<lambda>_ k. snd (part_stat M t fd s k)) buf P)"
  using assms(6) unfolding P_def
proof (induction ks arbitrary: acc buf)
  case (Cons k ks)
  have k: "find_replica_dentry E d (int k) s = Some (replicas fd k)" "get_replica_sbi md (int k) = Some (Some (t ! k))"
    using Cons.prems assms(5) get_replica_sbi_live [OF assms(2-4)] by (auto simp: find_replica_dentry_def)
  show ?case
  proof (cases "inode_of s (replicas fd k)")
    case None
    then show ?thesis using Cons.IH [of acc buf] Cons.prems k(1) by (simp split: option.splits)
  next
    case (Some i)
    have "vfs_statfs M (s_mnt (t ! k)) i buf (parts s) = part_stat M t fd s k"
      using assms(1) Some unfolding statfs_fills_def part_stat_def by simp
    then show ?thesis
      using Cons.IH [of "add_stat acc (snd (part_stat M t fd s k))" "snd (part_stat M t fd s k)"] Cons.prems Some k
      by (cases "part_stat M t fd s k") (simp split: option.splits)
  qed
qed simp

lemma foldl_add_stat:
  "f_blocks (foldl add_stat a bs) = f_blocks a + (\<Sum>b\<leftarrow>bs. f_blocks b)" "f_bfree (foldl add_stat a bs) = f_bfree a + (\<Sum>b\<leftarrow>bs. f_bfree b)"
  "f_bavail (foldl add_stat a bs) = f_bavail a + (\<Sum>b\<leftarrow>bs. f_bavail b)" "f_files (foldl add_stat a bs) = f_files a + (\<Sum>b\<leftarrow>bs. f_files b)"
  "f_ffree (foldl add_stat a bs) = f_ffree a + (\<Sum>b\<leftarrow>bs. f_ffree b)"
  by (induction bs arbitrary: a) (simp_all add: add_stat_def algebra_simps)

text \<open>C37. The statistics of SFS are the sums over the partitions, modulo the width of the counters, with the block size of the last
  partition; when a partition fails, its error is returned.\<close>

theorem statfs_sums:
  assumes "statfs_fills M" and "sbi_array md = Live t" and "length t = nr_replicas md" and "nr_replicas md < 2 ^ 32"
    and "nr_replicas md = replica_count E" and "d_fsdata (dents s d) = Some fd"
  defines "st \<equiv> part_stat M t fd s" and "P \<equiv> present E fd s"
  shows "case find (\<lambda>k. fst (st k) \<noteq> 0) P of
      Some k \<Rightarrow> \<exists>b. sfs_statfs E M md d buf s = Some (fst (st k), b)
    | None \<Rightarrow> \<exists>b. sfs_statfs E M md d buf s = Some (0, b) \<and> f_blocks b = (\<Sum>k\<leftarrow>P. f_blocks (snd (st k))) \<and>
        f_bfree b = (\<Sum>k\<leftarrow>P. f_bfree (snd (st k))) \<and> f_bavail b = (\<Sum>k\<leftarrow>P. f_bavail (snd (st k))) \<and>
        f_files b = (\<Sum>k\<leftarrow>P. f_files (snd (st k))) \<and> f_ffree b = (\<Sum>k\<leftarrow>P. f_ffree (snd (st k))) \<and>
        f_bsize b = (if P = [] then f_bsize buf else f_bsize (snd (st (last P))))"
proof -
  have l: "foldl (\<lambda>_ k. g k) b ks = (if ks = [] then b else g (last ks))" for g :: "nat \<Rightarrow> kstatfs" and b ks
    by (induction ks rule: rev_induct) simp_all
  note L = statfs_loop_sums [OF assms(1-4,6), of "[0..<replica_count E]" E no_stat buf, folded present_def, folded P_def st_def]
  show ?thesis
  proof (cases "find (\<lambda>k. fst (st k) \<noteq> 0) P")
    case None
    have "statfs_loop E M md d [0..<replica_count E] no_stat buf s =
        Some (0, foldl add_stat no_stat (map (\<lambda>k. snd (st k)) P), foldl (\<lambda>_ k. snd (st k)) buf P)"
      using L None assms(5) by simp
    then show ?thesis using None by (simp add: sfs_statfs_def set_totals_def foldl_add_stat no_stat_def l comp_def)
  next
    case (Some k)
    then have "fst (st k) \<noteq> 0" by (auto simp: find_Some_iff)
    then show ?thesis using L Some assms(5) by (auto simp: sfs_statfs_def)
  qed
qed

section \<open>Mounting\<close>

text \<open>The partitions that the options name, the root of one of them, and its entry in the table.\<close>

definition options :: "string \<Rightarrow> string list" where
  "options str = takeWhile (\<lambda>w. w \<noteq> []) (opt_strs (Some str))"

definition path_root :: "('f, 'y) mount_ops_scheme \<Rightarrow> string \<Rightarrow> ptr option" where
  "path_root M w = (case kern_path M w of Inl _ \<Rightarrow> None | Inr (mnt, p) \<Rightarrow> Some p)"

definition sbi_of :: "('f, 'y) mount_ops_scheme \<Rightarrow> string \<Rightarrow> nat \<Rightarrow> replica_sbi" where
  "sbi_of M w k =
     (case kern_path M w of
        Inl _ \<Rightarrow> \<lparr>s_sb = 0, s_mnt = 0, s_data_root = 0, s_replica_id = k\<rparr>
      | Inr (mnt, p) \<Rightarrow> \<lparr>s_sb = s_id (mnt_sb M mnt), s_mnt = mnt, s_data_root = p, s_replica_id = k\<rparr>)"

text \<open>What mounting keeps of the dentries.\<close>

definition same_tree :: "ptr \<Rightarrow> 'f sfs \<Rightarrow> 'f sfs \<Rightarrow> bool" where
  "same_tree root s s1 \<longleftrightarrow> parts s1 = parts s \<and> fresh s \<le> fresh s1 \<and>
     (\<forall>q. d_inode (dents s1 q) = d_inode (dents s q) \<and> d_parent (dents s1 q) = d_parent (dents s q) \<and> d_sb (dents s1 q) = d_sb (dents s q) \<and>
        (q \<noteq> root \<longrightarrow> d_fsdata (dents s1 q) = d_fsdata (dents s q)))"

lemma same_tree_trans: "same_tree root a b \<Longrightarrow> same_tree root b c \<Longrightarrow> same_tree root a c"
  by (simp add: same_tree_def)

lemma copy_super_sel [simp]: "s_fs_info (copy_super a b) = s_fs_info a" "s_root (copy_super a b) = s_root a"
  by (simp_all add: copy_super_def)

text \<open>A step of the loop: the reference of the path is put again, and the table of the root has one more replica.\<close>

lemma mount_step:
  assumes "d_fsdata (dents s root) = Some fd" and "replicas fd c = None" and "p \<noteq> root"
  shows "\<exists>s1. dput p (d_add_replica root p c (dget p ((dget p s)\<lparr>fresh := n\<rparr>))) = Some s1 \<and> parts s1 = parts s \<and> fresh s1 = n \<and>
    (\<forall>q. d_inode (dents s1 q) = d_inode (dents s q) \<and> d_parent (dents s1 q) = d_parent (dents s q) \<and> d_sb (dents s1 q) = d_sb (dents s q) \<and>
       (q \<noteq> root \<longrightarrow> d_fsdata (dents s1 q) = d_fsdata (dents s q))) \<and>
    d_fsdata (dents s1 root) = Some (fd\<lparr>replicas := (replicas fd)(c := Some p)\<rparr>)"
  using assms by (subst dput.simps) (simp add: d_add_replica_def dget_def)

lemma no_index: "(c \<le> j \<and> j < c) = False" for c j :: nat
  by simp

lemma add_partitions_adds:
  assumes "calm E" and "d_fsdata (dents s root) = Some fd" and "\<forall>j \<ge> c. replicas fd j = None" and "s_fs_info sb = Some bs"
    and "c + length (takeWhile (\<lambda>w. w \<noteq> []) os) \<le> 64"
    and "\<forall>w \<in> set (takeWhile (\<lambda>w. w \<noteq> []) os). length w < 4096 \<and> (\<exists>p. path_root M w = Some p \<and> p \<noteq> root)"
  shows "\<exists>sb1 s1. add_partitions E M root os sb c s = Some (Inr (c + length (takeWhile (\<lambda>w. w \<noteq> []) os)), sb1, s1) \<and> same_tree root s s1 \<and>
    s_root sb1 = s_root sb \<and>
    s_fs_info sb1 = Some (bs @ map (\<lambda>j. sbi_of M (takeWhile (\<lambda>w. w \<noteq> []) os ! j) (c + j)) [0..<length (takeWhile (\<lambda>w. w \<noteq> []) os)]) \<and>
    d_fsdata (dents s1 root) = Some (fd\<lparr>replicas := (\<lambda>j. if c \<le> j \<and> j < c + length (takeWhile (\<lambda>w. w \<noteq> []) os)
      then path_root M (takeWhile (\<lambda>w. w \<noteq> []) os ! (j - c)) else replicas fd j)\<rparr>)"
  using assms(2-6)
proof (induction os arbitrary: sb c s fd bs)
  case Nil
  then show ?case by (simp add: same_tree_def no_index)
next
  case (Cons w os)
  show ?case
  proof (cases "w = []")
    case True
    then show ?thesis using Cons.prems by (simp add: same_tree_def no_index)
  next
    case False
    let ?ws = "takeWhile (\<lambda>w. w \<noteq> []) os"
    have ws: "takeWhile (\<lambda>w. w \<noteq> []) (w # os) = w # ?ws" using False by simp
    obtain p where p: "length w < 4096" "path_root M w = Some p" "p \<noteq> root" using Cons.prems(5) False by auto
    then obtain mnt where k: "kern_path M w = Inr (mnt, p)" by (auto simp: path_root_def split: sum.splits)
    obtain s1 where s1: "dput p (d_add_replica root p c (dget p ((dget p s)\<lparr>fresh := Suc (fresh s)\<rparr>))) = Some s1"
      "parts s1 = parts s" "fresh s1 = Suc (fresh s)"
      "\<And>q. d_inode (dents s1 q) = d_inode (dents s q) \<and> d_parent (dents s1 q) = d_parent (dents s q) \<and> d_sb (dents s1 q) = d_sb (dents s q) \<and>
        (q \<noteq> root \<longrightarrow> d_fsdata (dents s1 q) = d_fsdata (dents s q))"
      "d_fsdata (dents s1 root) = Some (fd\<lparr>replicas := (replicas fd)(c := Some p)\<rparr>)"
      using mount_step [OF Cons.prems(1) _ p(3), of c "Suc (fresh s)"] Cons.prems(2) by auto
    have t1: "same_tree root s s1" using s1(2-4) by (simp add: same_tree_def)
    define sb1 where "sb1 = s_add_replica (if c = 0 then copy_super sb (mnt_sb M mnt) else sb)
      (\<lparr>s_sb = s_id (mnt_sb M mnt), s_mnt = mnt, s_data_root = p, s_replica_id = 0\<rparr>) c"
    have b1: "s_fs_info sb1 = Some (bs @ [sbi_of M w c])" "s_root sb1 = s_root sb"
      using Cons.prems(3) k by (simp_all add: sb1_def s_add_replica_def sbi_of_def)
    have c: "\<not> 64 \<le> c" using Cons.prems(4) False by simp
    have a: "add_partitions E M root (w # os) sb c s = add_partitions E M root os sb1 (c + 1) s1"
      using False p(1) k assms(1) s1(1) c
      by (simp add: sfs_replica_sbi_alloc_def kalloc_def calm_def Let_def sb1_def dget_def)
    have "\<forall>j \<ge> c + 1. replicas (fd\<lparr>replicas := (replicas fd)(c := Some p)\<rparr>) j = None" using Cons.prems(2) by simp
    from Cons.IH [OF s1(5) this b1(1)] obtain sb2 s2 where ih:
      "add_partitions E M root os sb1 (c + 1) s1 = Some (Inr (c + 1 + length ?ws), sb2, s2)" "same_tree root s1 s2" "s_root sb2 = s_root sb1"
      "s_fs_info sb2 = Some ((bs @ [sbi_of M w c]) @ map (\<lambda>j. sbi_of M (?ws ! j) (c + 1 + j)) [0..<length ?ws])"
      "d_fsdata (dents s2 root) = Some (fd\<lparr>replicas := (replicas fd)(c := Some p)\<rparr>\<lparr>replicas := (\<lambda>j. if c + 1 \<le> j \<and> j < c + 1 + length ?ws
        then path_root M (?ws ! (j - (c + 1))) else replicas (fd\<lparr>replicas := (replicas fd)(c := Some p)\<rparr>) j)\<rparr>)"
      using Cons.prems(4,5) False by auto
    have m: "map (\<lambda>j. sbi_of M ((w # ?ws) ! j) (c + j)) [0..<Suc (length ?ws)] =
        sbi_of M w c # map (\<lambda>j. sbi_of M (?ws ! j) (c + 1 + j)) [0..<length ?ws]"
      by (simp add: upt_conv_Cons map_Suc_upt [symmetric] del: upt_Suc)
    have r: "(\<lambda>j. if c \<le> j \<and> j < c + Suc (length ?ws) then path_root M ((w # ?ws) ! (j - c)) else replicas fd j) =
        (\<lambda>j. if c + 1 \<le> j \<and> j < c + 1 + length ?ws then path_root M (?ws ! (j - (c + 1)))
             else replicas (fd\<lparr>replicas := (replicas fd)(c := Some p)\<rparr>) j)"
      using p(2) by (auto simp: fun_eq_iff nth_Cons')
    show ?thesis unfolding ws a
      using ih b1(2) same_tree_trans [OF t1 ih(2)] r by (simp add: m del: upt_Suc)
  qed
qed

text \<open>A directory of a partition is normal when it has the mark; SFS writes no other value.\<close>

definition marked :: "'f part_view \<Rightarrow> 'f \<Rightarrow> inode \<Rightarrow> bool" where
  "marked V f b \<longleftrightarrow> xattr V f (i_ino b) SHADOW = Some normal_value"

definition mark_ok :: "'f part_view \<Rightarrow> 'f \<Rightarrow> inode \<Rightarrow> bool" where
  "mark_ok V f b \<longleftrightarrow> xattr V f (i_ino b) SHADOW = None \<or> marked V f b"

definition mark_normal :: "nat \<Rightarrow> sfs_dentry \<Rightarrow> sfs_dentry" where
  "mark_normal k fd = fd\<lparr>first_normal_dir_id := int k, normal_dir_count := normal_dir_count fd + 1, normal_dir_map := set_bitmap (normal_dir_map fd) k\<rparr>"

lemma check_normal_marked:
  assumes "xattr_law E V" and "find_replica_dentry E d (int k) s = Some r" and "inode_of s r = Some b" and "mark_ok V (parts s) b"
  shows "check_normal_dir E d (int k) s =
    Some (if marked V (parts s) b then (1, upd_fsdata d (mark_normal k) s) else (0, s))"
proof -
  note law = assms(1) [unfolded xattr_law_def, THEN conjunct2, THEN spec [of _ b], THEN spec [of _ SHADOW], THEN spec [of _ 8],
    THEN spec [of _ "parts s"]]
  show ?thesis
  proof (cases "marked V (parts s) b")
    case True
    have "length normal_value = 8" by (simp add: normal_value_def)
    then have "vfs_getxattr (op_xattr E) b SHADOW 8 (parts s) = (8, normal_value)" using law True by (simp add: marked_def)
    then show ?thesis
      using assms(2,3) True
      by (simp add: check_normal_dir_def fill_buf_def is_normal_value_def normal_value_def mark_normal_def [abs_def])
  next
    case False
    then have "fst (vfs_getxattr (op_xattr E) b SHADOW 8 (parts s)) < 0" using law assms(4) by (simp add: mark_ok_def)
    then show ?thesis using assms(2,3) False by (auto simp: check_normal_dir_def split: prod.splits)
  qed
qed

lemma check_roots_marks:
  assumes "xattr_law E V" and "d_fsdata (dents s root) = Some fd"
    and "\<forall>k \<in> set ks. k < replica_count E \<and> inode_of s (replicas fd k) = Some (base k) \<and> mark_ok V (parts s) (base k)"
  shows "\<exists>s1. check_roots E root ks err s = Some (if ks = [] then err else if marked V (parts s) (base (last ks)) then 1 else 0, s1) \<and>
    same_tree root s s1 \<and> d_fsdata (dents s1 root) = Some (fold mark_normal (filter (\<lambda>k. marked V (parts s) (base k)) ks) fd)"
  using assms(2,3)
proof (induction ks arbitrary: err s fd)
  case Nil
  then show ?case by (simp add: same_tree_def)
next
  case (Cons k ks)
  let ?m = "marked V (parts s) (base k)"
  let ?s = "if ?m then upd_fsdata root (mark_normal k) s else s" and ?fd = "if ?m then mark_normal k fd else fd"
  have "find_replica_dentry E root (int k) s = Some (replicas fd k)" using Cons.prems by (simp add: find_replica_dentry_def)
  then have c: "check_normal_dir E root (int k) s = Some (if ?m then 1 else 0, ?s)"
    using check_normal_marked [OF assms(1)] Cons.prems(2) by auto
  have st: "same_tree root s ?s" "parts ?s = parts s" by (simp_all add: same_tree_def)
  have f: "d_fsdata (dents ?s root) = Some ?fd" using Cons.prems(1) by simp
  have "replicas ?fd = replicas fd" by (simp add: mark_normal_def)
  moreover have "inode_of ?s r = inode_of s r" for r by (cases r) (simp_all add: inode_of_def)
  ultimately have "\<forall>k \<in> set ks. k < replica_count E \<and> inode_of ?s (replicas ?fd k) = Some (base k) \<and> mark_ok V (parts ?s) (base k)"
    using Cons.prems(2) st(2) by simp
  from Cons.IH [OF f this] obtain s1 where s1:
    "check_roots E root ks (if ?m then 1 else 0) ?s =
       Some (if ks = [] then if ?m then 1 else 0 else if marked V (parts ?s) (base (last ks)) then 1 else 0, s1)" "same_tree root ?s s1"
    "d_fsdata (dents s1 root) = Some (fold mark_normal (filter (\<lambda>k. marked V (parts ?s) (base k)) ks) ?fd)" by blast
  have "check_roots E root (k # ks) err s = check_roots E root ks (if ?m then 1 else 0) ?s" by (simp only: check_roots.simps c) simp
  then show ?case using s1 same_tree_trans [OF st(1) s1(2)] unfolding st(2) by (cases ?m) simp_all
qed

lemma fold_mark_normal:
  assumes "distinct ks" and "\<forall>k \<in> set ks. k < 64"
  shows "bit (normal_dir_map (fold mark_normal ks fd)) j \<longleftrightarrow> bit (normal_dir_map fd) j \<or> j \<in> set ks"
    "normal_dir_count (fold mark_normal ks fd) = normal_dir_count fd + length ks" "replicas (fold mark_normal ks fd) = replicas fd"
    "local_counter (fold mark_normal ks fd) = local_counter fd"
  using assms by (induction ks arbitrary: fd) (auto simp: mark_normal_def bit_set_bitmap)

text \<open>The options name partitions that can be reached, with the inodes \<open>base\<close> as their roots.\<close>

definition roots_at :: "('f, 'y) mount_ops_scheme \<Rightarrow> 'f part_view \<Rightarrow> string \<Rightarrow> (nat \<Rightarrow> inode) \<Rightarrow> 'f sfs \<Rightarrow> bool" where
  "roots_at M V str base s \<longleftrightarrow> length (options str) \<le> 64 \<and>
     (\<forall>k < length (options str). length (options str ! k) < 4096 \<and> mark_ok V (parts s) (base k) \<and>
        (\<exists>p < fresh s. path_root M (options str ! k) = Some p \<and> d_inode (dents s p) = Some (base k)))"

definition mounted :: "('f, 'y) mount_ops_scheme \<Rightarrow> 'f part_view \<Rightarrow> string \<Rightarrow> (nat \<Rightarrow> inode) \<Rightarrow> ptr \<Rightarrow> 'f sfs \<Rightarrow> bool" where
  "mounted M V str base root s \<longleftrightarrow>
     (\<exists>i fd. d_inode (dents s root) = Some i \<and> S_ISDIR (i_mode i) \<and> d_parent (dents s root) = root \<and> d_fsdata (dents s root) = Some fd \<and>
        (\<forall>k < length (options str). replicas fd k = path_root M (options str ! k)) \<and>
        (\<forall>k. bit (normal_dir_map fd) k \<longleftrightarrow> k < length (options str) \<and> marked V (parts s) (base k)) \<and>
        (options str \<noteq> [] \<longrightarrow> normal_ok (length (options str)) fd))"

lemma parse_makes:
  assumes "xattr_law E V" and "calm E" and "roots_at M V str base s" and "fresh s \<le> root" and "s_fs_info sb = Some []"
    and "root < fresh t" and "parts t = parts s" and "\<forall>q < fresh s. d_inode (dents t q) = d_inode (dents s q)"
    and "d_inode (dents t root) = Some i" and "d_parent (dents t root) = root" and "S_ISDIR (i_mode i)"
  defines "ws \<equiv> options str"
  shows "\<exists>sb1 t1. parse_on E M root sb (Some str) md t =
      Some (if ws \<noteq> [] \<and> marked V (parts s) (base (length ws - 1)) then 1 else 0, sb1,
        \<lparr>nr_replicas = length ws, sbi_array = Live (map (\<lambda>k. sbi_of M (ws ! k) k) [0..<length ws])\<rparr>, t1) \<and>
    s_root sb1 = s_root sb \<and> parts t1 = parts s \<and> root < fresh t1 \<and> (\<forall>q < fresh s. d_inode (dents t1 q) = d_inode (dents s q)) \<and>
    mounted M V str base root t1"
proof -
  let ?fd = "new_sfs_dentry (slab_junk E)" and ?t = "upd_dentry root (\<lambda>x. x\<lparr>d_fsdata := Some (new_sfs_dentry (slab_junk E))\<rparr>) (t\<lparr>fresh := Suc (Suc (fresh t))\<rparr>)"
  let ?n = "length ws"
  have a: "sfs_dentry_alloc E root t = (0, ?t)" using assms(2) by (simp add: sfs_dentry_alloc_def kalloc_def calm_def)
  have w: "takeWhile (\<lambda>w. w \<noteq> []) (opt_strs (Some str)) = ws" by (simp add: ws_def options_def)
  have r: "?n \<le> 64" "\<And>k. k < ?n \<Longrightarrow> length (ws ! k) < 4096 \<and> mark_ok V (parts s) (base k) \<and>
      (\<exists>p < fresh s. path_root M (ws ! k) = Some p \<and> d_inode (dents s p) = Some (base k))"
    using assms(3) unfolding roots_at_def ws_def by blast+
  have each: "\<forall>w \<in> set ws. length w < 4096 \<and> (\<exists>p. path_root M w = Some p \<and> p \<noteq> root)"
    using r(2) assms(4) by (fastforce simp: in_set_conv_nth)
  have "d_fsdata (dents ?t root) = Some ?fd" "\<forall>j \<ge> 0. replicas ?fd j = None" by (simp_all add: new_sfs_dentry_def)
  from add_partitions_adds [OF assms(2) this assms(5), of "opt_strs (Some str)" M, unfolded w minus_nat.diff_0] r(1) each
  obtain sb1 t1 where p: "add_partitions E M root (opt_strs (Some str)) sb 0 ?t = Some (Inr ?n, sb1, t1)" "same_tree root ?t t1"
    "s_root sb1 = s_root sb" "s_fs_info sb1 = Some (map (\<lambda>k. sbi_of M (ws ! k) k) [0..<?n])"
    "d_fsdata (dents t1 root) = Some (?fd\<lparr>replicas := (\<lambda>j. if j < ?n then path_root M (ws ! j) else replicas ?fd j)\<rparr>)" by (auto simp del: opt_strs.simps)
  let ?fd1 = "?fd\<lparr>replicas := (\<lambda>j. if j < ?n then path_root M (ws ! j) else replicas ?fd j)\<rparr>" and ?t1 = "t1\<lparr>fresh := Suc (fresh t1)\<rparr>"
  let ?E = "E\<lparr>replica_count := ?n\<rparr>" and ?m = "filter (\<lambda>k. marked V (parts s) (base k)) [0..<?n]"
  have t1: "parts ?t1 = parts s" "root < fresh t1" "\<And>q. q < fresh s \<Longrightarrow> d_inode (dents t1 q) = d_inode (dents s q)"
    "d_inode (dents t1 root) = Some i" "d_parent (dents t1 root) = root"
    using p(2) assms(4,6-10) by (auto simp: same_tree_def)
  have o: "op_xattr ?E = op_xattr E" by simp
  have x: "xattr_law ?E V" unfolding xattr_law_def o by (rule assms(1) [unfolded xattr_law_def])
  have c: "\<forall>k \<in> set [0..<?n]. k < replica_count ?E \<and> inode_of ?t1 (replicas ?fd1 k) = Some (base k) \<and> mark_ok V (parts ?t1) (base k)"
    using r(2) t1(1,3) by (fastforce simp: inode_of_def)
  have "d_fsdata (dents ?t1 root) = Some ?fd1" using p(5) by simp
  from check_roots_marks [OF x this c, of 0] obtain t2 where t2:
    "check_roots ?E root [0..<?n] 0 ?t1 = Some (if [0..<?n] = [] then 0 else if marked V (parts ?t1) (base (last [0..<?n])) then 1 else 0, t2)"
    "same_tree root ?t1 t2" "d_fsdata (dents t2 root) = Some (fold mark_normal ?m ?fd1)" unfolding t1(1) by blast
  have cr: "check_roots ?E root [0..<?n] 0 ?t1 = Some (if ws \<noteq> [] \<and> marked V (parts s) (base (?n - 1)) then 1 else 0, t2)"
    using t2(1) t1(1) by (cases "ws = []") simp_all
  have "parse_on E M root sb (Some str) md t = Some (if ws \<noteq> [] \<and> marked V (parts s) (base (?n - 1)) then 1 else 0, sb1,
      \<lparr>nr_replicas = ?n, sbi_array = Live (map (\<lambda>k. sbi_of M (ws ! k) k) [0..<?n])\<rparr>, t2)"
    using assms(2) cr by (simp add: parse_on_def a p(1,4) kalloc_def calm_def del: opt_strs.simps)
  moreover have "mounted M V str base root t2"
  proof -
    have d: "distinct ?m" "\<forall>k \<in> set ?m. k < 64" using r(1) by auto
    note f = fold_mark_normal [OF d, where fd = ?fd1]
    have b: "bit (normal_dir_map (fold mark_normal ?m ?fd1)) k \<longleftrightarrow> k < ?n \<and> marked V (parts s) (base k)" for k
      using f(1) by (auto simp: new_sfs_dentry_def)
    have "normal_ok ?n (fold mark_normal ?m ?fd1)" if "ws \<noteq> []"
      using that r(1) f(2,4) distinct_card [OF d(1)] unfolding normal_ok_def b by (auto simp: new_sfs_dentry_def)
    then show ?thesis
      using t2(2,3) f(3) b assms(11) t1 p(2) by (simp add: mounted_def same_tree_def ws_def)
  qed
  ultimately show ?thesis using t2(2) t1 p(3) by (auto simp: same_tree_def)
qed

lemma mount_makes:
  assumes "xattr_law E V" and "calm E" and "roots_at M V str base s"
  defines "ws \<equiv> options str"
  shows "\<exists>sb1 s1 root. sfs_fill_super E M sb (Some str) md s =
      Some (if ws \<noteq> [] \<and> marked V (parts s) (base (length ws - 1)) then 1 else 0, sb1,
        \<lparr>nr_replicas = length ws, sbi_array = Live (map (\<lambda>k. sbi_of M (ws ! k) k) [0..<length ws])\<rparr>, s1) \<and>
    s_root sb1 = Some root \<and> fresh s \<le> root \<and> root < fresh s1 \<and> parts s1 = parts s \<and> (\<forall>q < fresh s. d_inode (dents s1 q) = d_inode (dents s q)) \<and>
    mounted M V str base root s1"
proof -
  let ?F = "fresh s" and ?i = "\<lparr>i_ino = fresh s + 1, i_mode = S_IFDIR\<rparr>"
  let ?t = "(d_instantiate (?F + 2) (Some ?i) (upd_dentry (?F + 2) (\<lambda>_. \<lparr>d_name = ''/'', d_parent = ?F + 2, d_inode = None, d_count = 1,
      d_hashed = False, d_sb = s_id sb, d_fsdata = None\<rparr>) (s\<lparr>fresh := ?F + 3, nlinks := (nlinks s)(?F + 1 := 2)\<rparr>)))"
  let ?sb = "sb\<lparr>s_root := Some (?F + 2), s_fs_info := Some []\<rparr>" and ?u = "?t\<lparr>fresh := ?F + 4\<rparr>"
  have a: "sfs_fill_super E M sb (Some str) md s = parse_on E M (?F + 2) ?sb (Some str) (md\<lparr>nr_replicas := 64\<rparr>) ?u"
    using assms(2)
    by (simp add: sfs_fill_super_def kstrdup_def sfs_alloc_root_def sfs_alloc_inode_def d_make_root_def kalloc_def calm_def
        sfs_opts_parse_def sfs_master_sbi_alloc_def d_instantiate_def upd_dentry_def numeral_eq_Suc Let_def)
  have i: "S_ISDIR (i_mode ?i)" by (simp add: S_ISDIR_def S_IFDIR_def S_IFMT_def)
  obtain sb1 t1 where p: "parse_on E M (?F + 2) ?sb (Some str) (md\<lparr>nr_replicas := 64\<rparr>) ?u =
      Some (if ws \<noteq> [] \<and> marked V (parts s) (base (length ws - 1)) then 1 else 0, sb1,
        \<lparr>nr_replicas = length ws, sbi_array = Live (map (\<lambda>k. sbi_of M (ws ! k) k) [0..<length ws])\<rparr>, t1)"
    "s_root sb1 = s_root ?sb" "parts t1 = parts s" "?F + 2 < fresh t1" "\<forall>q < fresh s. d_inode (dents t1 q) = d_inode (dents s q)"
    "mounted M V str base (?F + 2) t1"
    using parse_makes [OF assms(1-3), of "?F + 2" ?sb ?u ?i "md\<lparr>nr_replicas := 64\<rparr>", folded ws_def] i
    by (auto simp: d_instantiate_def)
  then show ?thesis unfolding a by auto
qed

text \<open>C36. Mounting: the root of SFS has the roots of the partitions as its replicas, in the order of the options; the table of the
  module has an entry for each of them; the normal partitions are those whose root has the mark.  The result is the check of the
  last partition: the mount fails with 1 when that one is normal.\<close>

theorem mount_table:
  assumes "xattr_law E V" and "calm E" and "roots_at M V str base s"
  shows "\<exists>sb1 md1 s1 root. sfs_fill_super E M sb (Some str) md s =
      Some (if options str \<noteq> [] \<and> marked V (parts s) (base (length (options str) - 1)) then 1 else 0, sb1, md1, s1) \<and>
    nr_replicas md1 = length (options str) \<and>
    (\<forall>k < length (options str). get_replica_sbi md1 (int k) = Some (Some (sbi_of M (options str ! k) k))) \<and>
    s_root sb1 = Some root \<and> parts s1 = parts s \<and> mounted M V str base root s1"
proof -
  let ?t = "map (\<lambda>k. sbi_of M (options str ! k) k) [0..<length (options str)]"
  let ?md = "\<lparr>nr_replicas = length (options str), sbi_array = Live ?t\<rparr>"
  have "length (options str) < 2 ^ 32" using assms(3) by (simp add: roots_at_def)
  then have "get_replica_sbi ?md (int k) = Some (Some (sbi_of M (options str ! k) k))" if "k < length (options str)" for k
    using get_replica_sbi_live [of ?md ?t k] that by simp
  then show ?thesis using mount_makes [OF assms, of sb md] by auto
qed

section \<open>Marks of the partitions\<close>

text \<open>A new file is not the directory it is made in.\<close>

definition fresh_law :: "'f sfs_env \<Rightarrow> bool" where
  "fresh_law E \<longleftrightarrow>
     (\<forall>dir c name mode excl f i f'. op_create E dir = Some c \<longrightarrow> c name mode excl f = (Inr i, f') \<longrightarrow> i_ino i \<noteq> i_ino dir)"

text \<open>The root of SFS: every partition has a replica, with the inode \<open>base\<close>, and the normal ones are those with the mark.\<close>

definition root_of_parts :: "'f sfs_env \<Rightarrow> 'f part_view \<Rightarrow> sfs_dentry \<Rightarrow> (nat \<Rightarrow> inode) \<Rightarrow> 'f sfs \<Rightarrow> bool" where
  "root_of_parts E V pd base s \<longleftrightarrow>
     (\<forall>k < replica_count E. inode_of s (replicas pd k) = Some (base k) \<and>
        (marked V (parts s) (base k) \<longleftrightarrow> bit (normal_dir_map pd) k))"

lemma set_normal_marks:
  assumes "xattr_law E V" and "d_fsdata (dents s P) = Some pd" and "find_replica_dentry E P (int k) s = Some r" and "inode_of s r = Some b"
    and "set_normal_dir E P (int k) s = Some (0, s1)" and "bit (normal_dir_map pd) k \<longrightarrow> marked V (parts s) b"
  shows "marked V (parts s1) c \<longleftrightarrow> marked V (parts s) c \<or> i_ino c = i_ino b"
proof (cases "bit (normal_dir_map pd) k")
  case True
  then have "s1 = s" using assms(2,5) by (simp add: set_normal_dir_def test_bitmap_bit)
  then show ?thesis using True assms(6) by (auto simp: marked_def)
next
  case False
  obtain e f where x: "vfs_setxattr (op_xattr E) b SHADOW normal_value (parts s) = (e, f)" by fastforce
  have s1: "e = 0" "parts s1 = f" using assms(2-5) False x by (auto simp: set_normal_dir_def test_bitmap_bit Let_def)
  have "xattr V f = (xattr V (parts s))(i_ino b := (xattr V (parts s) (i_ino b))(SHADOW \<mapsto> normal_value))"
    using assms(1) x s1(1) unfolding xattr_law_def by auto
  then show ?thesis using s1(2) by (simp add: marked_def)
qed

lemma add_entry_marks:
  assumes "parts_ok E V" and "fresh_law E" and "heap_ok V s" and "k < 64" and "d_fsdata (dents s (d_parent (dents s d))) = Some pd"
    and "inode_of s (replicas pd k) = Some b" and "bit (normal_dir_map pd) k \<longrightarrow> marked V (parts s) b" and "k < replica_count E"
    and "simple_add_entry E d \<lparr>arg_type = Creat excl, arg_mode = mode\<rparr> (int k) s = Some (0, s1)" and "home V (i_ino c) = k \<longrightarrow> c = b"
  shows "marked V (parts s1) c \<longleftrightarrow> marked V (parts s) c \<or> c = b"
proof -
  let ?P = "d_parent (dents s d)"
  have l: "lookup_law E V" "create_law E V" "xattr_law E V" using assms(1) by (simp_all add: parts_ok_def)
  obtain rp where rp: "replicas pd k = Some rp" "d_inode (dents s rp) = Some b" using assms(6) by (cases "replicas pd k") (auto simp: inode_of_def)
  have f: "find_replica_dentry E ?P (int k) s = Some (Some rp)" using assms(5,8) rp(1) by (simp add: find_replica_dentry_def)
  note R = find_replica_ok [OF assms(3) f]
  have home: "home V (i_ino b) = k" using R(2) rp(2) by (simp add: rep_ok_def)
  obtain r sc where c: "create_replica_dir E ?P (int k) CLONE_NORMAL s = Some (r, sc)"
    using assms(9) by (auto simp: simple_add_entry_def bind_eq_Some_conv)
  then obtain q where r: "r = Inr q" using assms(9) by (cases r) (auto simp: simple_add_entry_def dest: create_replica_err [OF l(1)])
  then have n: "set_normal_dir E ?P (int k) s = Some (0, sc)" "q = rp"
    using c f rp(2) by (auto simp: create_replica_dir_def inode_of_def bind_eq_Some_conv split: if_splits)
  have m: "marked V (parts sc) c \<longleftrightarrow> marked V (parts s) c \<or> i_ino c = i_ino b" for c
    by (rule set_normal_marks [OF l(3) assms(5) f _ n(1) assms(7)]) (simp add: inode_of_def rp(2))
  note t = set_normal_makes [OF l(3) assms(3,4) n(1)]
  have hc: "heap_ok V sc" "find_replica_dentry E ?P (int k) sc = Some (Some rp)" "d_inode (dents sc rp) = Some b"
    using t grows_find [OF _ assms(3) f] rp(2) by auto
  obtain x sd where g: "get_replica_dentry E (Some rp) d (int k) sc = Some (x, sd)"
    using assms(9) c r n(2) by (auto simp: simple_add_entry_def bind_eq_Some_conv)
  then obtain p where x: "x = Inr p" using assms(9) c r n(2) by (cases x) (auto simp: simple_add_entry_def dest: get_replica_err [OF l(1)])
  have pd: "parts sd = parts sc" using get_replica_new [OF l(1) hc(1) find_replica_ok [OF hc(1,2)] g [unfolded x]] by blast
  have "add_to E b p \<lparr>arg_type = Creat excl, arg_mode = mode\<rparr> sd = Some (0, s1)"
    using assms(9) c r n(2) g x hc(3) by (simp add: simple_add_entry_def)
  then obtain h where h: "op_create E b = Some h" "made p (h (d_name (dents sd p)) mode excl (parts sd)) sd = (0, s1)"
    by (auto simp: add_to_def split: option.splits)
  obtain y f1 where y: "h (d_name (dents sd p)) mode excl (parts sd) = (y, f1)" by fastforce
  have "case h (d_name (dents sd p)) mode excl (parts sd) of
       (Inl e, f') \<Rightarrow> e < 0 \<and> same_view V (parts sd) f'
     | (Inr i, f') \<Rightarrow> new_object V (i_ino b) (d_name (dents sd p)) (parts sd) i f' \<and> i_mode i AND S_IFMT = mode AND S_IFMT"
    by (rule l(2) [unfolded create_law_def, rule_format, OF h(1)])
  then obtain i where i: "y = Inr i" "new_object V (i_ino b) (d_name (dents sd p)) (parts sd) i f1" "parts s1 = f1"
    using h(2) y by (cases y) (auto simp: made_def d_instantiate_def)
  have ib: "i_ino i \<noteq> i_ino b" "home V (i_ino i) = k"
    using assms(2) [unfolded fresh_law_def, rule_format, OF h(1) y [unfolded i(1)]] i(2) home by (simp_all add: new_object_def)
  have "i_ino c \<noteq> i_ino i" using ib assms(10) by metis
  then have "marked V (parts s1) c = marked V (parts sc) c" using i(2,3) pd by (simp add: marked_def new_object_def)
  then show ?thesis using m [of c] assms(10) home by metis
qed

text \<open>A creation in the root marks the partition of the new file.\<close>

lemma create_marks:
  assumes "parts_ok E V" and "fresh_law E" and "new_name E V d pd s" and "root_of_parts E V pd base s" and "sfs_create E d mode excl s = Some (0, s1)"
  shows "\<exists>k fd. d_fsdata (dents s1 d) = Some fd \<and> replica_id fd = int k \<and>
    (\<forall>j < replica_count E. marked V (parts s1) (base j) \<longleftrightarrow> bit (normal_dir_map pd) j \<or> j = k)"
proof -
  let ?P = "d_parent (dents s d)" and ?arg = "\<lparr>arg_type = Creat excl, arg_mode = mode\<rparr>"
  obtain fd where h: "heap_ok V s" and P: "d_fsdata (dents s ?P) = Some pd" "d_inode (dents s ?P) \<noteq> None"
    and nk: "normal_ok (replica_count E) pd" and ld: "last_dispatch s \<le> DISPATCH_MAX" and di: "d_inode (dents s d) = None"
    and fd: "d_fsdata (dents s d) = Some fd" "replicas fd = (\<lambda>_. None)" using assms(3) unfolding new_name_def by blast
  obtain k c l i sb sc where k: "k < replica_count E"
    and ni: "dents sb = dents (upd_fsdata ?P (\<lambda>_. pd\<lparr>local_counter := c\<rparr>) (s\<lparr>last_dispatch := l\<rparr>))" "parts sb = parts s" "fresh sb = fresh s + 1"
    and a: "simple_add_entry E d ?arg (int k) sb = Some (0, sc)" and s1: "s1 = d_instantiate d (Some i) (set_replica_id d (int k) sc)"
    using create_steps [OF P(1) nk ld assms(5)] by blast
  note gd = grows_dispatch [OF h P(1), where c = c and l = l]
  have hb: "heap_ok V sb" by (rule heap_ok_same [OF gd(1) ni(1)]) (simp add: ni)
  have dP: "d \<noteq> ?P" using di P(2) by auto
  have k64: "k < 64" using k nk by (simp add: normal_ok_def)
  let ?pd = "pd\<lparr>local_counter := c\<rparr>"
  have b: "d_fsdata (dents sb (d_parent (dents sb d))) = Some ?pd" "d_parent (dents sb d) = ?P" "d_fsdata (dents sb d) = Some fd" "d_inode (dents sb d) = None"
    using dP P(1) fd(1) di by (simp_all add: ni)
  have io: "inode_of sb r = inode_of s r" for r by (cases r) (simp_all add: inode_of_def ni)
  have base: "inode_of s (replicas pd j) = Some (base j)" "marked V (parts s) (base j) \<longleftrightarrow> bit (normal_dir_map pd) j" "home V (i_ino (base j)) = j"
    if "j < replica_count E" for j
  proof -
    show i: "inode_of s (replicas pd j) = Some (base j)" "marked V (parts s) (base j) \<longleftrightarrow> bit (normal_dir_map pd) j"
      using that assms(4) unfolding root_of_parts_def by auto
    then obtain q where "replicas pd j = Some q" "d_inode (dents s q) = Some (base j)" by (cases "replicas pd j") (auto simp: inode_of_def)
    then show "home V (i_ino (base j)) = j" using heap_okD(4) [OF h P(1)] by (auto simp: rep_ok_def)
  qed
  have m: "marked V (parts sc) (base j) \<longleftrightarrow> marked V (parts sb) (base j) \<or> base j = base k" if "j < replica_count E" for j
    by (rule add_entry_marks [OF assms(1,2) hb k64 b(1) _ _ k a]) (use base k that ni(2) io in auto)
  have "base j = base k \<longleftrightarrow> j = k" if "j < replica_count E" for j using base(3) that k by metis
  then have "marked V (parts s1) (base j) \<longleftrightarrow> bit (normal_dir_map pd) j \<or> j = k" if "j < replica_count E" for j
    using m [OF that] that base(2) by (simp add: s1 ni(2) set_replica_id_def d_instantiate_def)
  moreover obtain fc where "d_fsdata (dents sc d) = Some fc"
  proof -
    have "d_inode (dents sb (d_parent (dents sb d))) \<noteq> None" using dP P(2) by (simp add: ni)
    from add_entry_creates [OF assms(1) hb k64 this b(3) fd(2) b(4) a] have "grows V k sb sc" by blast
    from grows_fsdataD [OF this hb b(3)] show ?thesis using that by blast
  qed
  ultimately show ?thesis by (auto simp: s1 set_replica_id_def d_instantiate_def)
qed

section \<open>A file over a new mount\<close>

lemma created_at:
  assumes "heap_ok V s" and "grows V k s s1" and "d_fsdata (dents s P) = Some pd" and "d_fsdata (dents s1 P) = Some pd1"
    and "inode_of s (replicas pd j) = Some b"
  shows "inode_of s1 (replicas pd1 j) = Some b"
proof -
  obtain q where q: "replicas pd j = Some q" "d_inode (dents s q) = Some b" using assms(5) by (cases "replicas pd j") (auto simp: inode_of_def)
  have "data_grows k pd pd1" using grows_fsdataD [OF assms(2,1,3)] assms(4) by (metis option.inject)
  then have "replicas pd1 j = Some q" using q(1) by (simp add: data_grows_def)
  then show ?thesis using grows_inode_of [OF assms(2) heap_okD(3) [OF assms(1,3) q(1)] q(2)] by (simp add: inode_of_def)
qed

text \<open>C35. A file survives a new mount: when SFS is mounted again on the partitions after a file was created in its root, a look-up of
  the name finds the file on the same partition, with the same inode of the partition.\<close>

theorem remount_lookup:
  assumes "parts_ok E V" and "calm E" and "fresh_law E" and "new_name E V d pd s" and "absent V d pd s" and "mode AND S_IFMT = S_IFREG"
    and "root_of_parts E V pd base s" and "sfs_create E d mode excl s = Some (0, s1)"
    and "roots_at M V str base t" and "parts t = parts s1" and "length (options str) = replica_count E"
    and "sfs_fill_super E M sb (Some str) md t = Some (0, sb1, md1, t1)" and "s_root sb1 = Some root"
    and "d_alloc E root (d_name (dents s d)) t1 = (Some d2, t2)"
  shows "\<exists>t3 fd fd2 i. sfs_lookup E d2 flags t2 = Some (0, t3) \<and> d_fsdata (dents s1 d) = Some fd \<and> d_fsdata (dents t3 d2) = Some fd2 \<and>
    replica_id fd2 = replica_id fd \<and> meta_id fd2 = - 1 \<and> inode_of s1 (replicas fd (nat (replica_id fd))) = Some i \<and>
    inode_of t3 (replicas fd2 (nat (replica_id fd2))) = Some i"
proof -
  let ?P = "d_parent (dents s d)" and ?n = "d_name (dents s d)" and ?rc = "replica_count E"
  obtain k where k: "k < ?rc" "heap_ok V s1" "grows V k s s1" "placed E V ?P k mode d s1" using create_places [OF assms(1,4,8)] by blast
  obtain rp b i pd1 fd where c: "find_replica_dentry E ?P (int k) s1 = Some (Some rp)" "d_inode (dents s1 rp) = Some b"
    "d_fsdata (dents s1 ?P) = Some pd1" "bit (normal_dir_map pd1) k" "entry V (parts s1) (i_ino b) (d_name (dents s1 d)) = Some i"
    "i_mode i AND S_IFMT = mode AND S_IFMT" "xattr V (parts s1) (i_ino i) META = None" "d_fsdata (dents s1 d) = Some fd"
    "replica_id fd = int k" "inode_of s1 (replicas fd k) = Some i" using k(4) unfolding placed_def by blast
  have h: "heap_ok V s" "d_fsdata (dents s ?P) = Some pd" "normal_ok ?rc pd" "d_fsdata (dents s d) \<noteq> None"
    using assms(4) unfolding new_name_def by auto
  have "d < fresh s" using h(4) heap_okD(1) [OF h(1)] by blast
  then have nm: "d_name (dents s1 d) = ?n" using k(3) by (simp add: grows_def dentry_grows_def)
  have base: "inode_of s1 (replicas pd1 j) = Some (base j)" if "j < ?rc" for j
    by (rule created_at [OF h(1) k(3) h(2) c(3)]) (use assms(7) that in \<open>simp add: root_of_parts_def\<close>)
  have "replicas pd1 k = Some rp" using find_replica_SomeD [OF c(1)] c(3) by auto
  then have bk: "b = base k" using base [OF k(1)] c(2) by (simp add: inode_of_def)
  have marks: "marked V (parts s1) (base j) \<longleftrightarrow> bit (normal_dir_map pd) j \<or> j = k" if "j < ?rc" for j
    using create_marks [OF assms(1,3,4,7,8)] c(8,9) that by auto
  have pd1: "data_grows k pd pd1" using grows_fsdataD [OF k(3) h(1,2)] c(3) by (metis option.inject)
  have other: "entry V (parts s1) (i_ino (base j)) ?n = None" if j: "j < ?rc" "marked V (parts s1) (base j)" "j \<noteq> k" for j
  proof -
    have "bit (normal_dir_map pd1) j" using marks [OF j(1)] j(2,3) pd1 by (simp add: data_grows_def)
    from absent_elsewhere [OF h(1) k(2,3) h(2) c(3) assms(5) h(3) this j(3)] base [OF j(1)] show ?thesis by (auto simp: inode_of_def)
  qed
  have x: "xattr_law E V" using assms(1) by (simp add: parts_ok_def)
  from mount_makes [OF x assms(2,9), of sb md] assms(12,13)
  have m: "fresh t \<le> root" "root < fresh t1" "parts t1 = parts t" "\<forall>q < fresh t. d_inode (dents t1 q) = d_inode (dents t q)"
    "mounted M V str base root t1" by auto
  then obtain fd0 where f: "d_fsdata (dents t1 root) = Some fd0" "\<And>j. j < ?rc \<Longrightarrow> replicas fd0 j = path_root M (options str ! j)"
    "\<And>j. bit (normal_dir_map fd0) j \<longleftrightarrow> j < ?rc \<and> marked V (parts s1) (base j)"
    unfolding mounted_def assms(10,11) m(3) by blast
  have nb: "j < ?rc \<and> (\<exists>rp < fresh t1. replicas fd0 j = Some rp \<and> d_inode (dents t1 rp) = Some (base j))" if "bit (normal_dir_map fd0) j" for j
  proof -
    have j: "j < ?rc" using f(3) that by simp
    then obtain p where p: "p < fresh t" "path_root M (options str ! j) = Some p" "d_inode (dents t p) = Some (base j)"
      using assms(9) unfolding roots_at_def assms(11) by blast
    then have "p < fresh t1" "d_inode (dents t1 p) = Some (base j)" using m(1,2,4) by auto
    then show ?thesis using j f(2) p(2) by simp
  qed
  note al = fresh_name_alloc [OF assms(14) m(2) f(1), of base, OF nb]
  have "\<exists>t3 fd2 si. sfs_lookup E d2 flags t2 = Some (0, t3) \<and> d_fsdata (dents t3 d2) = Some fd2 \<and> replica_id fd2 = int k \<and>
    meta_id fd2 = - 1 \<and> inode_of t3 (replicas fd2 k) = Some i \<and> d_inode (dents t3 d2) = Some si \<and> i_mode si = i_mode i"
    by (rule lookup_file [OF assms(1,2) al(1)]) (use f(3) marks k(1) c(5-7) nm bk al(2,3) m(3) assms(6,10) other in auto)
  then show ?thesis using c(8-10) by auto
qed

section \<open>An instance\<close>

text \<open>The two partitions in memory, mounted at the paths \<open>a\<close> and \<open>b\<close>.\<close>

definition mem_super :: "nat \<Rightarrow> super_block" where
  "mem_super n = \<lparr>s_id = n, s_maxbytes = 2 ^ 40, s_flags = 0, s_max_links = 32000, s_mode = 0, s_blocksize = 4096, s_blocksize_bits = 12,
     s_root = None, s_fs_info = None\<rparr>"

definition mem_mounts :: "mem_fs mount_ops" where
  "mem_mounts =
     \<lparr>kern_path = (\<lambda>w. if w = ''a'' then Inr (0, 1) else if w = ''b'' then Inr (1, 2) else Inl (- ENOENT)), mnt_sb = mem_super,
      vfs_statfs = (\<lambda>m i b f. (0, no_stat\<lparr>f_bsize := 4096, f_blocks := 1000, f_bfree := 500\<rparr>)),
      op_sync_fs = (\<lambda>_. None), op_freeze_fs = (\<lambda>_. None), op_unfreeze_fs = (\<lambda>_. None)\<rparr>"

definition demo_module :: sfs_module where
  "demo_module = \<lparr>nr_replicas = 2, sbi_array = Live [sbi_of mem_mounts ''a'' 0, sbi_of mem_mounts ''b'' 1]\<rparr>"

theorem statfs_sums_witness:
  "\<exists>b. sfs_statfs mem_env mem_mounts demo_module 0 no_stat demo_fs = Some (0, b) \<and> f_blocks b = 2000 \<and> f_bfree b = 1000 \<and> f_bsize b = 4096"
proof -
  let ?t = "[sbi_of mem_mounts ''a'' 0, sbi_of mem_mounts ''b'' 1]"
  have h: "statfs_fills mem_mounts" "sbi_array demo_module = Live ?t" "length ?t = nr_replicas demo_module" "nr_replicas demo_module < 2 ^ 32"
    "nr_replicas demo_module = replica_count mem_env" "d_fsdata (dents demo_fs 0) = Some root_data"
    by (simp_all add: statfs_fills_def mem_mounts_def demo_module_def mem_env_def demo_fs_def demo_dentry_def)
  have p: "present mem_env root_data demo_fs = [0, 1]"
    by (simp add: present_def mem_env_def root_data_def demo_fs_def demo_dentry_def inode_of_def upt_rec)
  have st: "part_stat mem_mounts ?t root_data demo_fs k = (0, no_stat\<lparr>f_bsize := 4096, f_blocks := 1000, f_bfree := 500\<rparr>)" for k
    by (simp add: part_stat_def mem_mounts_def)
  from statfs_sums [OF h, of no_stat, unfolded p st] show ?thesis by auto
qed

lemma demo_options: "options ''a:b'' = [''a'', ''b'']"
  by (simp add: options_def strsep_def)

lemma demo_paths: "path_root mem_mounts ''a'' = Some 1" "path_root mem_mounts ''b'' = Some 2"
  by (simp_all add: path_root_def mem_mounts_def)

lemma less_two: "k < 2 \<longleftrightarrow> k = 0 \<or> k = (1 :: nat)"
  by auto

lemma demo_roots:
  assumes "dents t = dents demo_fs" and "fresh t = fresh demo_fs" and "\<And>k. k < 2 \<Longrightarrow> mark_ok mem_view (parts t) (dir_inode k)"
  shows "roots_at mem_mounts mem_view ''a:b'' dir_inode t"
proof -
  have "\<exists>p < fresh t. path_root mem_mounts ([''a'', ''b''] ! k) = Some p \<and> d_inode (dents t p) = Some (dir_inode k)" if "k < 2" for k
  proof (cases "k = 0")
    case True
    then show ?thesis by (simp add: demo_paths assms(1,2) demo_fs_def demo_dentry_def)
  next
    case False
    then have "k = 1" using that by simp
    then show ?thesis by (simp add: demo_paths assms(1,2) demo_fs_def demo_dentry_def)
  qed
  moreover have "length ([''a'', ''b''] ! k) < 4096" if "k < 2" for k using that by (simp add: nth_Cons')
  ultimately show ?thesis using assms(3) by (simp add: roots_at_def demo_options)
qed

definition demo_marked :: "mem_fs sfs" where
  "demo_marked = demo_fs\<lparr>parts := (0, \<lambda>_ _. None, (\<lambda>_ _. None)(1 := [SHADOW \<mapsto> normal_value]))\<rparr>"

theorem mount_table_witness:
  "(\<exists>sb1 md1 s1 root. sfs_fill_super mem_env mem_mounts (mem_super 2) (Some ''a:b'') \<lparr>nr_replicas = 0, sbi_array = Null\<rparr> demo_fs = Some (0, sb1, md1, s1) \<and>
     nr_replicas md1 = 2 \<and> get_replica_sbi md1 1 = Some (Some (sbi_of mem_mounts ''b'' 1)) \<and> s_root sb1 = Some root \<and>
     mounted mem_mounts mem_view ''a:b'' dir_inode root s1) \<and>
   (\<exists>sb1 md1 s1 root fd. sfs_fill_super mem_env mem_mounts (mem_super 2) (Some ''a:b'') \<lparr>nr_replicas = 0, sbi_array = Null\<rparr> demo_marked = Some (1, sb1, md1, s1) \<and>
     s_root sb1 = Some root \<and> d_fsdata (dents s1 root) = Some fd \<and> bit (normal_dir_map fd) 1 \<and> \<not> bit (normal_dir_map fd) 0)"
proof
  have x: "xattr_law mem_env mem_view" using mem_parts_ok by (simp add: parts_ok_def)
  have n: "xattr mem_view (parts demo_fs) i SHADOW = None" for i by (simp add: mem_view_def demo_fs_def)
  then have r: "roots_at mem_mounts mem_view ''a:b'' dir_inode demo_fs" by (intro demo_roots) (simp_all add: mark_ok_def)
  from mount_table [OF x demo_new_name(3) r, of "mem_super 2" "\<lparr>nr_replicas = 0, sbi_array = Null\<rparr>"] n
  show "\<exists>sb1 md1 s1 root. sfs_fill_super mem_env mem_mounts (mem_super 2) (Some ''a:b'') \<lparr>nr_replicas = 0, sbi_array = Null\<rparr> demo_fs = Some (0, sb1, md1, s1) \<and>
     nr_replicas md1 = 2 \<and> get_replica_sbi md1 1 = Some (Some (sbi_of mem_mounts ''b'' 1)) \<and> s_root sb1 = Some root \<and>
     mounted mem_mounts mem_view ''a:b'' dir_inode root s1"
    by (force simp: demo_options marked_def)
  have m: "marked mem_view (parts demo_marked) (dir_inode k) = (k = 1)" "mark_ok mem_view (parts demo_marked) (dir_inode k)" for k
    by (simp_all add: mark_ok_def marked_def mem_view_def demo_marked_def dir_inode_def)
  then have r: "roots_at mem_mounts mem_view ''a:b'' dir_inode demo_marked" by (intro demo_roots) (simp_all add: demo_marked_def)
  from mount_table [OF x demo_new_name(3) r, of "mem_super 2" "\<lparr>nr_replicas = 0, sbi_array = Null\<rparr>"] m
  show "\<exists>sb1 md1 s1 root fd. sfs_fill_super mem_env mem_mounts (mem_super 2) (Some ''a:b'') \<lparr>nr_replicas = 0, sbi_array = Null\<rparr> demo_marked = Some (1, sb1, md1, s1) \<and>
     s_root sb1 = Some root \<and> d_fsdata (dents s1 root) = Some fd \<and> bit (normal_dir_map fd) 1 \<and> \<not> bit (normal_dir_map fd) 0"
    unfolding demo_options by (fastforce simp: mounted_def demo_options)
qed

text \<open>The root before the first file: no partition is normal.\<close>

definition plain_root :: sfs_dentry where
  "plain_root = (new_sfs_dentry 0)\<lparr>replicas := (\<lambda>_. None)(0 := Some 1, 1 := Some 2)\<rparr>"

definition demo_plain :: "mem_fs sfs" where
  "demo_plain = demo_fs\<lparr>dents := (dents demo_fs)(0 := demo_dentry ''/'' 0 (Some (dir_inode 100)) 2 (Some plain_root))\<rparr>"

lemmas plain_defs = demo_plain_def plain_root_def demo_fs_def demo_dentry_def root_data_def new_sfs_dentry_def dir_inode_def

lemma plain_new_name: "new_name mem_env mem_view 3 plain_root demo_plain" "absent mem_view 3 plain_root demo_plain"
  "root_of_parts mem_env mem_view plain_root dir_inode demo_plain"
proof -
  have "heap_ok mem_view demo_plain"
    by (auto simp: heap_ok_def data_ok_def rep_ok_def plain_defs mem_view_def split: if_splits)
  moreover have "normal_ok 2 plain_root" by (auto simp: normal_ok_def plain_root_def new_sfs_dentry_def)
  ultimately show "new_name mem_env mem_view 3 plain_root demo_plain" by (simp add: new_name_def plain_defs mem_env_def)
  show "absent mem_view 3 plain_root demo_plain" by (simp add: absent_def plain_root_def new_sfs_dentry_def)
  show "root_of_parts mem_env mem_view plain_root dir_inode demo_plain"
    by (auto simp: root_of_parts_def mem_env_def less_two marked_def mem_view_def inode_of_def plain_defs)
qed

lemma plain_dispatch: "local_dispatch 2 plain_root 0 = Some (0, plain_root, 1)"
proof -
  have "dispatch_new 0 2 0 = Some (0, 1)"
    by (subst dispatch_new.simps) (simp add: dispatch_def DISPATCH_MAX_def test_bitmap_def)
  then show ?thesis by (simp add: local_dispatch_def plain_root_def new_sfs_dentry_def span_threshold_def SPAN_THRESHOLD_def)
qed

lemma plain_create:
  "\<exists>s1. sfs_create mem_env 3 0x81A4 False demo_plain = Some (0, s1) \<and> snd (snd (parts s1)) 0 SHADOW = Some normal_value \<and>
     snd (snd (parts s1)) 1 SHADOW = None"
proof -
  have p: "d_parent (dents demo_plain 3) = 0" by (simp add: demo_plain_def demo_fs_def demo_dentry_def)
  have ld: "local_dispatch_on mem_env 0 demo_plain = Some (0, - 1, upd_fsdata 0 (\<lambda>_. plain_root) (demo_plain\<lparr>last_dispatch := 1\<rparr>))"
    using plain_dispatch by (simp add: local_dispatch_on_def demo_plain_def demo_fs_def demo_dentry_def mem_env_def)
  show ?thesis
    unfolding sfs_create_def sfs_add_entry_def p ld
    by (simp add: sfs_new_inode_def sfs_alloc_inode_def kalloc_def S_IFMT_def S_IFREG_def simple_add_entry_def create_replica_dir_def
      find_replica_dentry_def inode_of_def set_normal_dir_def get_replica_dentry_def sfs_lookup_one_len_def d_alloc_def part_lookup_def
      add_to_def made_def d_add_def d_add_replica_def Let_def mem_env_def plain_defs mem_entry_def mem_make_def mem_set_def test_bitmap_def
      set_bitmap_def d_instantiate_def set_replica_id_def)
qed

lemma mem_fresh_law: "fresh_law mem_env"
  by (auto simp: fresh_law_def mem_env_def mem_make_def Let_def split: if_splits prod.splits)

theorem remount_lookup_witness:
  "\<exists>s1 sb1 md1 t1 root d2 t2 t3 fd2. sfs_create mem_env 3 0x81A4 False demo_plain = Some (0, s1) \<and>
     sfs_fill_super mem_env mem_mounts (mem_super 2) (Some ''a:b'') demo_module (demo_fs\<lparr>parts := parts s1\<rparr>) = Some (0, sb1, md1, t1) \<and>
     s_root sb1 = Some root \<and> d_alloc mem_env root ''a'' t1 = (Some d2, t2) \<and> sfs_lookup mem_env d2 0 t2 = Some (0, t3) \<and>
     d_fsdata (dents t3 d2) = Some fd2 \<and> meta_id fd2 = - 1"
proof -
  obtain s1 where c: "sfs_create mem_env 3 0x81A4 False demo_plain = Some (0, s1)" "snd (snd (parts s1)) 0 SHADOW = Some normal_value"
    "snd (snd (parts s1)) 1 SHADOW = None" using plain_create by blast
  let ?t = "demo_fs\<lparr>parts := parts s1\<rparr>"
  have x: "xattr_law mem_env mem_view" using mem_parts_ok by (simp add: parts_ok_def)
  have "mark_ok mem_view (parts ?t) (dir_inode k)" if "k < 2" for k
    using that c(2,3) by (cases "k = 0") (auto simp: mark_ok_def marked_def mem_view_def dir_inode_def less_two)
  then have r: "roots_at mem_mounts mem_view ''a:b'' dir_inode ?t" by (intro demo_roots) simp_all
  have nm: "\<not> marked mem_view (parts ?t) (dir_inode (length (options ''a:b'') - 1))"
    using c(3) by (simp add: marked_def mem_view_def dir_inode_def demo_options)
  from mount_makes [OF x demo_new_name(3) r, of "mem_super 2" demo_module] nm obtain sb1 md1 t1 root where
    f: "sfs_fill_super mem_env mem_mounts (mem_super 2) (Some ''a:b'') demo_module ?t = Some (0, sb1, md1, t1)" "s_root sb1 = Some root" by auto
  obtain d2 t2 where a: "d_alloc mem_env root ''a'' t1 = (Some d2, t2)" by (simp add: d_alloc_def kalloc_def mem_env_def)
  have n: "d_name (dents demo_plain 3) = ''a''" by (simp add: demo_plain_def demo_fs_def demo_dentry_def)
  have m: "(0x81A4 :: umode) AND S_IFMT = S_IFREG" by (simp add: S_IFMT_def S_IFREG_def)
  have l: "parts ?t = parts s1" "length (options ''a:b'') = replica_count mem_env" by (simp_all add: demo_options mem_env_def)
  from remount_lookup [OF mem_parts_ok demo_new_name(3) mem_fresh_law plain_new_name(1,2) m plain_new_name(3) c(1) r l f, unfolded n, OF a, of 0]
  show ?thesis using c(1) f a by blast
qed

end
