(* ===== verification/Spec2Isabelle.thy ===== *)
theory Spec2Isabelle
  imports Ext3_Map Loop_Status Sfs_Kv Sfs_Dispatch Sfs_Dir Sfs_Moves Sfs_Mounts
begin

text \<open>
  MultiLanes gives each container its own lane to the disk.  The development covers two of its parts: the virtualized
  block device, a loop driver that sends requests past the host file system to the host disk
  (\<^verbatim>\<open>linux-3.10.103-multilanes-driver-alone\<close>), and SFS, a stackable file system that spreads one name space over several
  partitions (\<^verbatim>\<open>sfs16\<close>).

  \<^bold>\<open>The virtualized device.\<close>  A request for the device is split into blocks; each block is translated to a block of the host
  disk, through a cache or by a worker thread that asks the host file system for its block map; the pieces are submitted to
  the host disk.

  \<^item> \<open>Block_Cache\<close>: the hash table and replacement list of translations (\<^verbatim>\<open>add_cache\<close>, \<^verbatim>\<open>find_cache_node\<close>,
    \<^verbatim>\<open>block_cache_lookup\<close>).  The list of nodes and the chains are pointers into a heap; the table is shown to be the list
    of the last insertions, which is the interface \<open>translation_cache\<close> of the rest.
  \<^item> \<open>Loop_Bio\<close>: block requests and their segments, \<^verbatim>\<open>bio_add_page\<close> with merging, and the accounting of a request that
    was split (\<^verbatim>\<open>lo_send_bio\<close>, \<^verbatim>\<open>lo_end_bio\<close>): it ends once, with the first error.
  \<^item> \<open>Loop_Translate\<close>: the queue of translation requests and the worker \<^verbatim>\<open>loop_thread\<close>.  What it needs of the host file
    system is the interface \<open>block_mapper\<close>.
  \<^item> \<open>Ext3_Map\<close>: \<^verbatim>\<open>ext3_get_block\<close> of \<^verbatim>\<open>fs/ext3/inode.c\<close> down to the pointer blocks, and that it provides
    \<open>block_mapper\<close>; the block map of a new file stays injective over any sequence of calls.
  \<^item> \<open>Loop_Redirect\<close>: \<^verbatim>\<open>redirect_bio\<close>: where every sector of a request goes, and what happens on flushes and errors.
  \<^item> \<open>Loop_Transfer\<close>: the transfer functions and the write path through the backing file; a transfer is a
    \<open>sector_cipher\<close>.
  \<^item> \<open>Loop_Info\<close>: the three layouts of the status and their conversions, at their widths.
  \<^item> \<open>Loop_Device\<close>: binding, switching and clearing of the backing file, the status ioctls, open and release.
    \<open>Loop_Config\<close>: each of these keeps a device in order and the reference counts balanced.
  \<^item> \<open>Loop_Index\<close>: the set of devices, the control device, the table of transfer modules, loading and unloading; the
    reachable states as an inductive predicate with its invariant.
  \<^item> \<open>Loop_Control\<close>, \<open>Loop_Status\<close>: the properties of the configuration: references, states, recursion between devices,
    sizes, status, permissions, free devices.

  \<^bold>\<open>SFS.\<close>  A directory of SFS has a replica on some partitions; a file has one data file and, when it is partitioned, a meta
  file that points to it.

  \<^item> \<open>Sfs_Kv\<close>: the links between meta and data files, as decimal text in an extended attribute (\<^verbatim>\<open>kv.c\<close>).
  \<^item> \<open>Sfs_Dispatch\<close>: the choice of a partition for a new object (\<^verbatim>\<open>dispatch.c\<close>).
  \<^item> \<open>Sfs_Dir\<close>: reading a directory as the union of its replicas (\<^verbatim>\<open>dir.c\<close>), with the size of the objects that hold the names.
  \<^item> \<open>Sfs_Vfs\<close>: the dentries and inodes SFS works on, the functions of the dentry cache it calls (\<^verbatim>\<open>fs/dcache.c\<close>), and the table
    of replicas of a dentry (\<^verbatim>\<open>dentry.c\<close>, \<^verbatim>\<open>inode.c\<close>, \<^verbatim>\<open>sfs_fs.h\<close>).  A dentry is a pointer into a heap; the directory
    operations of the partitions are the record \<open>part_ops\<close>.
  \<^item> \<open>Sfs_Namei\<close>: look-up, validation, creation, links and removal (\<^verbatim>\<open>namei.c\<close>).
  \<^item> \<open>Sfs_Rename\<close>: renaming of directories and files (\<^verbatim>\<open>rename.c\<close>).
  \<^item> \<open>Sfs_Names\<close>: what is relied on of a partition (\<open>parts_ok\<close>: its directories are maps from names to inodes), and that a file
    that was created is found and one that was removed is not.
  \<^item> \<open>Sfs_Moves\<close>: the faults of renaming: a failed rename that loses the data of the file it was to replace, and the rename
    of a directory that is done and returns an error.
  \<^item> \<open>Sfs_Super\<close>: mounting, the table of the partitions, the statistics, and the operations on every partition (\<^verbatim>\<open>super.c\<close>).
  \<^item> \<open>Sfs_Mounts\<close>: the table that a mount makes, a file over a new mount, and the statistics as sums.

  \<^bold>\<open>Conventions.\<close>  State is passed explicitly as records; a kernel error is a negative integer; \<open>None\<close> as the result of an
  operation is a loop that does not end or an access that is not allowed, as said where it is used.  Loops that may not end
  are partial functions and their properties include that they do end.  One loop, \<open>alloc_loop\<close> of ext3, counts its rounds; each
  round but the last finds a block that is still needed, so the count that \<open>ext3_alloc_blocks\<close> starts it with is never used
  up (\<open>alloc_loop_ok\<close>).  Sector and block numbers are
  natural numbers; flags, status fields, keys and bitmaps are words of their width.
  Products of block counts and sizes are not cut to the width of \<^verbatim>\<open>int\<close>, which bounds the prefetch length as said in
  \<open>Loop_Translate\<close>.  Code outside of the sources (the host
  disk, the journal and allocator of ext3, the partitions of SFS, user buffers, the number map) is a parameter of the
  definitions, and what is relied on is a named predicate with an instance in the witnesses.

  \<^bold>\<open>Not modelled.\<close>  Locking and interleaving: an operation runs alone, as the mutex of a device and the directory mutexes of
  the virtual file system ensure.  The sysfs attributes and printing; the placement of threads; the splice read path of the
  loop driver, which has no caller.  Small allocations whose result the driver does not test (nodes of the cache, the head and
  the slices of a split request).  Of SFS: opening, releasing, seeking and synchronising a directory (the rest of \<^verbatim>\<open>dir.c\<close>), the operations that forward to a partition (\<^verbatim>\<open>file.c\<close>, \<^verbatim>\<open>symlink.c\<close>
  and the attributes of \<^verbatim>\<open>inode.c\<close>), functions without a caller, and writing back an inode, which does not change
  what is read.  Of the dentry cache: the lists of children and of unused dentries, and the test of \<^verbatim>\<open>__d_move\<close> for an ancestor.
  The modified kernel tree \<^verbatim>\<open>linux-3.8.2-multilanes-patch\<close> apart from the request
  structures and these functions of the dentry cache: memory management and the generic file system layer are the kernel's own code with per-container locks and
  lists, and none of their functional behaviour is specific to MultiLanes.
\<close>

section \<open>The device on a file of ext3\<close>

definition over_ext3 :: "'a ext3_env \<Rightarrow> 'a ext3_inode redirect_env \<Rightarrow> bool" where
  "over_ext3 X E \<longleftrightarrow> ext3_env_ok X \<and> env_get_block E = ext3_get_block X (env_blkbits E) \<and>
     fsync_keeps (env_fsync E) (ext3_bmap X) (ext3_inv X) \<and> 0 < env_prefetch E"

lemma over_ext3_ok: "over_ext3 X E \<Longrightarrow> env_ok E (ext3_bmap X) (ext3_inv X)"
  using ext3_block_mapper_aux [of X "env_blkbits E"] by (simp add: over_ext3_def env_ok_def)

text \<open>A request with data that the redirection serves.\<close>

definition plain_request :: "'s redirect_env \<Rightarrow> bio \<Rightarrow> bool" where
  "plain_request E b \<longleftrightarrow> servable E b \<and> bi_bdev b \<noteq> None \<and> 0 < nr_sectors b \<and> \<not> flagged (bi_rw b) REQ_FUA"

text \<open>The file system fails the request: a block of it, or the \<^verbatim>\<open>fsync\<close> of a dirty device that a flush asks for.\<close>

definition request_fails :: "'s redirect_env \<Rightarrow> ('s \<Rightarrow> sector_t \<Rightarrow> sector_t) \<Rightarrow> ('s \<Rightarrow> bool) \<Rightarrow> bio \<Rightarrow> 's lo_trans \<Rightarrow> bool" where
  "request_fails E bmap fs_inv b d \<longleftrightarrow>
     block_fails E bmap fs_inv (bi_rw b) d (bi_sector b) (nr_sectors b) \<or> flagged (bi_rw b) REQ_FLUSH \<and> sync_err E d \<noteq> 0"

lemma redirect_sectors:
  assumes "env_ok E bmap fs_inv" and "plain_request E b" and "trans_inv bmap fs_inv d" and "lo_cio_list d = []"
  obtains ev r d' where "redirect_bio E b d = Some (Inr (ev, r, d'))" "dev_step bmap fs_inv (bi_rw b) d d'"
    "ev = [EndIO (- EIO)] \<and> request_fails E bmap fs_inv b d \<or>
     map fst (transfers ev) = map (disk_sector (env_blkbits E) (bmap (lo_fs d'))) [bi_sector b..<bi_sector b + nr_sectors b]"
proof -
  have m: "length (mem_sectors (bio_segments b)) = nr_sectors b" by (simp add: length_mem_sectors nr_sectors_def)
  show thesis
    using redirect_bio_run [OF assms(1), of b d] assms(2-4) that m by (auto simp: plain_request_def request_fails_def)
qed

text \<open>C3. What was written is what is read.  On a file of ext3, take a request without \<^verbatim>\<open>REQ_FUA\<close> and, right after it, a read of the
  same sectors.  Each of the two is ended with \<^verbatim>\<open>-EIO\<close> only if the file system fails one of its blocks or the
  \<^verbatim>\<open>fsync\<close> it asks for; otherwise both are sent to the same sectors of the host disk, in the same order.\<close>

theorem device_write_read:
  assumes "over_ext3 X E" and "plain_request E wr" and "plain_request E rd" and "\<not> flagged (bi_rw rd) REQ_WRITE"
    and "bi_sector rd = bi_sector wr" and "nr_sectors rd = nr_sectors wr"
    and "trans_inv (ext3_bmap X) (ext3_inv X) d" and "lo_cio_list d = []"
  shows "\<exists>ev1 r1 d1 ev2 r2 d2. redirect_bio E wr d = Some (Inr (ev1, r1, d1)) \<and> redirect_bio E rd d1 = Some (Inr (ev2, r2, d2)) \<and>
    dev_step (ext3_bmap X) (ext3_inv X) (bi_rw wr) d d1 \<and>
    (ev1 = [EndIO (- EIO)] \<and> request_fails E (ext3_bmap X) (ext3_inv X) wr d \<or>
     ev2 = [EndIO (- EIO)] \<and> request_fails E (ext3_bmap X) (ext3_inv X) rd d1 \<or>
     map fst (transfers ev2) = map fst (transfers ev1))"
proof -
  note ok = over_ext3_ok [OF assms(1)]
  obtain ev1 r1 d1 where w: "redirect_bio E wr d = Some (Inr (ev1, r1, d1))" "dev_step (ext3_bmap X) (ext3_inv X) (bi_rw wr) d d1"
    "ev1 = [EndIO (- EIO)] \<and> request_fails E (ext3_bmap X) (ext3_inv X) wr d \<or>
     map fst (transfers ev1) = map (disk_sector (env_blkbits E) (ext3_bmap X (lo_fs d1))) [bi_sector wr..<bi_sector wr + nr_sectors wr]"
    by (rule redirect_sectors [OF ok assms(2,7,8)])
  have d1: "trans_inv (ext3_bmap X) (ext3_inv X) d1" "lo_cio_list d1 = []" using w(2) by (simp_all add: dev_step_def)
  obtain ev2 r2 d2 where r: "redirect_bio E rd d1 = Some (Inr (ev2, r2, d2))" "dev_step (ext3_bmap X) (ext3_inv X) (bi_rw rd) d1 d2"
    "ev2 = [EndIO (- EIO)] \<and> request_fails E (ext3_bmap X) (ext3_inv X) rd d1 \<or>
     map fst (transfers ev2) = map (disk_sector (env_blkbits E) (ext3_bmap X (lo_fs d2))) [bi_sector rd..<bi_sector rd + nr_sectors rd]"
    by (rule redirect_sectors [OF ok assms(3) d1])
  have "ext3_bmap X (lo_fs d2) = ext3_bmap X (lo_fs d1)" using r(2) assms(4) by (simp add: dev_step_def)
  then show ?thesis using w r(1,3) assms(5,6) by auto
qed

text \<open>A device on a new file of the file system \<open>seq_env\<close>.\<close>

definition ext3_demo :: "(nat \<times> nat set) ext3_inode redirect_env" where
  "ext3_demo = \<lparr>env_get_block = ext3_get_block seq_env 12, env_fsync = (\<lambda>s. (0, s)), env_blkbits = 12, env_prefetch = 512,
     env_queue = \<lparr>max_sectors = 1024, max_segments = 128, merge_bvec_fn = None, recount_segments = length\<rparr>,
     env_bdev = 8, env_alloc = (\<lambda>_. True)\<rparr>"

definition ext3_dev :: "(nat \<times> nat set) ext3_inode lo_trans" where
  "ext3_dev = \<lparr>lo_cache = zero_cache, lo_dirty = False, lo_cio_list = [], lo_fs = empty_file\<rparr>"

definition two_page_read :: bio where
  "two_page_read = two_page_write\<lparr>bi_rw := 0\<rparr>"

lemma ext3_dev_ok: "trans_inv (ext3_bmap seq_env) (ext3_inv seq_env) ext3_dev" "lo_cio_list ext3_dev = []"
  by (simp_all add: trans_inv_def ext3_dev_def cache_inv_zero empty_file_inv) (simp add: entries_def zero_cache_def)

lemma over_demo: "over_ext3 seq_env ext3_demo"
  using seq_env_ok by (simp add: over_ext3_def ext3_demo_def fsync_keeps_def)

lemma demo_requests:
  "plain_request ext3_demo two_page_write" "plain_request ext3_demo two_page_read"
  "bi_rw two_page_read = 0" "bi_sector two_page_read = 21" "bi_sector two_page_write = 21"
  "nr_sectors two_page_read = 15" "nr_sectors two_page_write = 15"
  "sectors_per_block (env_blkbits ext3_demo) = 8"
  by (simp_all add: plain_request_def servable_def segs_ok_def bio_segments_def two_page_read_def two_page_write_def
      ext3_demo_def roomy_def nr_sectors_def BIO_MAX_PAGES_def REQ_WRITE_def REQ_FUA_def sectors_per_block_def)

lemma demo_no_failure: "\<not> block_fails ext3_demo m i rw d 21 15" "\<not> request_fails ext3_demo m i two_page_write d"
  "\<not> request_fails ext3_demo m i two_page_read d"
proof -
  have p: "fst (ext3_block_to_path 10 (q div 8)) \<noteq> []" if "q < 36" for q
    using that by (simp add: ext3_block_to_path_def ext3_consts)
  have "fst (env_get_block ext3_demo s (q div 8) (env_prefetch ext3_demo * 2 ^ env_blkbits ext3_demo) cr) = 0" if "q < 36" for q s cr
    using seq_no_error [OF p [OF that], of 512 12] by (simp add: ext3_demo_def)
  then show b: "\<not> block_fails ext3_demo m i rw d 21 15" for rw by (auto simp: block_fails_def demo_requests)
  show "\<not> request_fails ext3_demo m i two_page_write d" "\<not> request_fails ext3_demo m i two_page_read d"
    using b by (simp_all add: request_fails_def demo_requests) (simp add: two_page_write_def REQ_WRITE_def REQ_FLUSH_def)
qed

theorem device_write_read_witness:
  "\<exists>ev1 r1 d1 ev2 r2 d2. redirect_bio ext3_demo two_page_write ext3_dev = Some (Inr (ev1, r1, d1)) \<and>
     redirect_bio ext3_demo two_page_read d1 = Some (Inr (ev2, r2, d2)) \<and> map fst (transfers ev2) = map fst (transfers ev1)"
proof -
  have "\<not> flagged (bi_rw two_page_read) REQ_WRITE" "bi_sector two_page_read = bi_sector two_page_write"
    "nr_sectors two_page_read = nr_sectors two_page_write"
    by (simp_all add: demo_requests)
  from device_write_read [OF over_demo demo_requests(1,2) this ext3_dev_ok] show ?thesis using demo_no_failure by blast
qed

text \<open>C12. Reading a hole.  Take a plain read (\<^verbatim>\<open>bi_rw\<close> is 0) all of whose blocks are unmapped in the backing file, and let the
  file system answer for these blocks without an error.  The read is submitted to the sectors of block 0 of the host
  disk, instead of being filled with zeros.\<close>

theorem redirect_bio_hole:
  assumes "env_ok E bmap fs_inv" and "servable E old" and "bi_bdev old \<noteq> None" and "0 < nr_sectors old"
    and "bi_rw old = 0" and "\<not> block_fails E bmap fs_inv 0 d (bi_sector old) (nr_sectors old)"
    and "trans_inv bmap fs_inv d" and "lo_cio_list d = []"
    and "\<forall>s \<in> {bi_sector old..<bi_sector old + nr_sectors old}. bmap (lo_fs d) (s div sectors_per_block (env_blkbits E)) = 0"
  shows "\<exists>bs r d'. redirect_bio E old d = Some (Inr (map Submit bs, r, d')) \<and> bs \<noteq> [] \<and>
    transfers (map Submit bs) =
      zip (map (\<lambda>s. s mod sectors_per_block (env_blkbits E)) [bi_sector old..<bi_sector old + nr_sectors old])
        (mem_sectors (bio_segments old))"
  by (rule redirect_bio_unmapped [OF assms])

theorem redirect_bio_hole_witness:
  "\<exists>bs r d'. redirect_bio ext3_demo two_page_read ext3_dev = Some (Inr (map Submit bs, r, d')) \<and> bs \<noteq> [] \<and>
    transfers (map Submit bs) = zip (map (\<lambda>s. s mod 8) [21..<36]) (mem_sectors (bio_segments two_page_read))"
proof -
  have h: "\<forall>s \<in> {21..<36}. ext3_bmap seq_env (lo_fs ext3_dev) (s div 8) = 0"
    using empty_node by (simp add: ext3_dev_def ext3_bmap_def Let_def)
  have q: "servable ext3_demo two_page_read" "bi_bdev two_page_read \<noteq> None" "0 < nr_sectors two_page_read"
    using demo_requests(2) by (simp_all add: plain_request_def)
  show ?thesis
    using redirect_bio_hole [OF over_ext3_ok [OF over_demo] q demo_requests(3) _ ext3_dev_ok, unfolded demo_requests] h demo_no_failure
    by simp
qed

end
